(* ===== verification/Json.thy ===== *)
theory Json
  imports Prelude
begin

text \<open>
  The JSON values the services exchange and the two JavaScript built-ins the code
  calls on them: \<open>JSON.stringify\<close> (restaurant-service, the value cached in Redis;
  \<open>res.json\<close> of every handler) and \<open>JSON.parse\<close> (restaurant-service on a cache
  hit; \<open>express.json()\<close> on request bodies). They are runtime functions, modelled
  here from the ECMAScript definitions so that the service models can use them:
  \<^item> a JavaScript object is an association list in its property enumeration order
    (integer-index keys first in ascending order, the other keys in insertion order);
  \<^item> numbers are the integers a JavaScript number represents exactly
    (\<open>\<bar>n\<bar> \<le> 2\<^sup>5\<^sup>3\<close>); fractions and exponents are outside the model, and the
    parser answers \<open>None\<close> on them as on a \<open>SyntaxError\<close>;
  \<^item> a \<open>\u\<close> escape above \<open>0xFF\<close> is outside the \<open>char\<close> model, likewise.
  The parser runs on fuel; \<open>json_parse\<close> gives it twice the input length, which
  the round-trip theorem shows is enough for every printed value.
\<close>

datatype json = JNull | JBool bool | JNum int | JStr string | JArr "json list"
  | JObj "(string \<times> json) list"

subsection \<open>\<open>JSON.stringify\<close>\<close>

definition hex_digit :: "nat \<Rightarrow> char" where
  "hex_digit d = ''0123456789abcdef'' ! d"

text \<open>QuoteJSONString: the escapes of the table, \<open>\u00XX\<close> for other control characters.\<close>

definition quote_char :: "char \<Rightarrow> string" where
  "quote_char c = (let n = of_char c :: nat in
     if c = CHR 0x22 then [CHR 0x5C, CHR 0x22]
     else if c = CHR 0x5C then [CHR 0x5C, CHR 0x5C]
     else if n = 8 then [CHR 0x5C, CHR ''b'']
     else if n = 9 then [CHR 0x5C, CHR ''t'']
     else if n = 10 then [CHR 0x5C, CHR ''n'']
     else if n = 12 then [CHR 0x5C, CHR ''f'']
     else if n = 13 then [CHR 0x5C, CHR ''r'']
     else if n < 32 then [CHR 0x5C, CHR ''u'', CHR ''0'', CHR ''0'', hex_digit (n div 16), hex_digit (n mod 16)]
     else [c])"

definition json_quote :: "string \<Rightarrow> string" where
  "json_quote s = CHR 0x22 # concat (map quote_char s) @ [CHR 0x22]"

definition int_str :: "int \<Rightarrow> string" where
  "int_str i = (if i < 0 then CHR ''-'' # nat_str (nat (- i)) else nat_str (nat i))"

fun js_val :: "json \<Rightarrow> string"
and js_elems :: "json list \<Rightarrow> string"
and js_members :: "(string \<times> json) list \<Rightarrow> string"
where
  "js_val JNull = ''null''"
| "js_val (JBool b) = (if b then ''true'' else ''false'')"
| "js_val (JNum n) = int_str n"
| "js_val (JStr s) = json_quote s"
| "js_val (JArr xs) = CHR ''['' # js_elems xs @ '']''"
| "js_val (JObj kvs) = CHR ''{'' # js_members kvs @ ''}''"
| "js_elems [] = []"
| "js_elems [x] = js_val x"
| "js_elems (x # y # xs) = js_val x @ CHR '','' # js_elems (y # xs)"
| "js_members [] = []"
| "js_members [(k, v)] = json_quote k @ CHR '':'' # js_val v"
| "js_members ((k, v) # kv # kvs) = json_quote k @ CHR '':'' # js_val v @ CHR '','' # js_members (kv # kvs)"

definition json_stringify :: "json \<Rightarrow> string" where
  "json_stringify v = js_val v"

subsection \<open>JavaScript objects\<close>

text \<open>
  An array index is the canonical decimal string of a number below \<open>2\<^sup>3\<^sup>2 - 1\<close>;
  such keys enumerate first, ascending. Setting an existing key keeps its position.
\<close>

definition is_array_index :: "string \<Rightarrow> bool" where
  "is_array_index k = (k \<noteq> [] \<and> (\<forall>c\<in>set k. is_digit c) \<and> (hd k \<noteq> CHR ''0'' \<or> k = ''0'')
     \<and> digits_val k < 2 ^ 32 - 1)"

fun obj_set :: "(string \<times> json) list \<Rightarrow> string \<Rightarrow> json \<Rightarrow> (string \<times> json) list" where
  "obj_set [] k v = [(k, v)]"
| "obj_set ((k', v') # kvs) k v = (if k' = k then (k, v) # kvs else (k', v') # obj_set kvs k v)"

definition obj_of :: "(string \<times> json) list \<Rightarrow> (string \<times> json) list" where
  "obj_of kvs = (let m = foldl (\<lambda>acc (k, v). obj_set acc k v) [] kvs in
     sort_key (\<lambda>(k, v). digits_val k) (filter (\<lambda>(k, v). is_array_index k) m)
     @ filter (\<lambda>(k, v). \<not> is_array_index k) m)"

subsection \<open>\<open>JSON.parse\<close>\<close>

definition skip_ws :: "string \<Rightarrow> string" where
  "skip_ws s = dropWhile is_json_ws s"

definition hex_val :: "char \<Rightarrow> nat option" where
  "hex_val c = (let n = of_char c :: nat in
     if 48 \<le> n \<and> n \<le> 57 then Some (n - 48)
     else if 97 \<le> n \<and> n \<le> 102 then Some (n - 87)
     else if 65 \<le> n \<and> n \<le> 70 then Some (n - 55)
     else None)"

definition unescape :: "char \<Rightarrow> char option" where
  "unescape e = (if e = CHR 0x22 then Some (CHR 0x22)
     else if e = CHR 0x5C then Some (CHR 0x5C)
     else if e = CHR ''/'' then Some (CHR ''/'')
     else if e = CHR ''b'' then Some (char_of (8::nat))
     else if e = CHR ''f'' then Some (char_of (12::nat))
     else if e = CHR ''n'' then Some (char_of (10::nat))
     else if e = CHR ''r'' then Some (char_of (13::nat))
     else if e = CHR ''t'' then Some (char_of (9::nat))
     else None)"

definition cons_fst :: "char \<Rightarrow> (string \<times> string) option \<Rightarrow> (string \<times> string) option" where
  "cons_fst c r = map_option (\<lambda>(s, rest). (c # s, rest)) r"

text \<open>The characters of a string literal after its opening quote, up to the closing one.\<close>

fun parse_chars :: "string \<Rightarrow> (string \<times> string) option" where
  "parse_chars [] = None"
| "parse_chars (c # r) =
     (if c = CHR 0x22 then Some ([], r)
      else if c = CHR 0x5C then
        (case r of
           [] \<Rightarrow> None
         | e # r' \<Rightarrow>
             (case unescape e of
                Some d \<Rightarrow> cons_fst d (parse_chars r')
              | None \<Rightarrow>
                  (if e = CHR ''u'' then
                     (case r' of
                        h1 # h2 # h3 # h4 # r'' \<Rightarrow>
                          (case (hex_val h1, hex_val h2, hex_val h3, hex_val h4) of
                             (Some a, Some b, Some c, Some d) \<Rightarrow>
                               (let n = ((a * 16 + b) * 16 + c) * 16 + d in
                                if n < 256 then cons_fst (char_of n) (parse_chars r'') else None)
                           | _ \<Rightarrow> None)
                      | _ \<Rightarrow> None)
                   else None)))
      else if (of_char c :: nat) < 32 then None
      else cons_fst c (parse_chars r))"

text \<open>
  A JSON number of the integer form: an optional minus sign, then \<open>0\<close> or a
  digit string without a leading zero.
\<close>

definition parse_nat :: "string \<Rightarrow> (nat \<times> string) option" where
  "parse_nat s = (let ds = takeWhile is_digit s; r = dropWhile is_digit s in
     if ds = [] then None
     else if hd ds = CHR ''0'' \<and> 1 < length ds then None
     else if r \<noteq> [] \<and> hd r \<in> {CHR ''.'', CHR ''e'', CHR ''E''} then None
     else Some (digits_val ds, r))"

definition parse_num :: "string \<Rightarrow> (int \<times> string) option" where
  "parse_num s = (case s of
     c # r \<Rightarrow> (if c = CHR ''-'' then map_option (\<lambda>(n, r'). (- int n, r')) (parse_nat r)
               else map_option (\<lambda>(n, r'). (int n, r')) (parse_nat s))
   | [] \<Rightarrow> None)"

fun parse_val :: "nat \<Rightarrow> string \<Rightarrow> (json \<times> string) option"
and parse_elems :: "nat \<Rightarrow> string \<Rightarrow> (json list \<times> string) option"
and parse_members :: "nat \<Rightarrow> string \<Rightarrow> ((string \<times> json) list \<times> string) option"
where
  "parse_val 0 s = None"
| "parse_val (Suc n) s =
     (case skip_ws s of
        [] \<Rightarrow> None
      | c # r \<Rightarrow>
          (if c = CHR ''n'' then (if take 3 r = ''ull'' then Some (JNull, drop 3 r) else None)
           else if c = CHR ''t'' then (if take 3 r = ''rue'' then Some (JBool True, drop 3 r) else None)
           else if c = CHR ''f'' then (if take 4 r = ''alse'' then Some (JBool False, drop 4 r) else None)
           else if c = CHR 0x22 then map_option (\<lambda>(str, r'). (JStr str, r')) (parse_chars r)
           else if c = CHR ''['' then
             (case skip_ws r of
                [] \<Rightarrow> None
              | c' # r' \<Rightarrow>
                  (if c' = CHR '']'' then Some (JArr [], r')
                   else map_option (\<lambda>(vs, r''). (JArr vs, r'')) (parse_elems n r)))
           else if c = CHR ''{'' then
             (case skip_ws r of
                [] \<Rightarrow> None
              | c' # r' \<Rightarrow>
                  (if c' = CHR ''}'' then Some (JObj [], r')
                   else map_option (\<lambda>(kvs, r''). (JObj (obj_of kvs), r'')) (parse_members n r)))
           else map_option (\<lambda>(i, r'). (JNum i, r')) (parse_num (c # r))))"
| "parse_elems 0 s = None"
| "parse_elems (Suc n) s =
     (case parse_val n s of
        None \<Rightarrow> None
      | Some (v, r) \<Rightarrow>
          (case skip_ws r of
             [] \<Rightarrow> None
           | c # r' \<Rightarrow>
               (if c = CHR '','' then map_option (\<lambda>(vs, r''). (v # vs, r'')) (parse_elems n r')
                else if c = CHR '']'' then Some ([v], r')
                else None)))"
| "parse_members 0 s = None"
| "parse_members (Suc n) s =
     (case skip_ws s of
        [] \<Rightarrow> None
      | c # r \<Rightarrow>
          (if c \<noteq> CHR 0x22 then None
           else
             (case parse_chars r of
                None \<Rightarrow> None
              | Some (k, r1) \<Rightarrow>
                  (case skip_ws r1 of
                     [] \<Rightarrow> None
                   | c1 # r2 \<Rightarrow>
                       (if c1 \<noteq> CHR '':'' then None
                        else
                          (case parse_val n r2 of
                             None \<Rightarrow> None
                           | Some (v, r3) \<Rightarrow>
                               (case skip_ws r3 of
                                  [] \<Rightarrow> None
                                | c3 # r4 \<Rightarrow>
                                    (if c3 = CHR '','' then
                                       map_option (\<lambda>(kvs, r5). ((k, v) # kvs, r5)) (parse_members n r4)
                                     else if c3 = CHR ''}'' then Some ([(k, v)], r4)
                                     else None))))))))"

subsection \<open>Well-formed values\<close>

text \<open>
  The values on which the model of \<open>JSON.stringify\<close> is the JavaScript one and
  which \<open>JSON.parse\<close> gives back unchanged: numbers a double holds exactly, objects
  with distinct keys none of which is an array index (for those JavaScript reorders).
\<close>

fun wf_json :: "json \<Rightarrow> bool" where
  "wf_json (JNum n) = (\<bar>n\<bar> \<le> 2 ^ 53)"
| "wf_json (JArr xs) = (\<forall>x\<in>set xs. wf_json x)"
| "wf_json (JObj kvs) = (distinct (map fst kvs) \<and> (\<forall>(k, v)\<in>set kvs. \<not> is_array_index k \<and> wf_json v))"
| "wf_json _ = True"

text \<open>\<open>JSON.parse\<close>: one value, then only white space; \<open>None\<close> is the \<open>SyntaxError\<close>.\<close>

definition json_parse :: "string \<Rightarrow> json option" where
  "json_parse s = (case parse_val (2 * length s + 1) s of
     Some (v, r) \<Rightarrow> (if skip_ws r = [] then Some v else None)
   | None \<Rightarrow> None)"

subsection \<open>Round trip\<close>

text \<open>Fuel the parser spends on a printed value: one unit per nesting level and element.\<close>

fun jfuel :: "json \<Rightarrow> nat"
and jfuel_elems :: "json list \<Rightarrow> nat"
and jfuel_members :: "(string \<times> json) list \<Rightarrow> nat"
where
  "jfuel (JArr xs) = Suc (jfuel_elems xs)"
| "jfuel (JObj kvs) = Suc (jfuel_members kvs)"
| "jfuel _ = 1"
| "jfuel_elems [] = 0"
| "jfuel_elems [x] = Suc (jfuel x)"
| "jfuel_elems (x # y # xs) = Suc (max (jfuel x) (jfuel_elems (y # xs)))"
| "jfuel_members [] = 0"
| "jfuel_members [(k, v)] = Suc (jfuel v)"
| "jfuel_members ((k, v) # kv # kvs) = Suc (max (jfuel v) (jfuel_members (kv # kvs)))"

definition stop :: "string \<Rightarrow> bool" where
  "stop r = (r = [] \<or> hd r \<in> {CHR '','', CHR '']'', CHR ''}''})"

lemma hex_val_hex_digit [simp]: "d < 16 \<Longrightarrow> hex_val (hex_digit d) = Some d"
  by (auto simp: hex_val_def hex_digit_def numeral_eq_Suc less_Suc_eq)

lemma hex_val_zero [simp]: "hex_val (CHR ''0'') = Some 0"
  by (simp add: hex_val_def)

lemma char_of_of_char_eq: "(of_char c :: nat) = n \<Longrightarrow> char_of n = c"
  by (metis char_of_char)

lemma parse_chars_quote_char: "parse_chars (quote_char c @ r) = cons_fst c (parse_chars r)"
proof -
  let ?n = "of_char c :: nat"
  have c: "char_of ?n = c" by simp
    show ?thesis
  proof (cases "c = CHR 0x22 \<or> c = CHR 0x5C")
    case True
    then show ?thesis by (auto simp: quote_char_def unescape_def)
  next
    case nq: False
    show ?thesis
    proof (cases "?n < 32")
      case True
      have "?n div 16 < 16" using True by simp
      moreover have "?n mod 16 < 16" by simp
      moreover have "(?n div 16) * 16 + ?n mod 16 = ?n" by simp
      ultimately show ?thesis using nq True c
        by (auto simp: quote_char_def unescape_def Let_def dest: char_of_of_char_eq)
    next
      case False
      with nq show ?thesis by (auto simp: quote_char_def)
    qed
  qed
qed

lemma parse_chars_quoted: "parse_chars (concat (map quote_char s) @ CHR 0x22 # r) = Some (s, r)"
  by (induction s) (simp_all add: parse_chars_quote_char cons_fst_def)

lemma nat_str_hd: "\<exists>c w. nat_str n = c # w \<and> is_digit c"
  using nat_str_ne [of n] nat_str_digits [of n] by (cases "nat_str n") auto

lemma js_val_start: "\<exists>c w. js_val v = c # w \<and> \<not> is_json_ws c \<and> (c = CHR ''-'' \<or> \<not> is_digit c \<or> (\<exists>i. v = JNum i))"
proof (cases v)
  case (JNum i)
  obtain c w where "nat_str (nat (- i)) = c # w" using nat_str_hd by blast
  moreover obtain c' w' where "nat_str (nat i) = c' # w'" "is_digit c'" using nat_str_hd by blast
  ultimately show ?thesis using JNum by (auto simp: int_str_def is_json_ws_def is_digit_def)
qed (auto simp: json_quote_def is_json_ws_def is_digit_def)

lemma skip_ws_js_val [simp]: "skip_ws (js_val v @ r) = js_val v @ r"
  using js_val_start [of v] by (auto simp: skip_ws_def)

lemma skip_ws_punct [simp]:
  "skip_ws (CHR '','' # r) = CHR '','' # r" "skip_ws (CHR '']'' # r) = CHR '']'' # r"
  "skip_ws (CHR ''}'' # r) = CHR ''}'' # r" "skip_ws (CHR '':'' # r) = CHR '':'' # r"
  "skip_ws (CHR 0x22 # r) = CHR 0x22 # r" "skip_ws [] = []"
  by (simp_all add: skip_ws_def is_json_ws_def)

lemma stop_cases: "stop r \<Longrightarrow> r = [] \<or> (\<not> is_digit (hd r) \<and> hd r \<notin> {CHR ''.'', CHR ''e'', CHR ''E''})"
  by (auto simp: stop_def is_digit_def)

lemma parse_nat_nat_str: "stop r \<Longrightarrow> parse_nat (nat_str m @ r) = Some (m, r)"
proof -
  assume "stop r"
  then have r: "r = [] \<or> \<not> is_digit (hd r)" and r': "r = [] \<or> hd r \<notin> {CHR ''.'', CHR ''e'', CHR ''E''}"
    by (auto dest: stop_cases)
  have d: "\<forall>c\<in>set (nat_str m). is_digit c" by (rule nat_str_digits)
  have tw: "takeWhile is_digit (nat_str m @ r) = nat_str m" using d r by (rule takeWhile_append_stop)
  have dw: "dropWhile is_digit (nat_str m @ r) = r" using d r by (rule dropWhile_append_stop)
  show ?thesis using tw dw r' nat_str_canonical [of m] by (auto simp: parse_nat_def Let_def)
qed

lemma parse_num_int_str: "stop r \<Longrightarrow> parse_num (int_str i @ r) = Some (i, r)"
proof -
  assume r: "stop r"
  obtain c w where cw: "nat_str (nat i) = c # w" and "is_digit c" using nat_str_hd by blast
  then have "c \<noteq> CHR ''-''" by (auto simp: is_digit_def)
  moreover have "parse_nat (nat_str (nat i) @ r) = Some (nat i, r)" using r by (rule parse_nat_nat_str)
  moreover have "parse_nat (nat_str (nat (- i)) @ r) = Some (nat (- i), r)" using r by (rule parse_nat_nat_str)
  ultimately show ?thesis using cw by (auto simp: int_str_def parse_num_def)
qed

lemma obj_set_fresh: "k \<notin> fst ` set acc \<Longrightarrow> obj_set acc k v = acc @ [(k, v)]"
  by (induction acc) auto

lemma foldl_obj_set_distinct:
  "distinct (map fst (acc @ kvs)) \<Longrightarrow> foldl (\<lambda>acc (k, v). obj_set acc k v) acc kvs = acc @ kvs"
proof (induction kvs arbitrary: acc)
  case Nil
  then show ?case by simp
next
  case (Cons kv kvs)
  obtain k v where kv: "kv = (k, v)" by fastforce
  with Cons.prems have "k \<notin> fst ` set acc" by auto
  then have "obj_set acc k v = acc @ [(k, v)]" by (rule obj_set_fresh)
  with Cons.IH [of "acc @ [(k, v)]"] Cons.prems kv show ?case by simp
qed

lemma obj_of_plain:
  assumes "distinct (map fst kvs)" and "\<forall>(k, v)\<in>set kvs. \<not> is_array_index k"
  shows "obj_of kvs = kvs"
proof -
  have m: "foldl (\<lambda>acc (k, v). obj_set acc k v) [] kvs = kvs"
    using foldl_obj_set_distinct [of "[]" kvs] assms(1) by simp
  have "filter (\<lambda>(k, v). is_array_index k) kvs = []"
    using assms(2) by (auto simp: filter_empty_conv)
  moreover have "filter (\<lambda>(k, v). \<not> is_array_index k) kvs = kvs"
    using assms(2) by (auto simp: filter_id_conv)
  ultimately show ?thesis by (simp add: obj_of_def m)
qed

lemma skip_ws_nonws: "\<not> is_json_ws c \<Longrightarrow> skip_ws (c # r) = c # r"
  by (simp add: skip_ws_def)

lemma parse_val_null: "parse_val (Suc n) (CHR ''n'' # CHR ''u'' # CHR ''l'' # CHR ''l'' # r) = Some (JNull, r)"
  by (simp add: skip_ws_def is_json_ws_def)

lemma parse_val_true: "parse_val (Suc n) (CHR ''t'' # CHR ''r'' # CHR ''u'' # CHR ''e'' # r) = Some (JBool True, r)"
  by (simp add: skip_ws_def is_json_ws_def)

lemma parse_val_false:
  "parse_val (Suc n) (CHR ''f'' # CHR ''a'' # CHR ''l'' # CHR ''s'' # CHR ''e'' # r) = Some (JBool False, r)"
  by (simp add: skip_ws_def is_json_ws_def)

lemma parse_val_str: "parse_val (Suc n) (CHR 0x22 # r) = map_option (\<lambda>(str, r'). (JStr str, r')) (parse_chars r)"
  by (simp add: skip_ws_def is_json_ws_def)

lemma parse_val_arr: "parse_val (Suc n) (CHR ''['' # r) =
  (case skip_ws r of [] \<Rightarrow> None
   | c' # r' \<Rightarrow> (if c' = CHR '']'' then Some (JArr [], r')
                else map_option (\<lambda>(vs, r''). (JArr vs, r'')) (parse_elems n r)))"
  by (simp add: skip_ws_def is_json_ws_def)

lemma parse_val_obj: "parse_val (Suc n) (CHR ''{'' # r) =
  (case skip_ws r of [] \<Rightarrow> None
   | c' # r' \<Rightarrow> (if c' = CHR ''}'' then Some (JObj [], r')
                else map_option (\<lambda>(kvs, r''). (JObj (obj_of kvs), r'')) (parse_members n r)))"
  by (simp add: skip_ws_def is_json_ws_def)

lemma num_start_char:
  "c = CHR ''-'' \<or> is_digit c \<Longrightarrow> \<not> is_json_ws c \<and> c \<noteq> CHR ''n'' \<and> c \<noteq> CHR ''t'' \<and> c \<noteq> CHR ''f''
     \<and> c \<noteq> CHR 0x22 \<and> c \<noteq> CHR ''['' \<and> c \<noteq> CHR ''{''"
  by (auto simp: is_json_ws_def is_digit_def)

lemma parse_val_num: "c = CHR ''-'' \<or> is_digit c \<Longrightarrow>
  parse_val (Suc n) (c # r) = map_option (\<lambda>(i, r'). (JNum i, r')) (parse_num (c # r))"
  by (drule num_start_char) (simp add: skip_ws_nonws)

lemmas parse_val_chars = parse_val_null parse_val_true parse_val_false parse_val_str parse_val_arr parse_val_obj

declare parse_val.simps(2) [simp del]

lemma js_val_first:
  "\<exists>c w. js_val v = c # w \<and> \<not> is_json_ws c \<and> c \<noteq> CHR '']'' \<and> c \<noteq> CHR ''}'' \<and> c \<noteq> CHR '','' \<and> c \<noteq> CHR '':''"
proof (cases v)
  case (JNum i)
  obtain c w where "nat_str (nat (- i)) = c # w" using nat_str_hd by blast
  moreover obtain c' w' where "nat_str (nat i) = c' # w'" "is_digit c'" using nat_str_hd by blast
  ultimately show ?thesis using JNum by (auto simp: int_str_def is_json_ws_def is_digit_def)
qed (auto simp: json_quote_def is_json_ws_def)

lemma js_elems_first:
  "xs \<noteq> [] \<Longrightarrow> \<exists>c w. js_elems xs = c # w \<and> \<not> is_json_ws c \<and> c \<noteq> CHR '']''"
proof -
  assume "xs \<noteq> []"
  then obtain x ys where xs: "xs = x # ys" by (cases xs) auto
  obtain c w where "js_val x = c # w" "\<not> is_json_ws c" "c \<noteq> CHR '']''" using js_val_first [of x] by blast
  then show ?thesis using xs by (cases ys) auto
qed

lemma js_members_first:
  "kvs \<noteq> [] \<Longrightarrow> \<exists>w. js_members kvs = CHR 0x22 # w"
proof -
  assume "kvs \<noteq> []"
  then obtain k v ys where "kvs = (k, v) # ys" by (cases kvs) auto
  then show ?thesis by (cases ys) (auto simp: json_quote_def)
qed

lemma skip_ws_open [simp]:
  "skip_ws (CHR ''['' # r) = CHR ''['' # r" "skip_ws (CHR ''{'' # r) = CHR ''{'' # r"
  by (simp_all add: skip_ws_def is_json_ws_def)

lemma stop_punct [simp]: "stop []" "stop (CHR '','' # r)" "stop (CHR '']'' # r)" "stop (CHR ''}'' # r)"
  by (simp_all add: stop_def)

lemma parse_js:
  "wf_json v \<Longrightarrow> jfuel v \<le> n \<Longrightarrow> stop r \<Longrightarrow> parse_val n (js_val v @ r) = Some (v, r)"
  "\<forall>x\<in>set xs. wf_json x \<Longrightarrow> xs \<noteq> [] \<Longrightarrow> jfuel_elems xs \<le> n \<Longrightarrow>
     parse_elems n (js_elems xs @ CHR '']'' # r) = Some (xs, r)"
  "\<forall>(k, v)\<in>set kvs. wf_json v \<Longrightarrow> kvs \<noteq> [] \<Longrightarrow> jfuel_members kvs \<le> n \<Longrightarrow>
     parse_members n (js_members kvs @ CHR ''}'' # r) = Some (kvs, r)"
proof (induction v and xs and kvs arbitrary: n r and n r and n r rule: js_val_js_elems_js_members.induct)
  case (1 n r)
  then show ?case by (cases n) (simp_all add: parse_val_chars)
next
  case (2 b n r)
  then show ?case by (cases n; cases b) (simp_all add: parse_val_chars)
next
  case (3 i n r)
  then obtain m where n: "n = Suc m" by (cases n) auto
  obtain c w where cw: "int_str i = c # w"
    using js_val_first [of "JNum i"] by auto
  have ch: "c = CHR ''-'' \<or> is_digit c"
    using cw nat_str_hd [of "nat i"] nat_str_hd [of "nat (- i)"] by (auto simp: int_str_def split: if_splits)
  have "parse_num (int_str i @ r) = Some (i, r)" using "3.prems"(3) by (rule parse_num_int_str)
  with cw parse_val_num [OF ch, of m "w @ r"] n show ?case by simp
next
  case (4 s n r)
  then show ?case by (cases n) (simp_all add: json_quote_def parse_chars_quoted parse_val_chars)
next
  case (5 xs n r)
  then obtain m where n: "n = Suc m" and m: "jfuel_elems xs \<le> m" by (cases n) auto
  show ?case
  proof (cases "xs = []")
    case True
    with n show ?thesis by (simp add: parse_val_chars)
  next
    case False
    obtain c w where cw: "js_elems xs = c # w" "\<not> is_json_ws c" "c \<noteq> CHR '']''"
      using js_elems_first [OF False] by blast
    have "parse_elems m (js_elems xs @ CHR '']'' # r) = Some (xs, r)"
      using "5.IH" "5.prems"(1) False m by simp
    with cw n show ?thesis by (simp add: skip_ws_nonws parse_val_chars)
  qed
next
  case (6 kvs n r)
  then obtain m where n: "n = Suc m" and m: "jfuel_members kvs \<le> m" by (cases n) auto
  show ?case
  proof (cases "kvs = []")
    case True
    with n show ?thesis by (simp add: parse_val_chars)
  next
    case False
    obtain w where w: "js_members kvs = CHR 0x22 # w" using js_members_first [OF False] by blast
    have wf: "distinct (map fst kvs)" "\<forall>(k, v)\<in>set kvs. \<not> is_array_index k"
      and wfv: "\<forall>(k, v)\<in>set kvs. wf_json v"
      using "6.prems"(1) by auto
    have "parse_members m (js_members kvs @ CHR ''}'' # r) = Some (kvs, r)"
      using "6.IH" [OF wfv False m] .
    with w n obj_of_plain [OF wf] show ?thesis by (simp add: parse_val_chars)
  qed
next
  case 7
  then show ?case by simp
next
  case (8 x n r)
  then obtain m where n: "n = Suc m" and m: "jfuel x \<le> m" by (cases n) auto
  have "parse_val m (js_val x @ CHR '']'' # r) = Some (x, CHR '']'' # r)"
    using "8.IH" "8.prems"(1) m by simp
  with n show ?case by simp
next
  case (9 x y xs n r)
  then obtain m where n: "n = Suc m" and m1: "jfuel x \<le> m" and m2: "jfuel_elems (y # xs) \<le> m"
    by (cases n) auto
  have "parse_val m (js_val x @ CHR '','' # js_elems (y # xs) @ CHR '']'' # r)
      = Some (x, CHR '','' # js_elems (y # xs) @ CHR '']'' # r)"
    using "9.IH"(1) "9.prems"(1) m1 by simp
  moreover have "parse_elems m (js_elems (y # xs) @ CHR '']'' # r) = Some (y # xs, r)"
    using "9.IH"(2) "9.prems"(1) m2 by simp
  ultimately show ?case using n by simp
next
  case 10
  then show ?case by simp
next
  case (11 k v n r)
  then obtain m where n: "n = Suc m" and m: "jfuel v \<le> m" by (cases n) auto
  have "parse_val m (js_val v @ CHR ''}'' # r) = Some (v, CHR ''}'' # r)"
    using "11.IH" "11.prems"(1) m by simp
  with n show ?case by (simp add: json_quote_def parse_chars_quoted)
next
  case (12 k v kv kvs n r)
  then obtain m where n: "n = Suc m" and m1: "jfuel v \<le> m" and m2: "jfuel_members (kv # kvs) \<le> m"
    by (cases n) auto
  have "parse_val m (js_val v @ CHR '','' # js_members (kv # kvs) @ CHR ''}'' # r)
      = Some (v, CHR '','' # js_members (kv # kvs) @ CHR ''}'' # r)"
    using "12.IH"(1) "12.prems"(1) m1 by simp
  moreover have "parse_members m (js_members (kv # kvs) @ CHR ''}'' # r) = Some (kv # kvs, r)"
    using "12.IH"(2) "12.prems"(1) m2 by simp
  ultimately show ?case using n by (simp add: json_quote_def parse_chars_quoted)
qed

lemma js_val_ne: "js_val v \<noteq> []"
  using js_val_first [of v] by auto

lemma jfuel_le_length:
  "jfuel v \<le> length (js_val v)"
  "jfuel_elems xs \<le> Suc (length (js_elems xs))"
  "jfuel_members kvs \<le> Suc (length (js_members kvs))"
  by (induction v and xs and kvs rule: jfuel_jfuel_elems_jfuel_members.induct)
    (simp_all add: json_quote_def int_str_def Suc_le_eq)

theorem json_parse_stringify: "wf_json v \<Longrightarrow> json_parse (json_stringify v) = Some v"
proof -
  assume wf: "wf_json v"
  have "jfuel v \<le> 2 * length (js_val v) + 1" using jfuel_le_length(1) [of v] by simp
  then have "parse_val (2 * length (js_val v) + 1) (js_val v @ []) = Some (v, [])"
    using wf by (intro parse_js(1)) simp_all
  then show ?thesis by (simp add: json_parse_def json_stringify_def)
qed

end
