(* ===== verification/Store.thy ===== *)
theory Store
  imports Json
begin

text \<open>
  The backing services every handler awaits on, and the world state the services
  share. All four Node.js services reach one Postgres instance through the shared
  \<open>./shared/db/postgres\<close> module and one Redis instance, which holds both the
  restaurant-service cache (node-redis \<open>client\<close>) and the BullMQ queues of
  \<open>./shared/queue/redis\<close>. Their behaviour is the server's, modelled as far as the
  code depends on it:
  \<^item> Postgres: one table per service, \<open>None\<close> until its \<open>CREATE TABLE IF NOT
    EXISTS\<close> ran; rows in insertion order (a sequential scan of an append-only
    heap); the \<open>UNIQUE\<close>/\<open>NOT NULL\<close> constraints of the users table; every
    statement the server executes is appended to \<open>sql_log\<close>.
  \<^item> Redis keyspace: \<open>SETEX k s v\<close> stores \<open>v\<close> with the absolute expiry
    \<open>now + 1000 s\<close> ms; a key is expired when \<open>now > expiry\<close> (\<open>keyIsExpired\<close>),
    and \<open>GET\<close> deletes an expired key and answers nil.
  \<^item> BullMQ: a queue is a job-id counter and the waiting, active, completed and
    failed lists; a job keeps its stall count.
  A backend that is down makes the awaited call fail (\<open>pg_up\<close>, \<open>redis_up\<close>).
\<close>

datatype js_error =
    PgUnavailable
  | RelationMissing string
  | UniqueViolation string
  | NotNullViolation string
  | RedisUnavailable
  | SyntaxError
  | TypeError string
  | BcryptError
  | JwtError string

text \<open>
  What an async Express handler ends in: \<open>res.json(v)\<close> (status 200, body \<open>v\<close>),
  \<open>res.sendStatus(n)\<close>, or a rejected promise, which no code of the repository
  catches: no response is written by the handler.
\<close>

datatype outcome = Respond nat json | SendStatus nat | Rejected js_error

text \<open>
  \<open>obj.key\<close> on a request body: \<open>undefined\<close> and \<open>null\<close> throw a
  \<open>TypeError\<close>; an object answers its property (\<open>None\<close> is \<open>undefined\<close>);
  other values have no such property.
\<close>

definition js_prop :: "json option \<Rightarrow> string \<Rightarrow> js_error + json option" where
  "js_prop b k = (case b of
     None \<Rightarrow> Inl (TypeError k)
   | Some JNull \<Rightarrow> Inl (TypeError k)
   | Some (JObj kvs) \<Rightarrow> Inr (map_of kvs k)
   | Some _ \<Rightarrow> Inr None)"

text \<open>
  node-postgres \<open>prepareValue\<close> for a query parameter: \<open>null\<close>/\<open>undefined\<close>
  become SQL \<open>NULL\<close>, arrays the array literal of \<open>arrayString\<close>, objects their
  \<open>JSON.stringify\<close>, other values their string form.
\<close>

definition pg_escape_elem :: "string \<Rightarrow> string" where
  "pg_escape_elem s = CHR 0x22 # concat (map (\<lambda>c. if c = CHR 0x5C \<or> c = CHR 0x22 then [CHR 0x5C, c] else [c]) s) @ [CHR 0x22]"

fun pg_value :: "json \<Rightarrow> string option"
and pg_array :: "json list \<Rightarrow> string"
where
  "pg_value JNull = None"
| "pg_value (JBool b) = Some (if b then ''true'' else ''false'')"
| "pg_value (JNum n) = Some (int_str n)"
| "pg_value (JStr s) = Some s"
| "pg_value (JArr xs) = Some (CHR ''{'' # pg_array xs @ ''}'')"
| "pg_value (JObj kvs) = Some (json_stringify (JObj kvs))"
| "pg_array [] = []"
| "pg_array (x # xs) =
     (case x of
        JNull \<Rightarrow> ''NULL''
      | JArr ys \<Rightarrow> CHR ''{'' # pg_array ys @ ''}''
      | _ \<Rightarrow> (case pg_value x of Some s \<Rightarrow> pg_escape_elem s | None \<Rightarrow> ''NULL''))
     @ (if xs = [] then [] else CHR '','' # pg_array xs)"

definition pg_param :: "json option \<Rightarrow> string option" where
  "pg_param v = (case v of None \<Rightarrow> None | Some x \<Rightarrow> pg_value x)"

subsection \<open>Postgres\<close>

record user_row =
  u_id :: uuid
  u_email :: string
  u_password :: string
  u_role :: string

record pg =
  restaurants :: "(uuid \<times> string option) list option"
  orders :: "(uuid \<times> string) list option"
  users :: "user_row list option"
  pg_up :: bool
  sql_log :: "string list"

definition pg_init :: pg where
  "pg_init = \<lparr>restaurants = None, orders = None, users = None, pg_up = True, sql_log = []\<rparr>"

text \<open>\<open>db.query(sql)\<close>: a server that is up receives and logs the statement.\<close>

definition pg_send :: "string \<Rightarrow> pg \<Rightarrow> js_error + pg" where
  "pg_send sql p = (if pg_up p then Inr (p\<lparr>sql_log := sql_log p @ [sql]\<rparr>) else Inl PgUnavailable)"

definition create_if_absent :: "'r list option \<Rightarrow> 'r list option" where
  "create_if_absent t = (case t of None \<Rightarrow> Some [] | Some rs \<Rightarrow> Some rs)"

definition insert_row :: "string \<Rightarrow> 'r \<Rightarrow> 'r list option \<Rightarrow> js_error + 'r list option" where
  "insert_row name row t = (case t of None \<Rightarrow> Inl (RelationMissing name) | Some rs \<Rightarrow> Inr (Some (rs @ [row])))"

definition select_all :: "string \<Rightarrow> 'r list option \<Rightarrow> js_error + 'r list" where
  "select_all name t = (case t of None \<Rightarrow> Inl (RelationMissing name) | Some rs \<Rightarrow> Inr rs)"

subsection \<open>Redis keyspace\<close>

record redis =
  kv :: "string \<Rightarrow> (string \<times> time_ms) option"
  redis_up :: bool

definition redis_init :: redis where
  "redis_init = \<lparr>kv = (\<lambda>_. None), redis_up = True\<rparr>"

definition key_live :: "time_ms \<Rightarrow> string \<times> time_ms \<Rightarrow> bool" where
  "key_live now e = (now \<le> snd e)"

definition redis_get :: "time_ms \<Rightarrow> string \<Rightarrow> redis \<Rightarrow> (js_error + string option) \<times> redis" where
  "redis_get now k r =
     (if \<not> redis_up r then (Inl RedisUnavailable, r)
      else case kv r k of
        None \<Rightarrow> (Inr None, r)
      | Some e \<Rightarrow> (if key_live now e then (Inr (Some (fst e)), r)
                  else (Inr None, r\<lparr>kv := (kv r)(k := None)\<rparr>)))"

definition redis_setex :: "time_ms \<Rightarrow> string \<Rightarrow> nat \<Rightarrow> string \<Rightarrow> redis \<Rightarrow> js_error + redis" where
  "redis_setex now k secs v r =
     (if \<not> redis_up r then Inl RedisUnavailable
      else Inr (r\<lparr>kv := (kv r)(k \<mapsto> (v, now + secs * 1000))\<rparr>))"

subsection \<open>BullMQ queues\<close>

record job =
  job_id :: nat
  job_name :: string
  job_data :: json
  stalled_count :: nat

text \<open>
  \<open>waiting\<close> lists the jobs in the order a worker takes them: \<open>Queue.add\<close> pushes a
  job on the left of the wait list and a worker pops from the right (\<open>LPUSH\<close> /
  \<open>RPOPLPUSH\<close>), so the oldest job comes first. An active job carries whether its
  processor has already run; \<open>failed\<close> holds the jobs given up after stalling.
\<close>

record bull =
  next_id :: nat
  waiting :: "job list"
  active :: "(job \<times> bool) list"
  completed :: "job list"
  failed :: "job list"

definition bull_empty :: bull where
  "bull_empty = \<lparr>next_id = 1, waiting = [], active = [], completed = [], failed = []\<rparr>"

text \<open>\<open>queue.add(name, data)\<close>: a new job with the next id, taken after all waiting jobs.\<close>

definition bull_add :: "string \<Rightarrow> json \<Rightarrow> bull \<Rightarrow> job \<times> bull" where
  "bull_add name data q =
     (let j = \<lparr>job_id = next_id q, job_name = name, job_data = data, stalled_count = 0\<rparr>
      in (j, q\<lparr>next_id := Suc (next_id q), waiting := waiting q @ [j]\<rparr>))"

subsection \<open>The shared world\<close>

record world =
  pg :: pg
  rds :: redis
  queues :: "string \<Rightarrow> bull"
  clock :: time_ms
  console :: "json list list"

definition world_init :: world where
  "world_init = \<lparr>pg = pg_init, rds = redis_init, queues = (\<lambda>_. bull_empty), clock = 0, console = []\<rparr>"

subsection \<open>Facts shared by the services\<close>

lemma pg_send_Inr [simp]: "pg_up p \<Longrightarrow> pg_send sql p = Inr (p\<lparr>sql_log := sql_log p @ [sql]\<rparr>)"
  by (simp add: pg_send_def)

lemma pg_send_down [simp]: "\<not> pg_up p \<Longrightarrow> pg_send sql p = Inl PgUnavailable"
  by (simp add: pg_send_def)

lemma create_if_absent_Some [simp]: "create_if_absent t \<noteq> None"
  by (simp add: create_if_absent_def split: option.split)

lemma create_if_absent_keeps [simp]: "create_if_absent (Some rs) = Some rs"
  by (simp add: create_if_absent_def)

lemma redis_get_live:
  "redis_up r \<Longrightarrow> kv r k = Some (v, t) \<Longrightarrow> now \<le> t \<Longrightarrow> redis_get now k r = (Inr (Some v), r)"
  by (simp add: redis_get_def key_live_def)

lemma redis_get_expired:
  "redis_up r \<Longrightarrow> kv r k = Some (v, t) \<Longrightarrow> t < now \<Longrightarrow>
     redis_get now k r = (Inr None, r\<lparr>kv := (kv r)(k := None)\<rparr>)"
  by (simp add: redis_get_def key_live_def)

lemma redis_get_absent:
  "redis_up r \<Longrightarrow> kv r k = None \<Longrightarrow> redis_get now k r = (Inr None, r)"
  by (simp add: redis_get_def)

lemma redis_get_up [simp]: "redis_up (snd (redis_get now k r)) = redis_up r"
  by (simp add: redis_get_def split: option.split)

lemma redis_get_kv_other: "k' \<noteq> k \<Longrightarrow> kv (snd (redis_get now k r)) k' = kv r k'"
  by (simp add: redis_get_def split: option.split)

end
