(* ===== verification/Restaurant.thy ===== *)
theory Restaurant
  imports Store
begin

text \<open>
  restaurant-service (\<open>src/services/restaurant-service/index.js\<close>). Two handlers:
  \<open>POST /restaurants\<close> creates the table if needed and inserts a row for
  \<open>req.body.name\<close> under a fresh \<open>uuid()\<close>; \<open>GET /restaurants\<close> is a cache-aside
  read: the Redis key \<open>restaurants\<close>, when present and non-empty, is parsed and
  returned; otherwise the table is read, written to the key with a 60 s expiry and
  returned. Each handler is split at its \<open>await\<close>s into steps over the world
  (\<open>get_cache_step\<close>, \<open>get_select_step\<close>, \<open>get_setex_step\<close>;
  \<open>post_create_step\<close>, \<open>post_insert_step\<close>); the sequential handlers compose
  them, and \<open>rstep\<close> runs one step of one in-flight request, which the
  interleaving server of \<open>Restaurant_Server\<close> schedules.
\<close>

type_synonym restaurant_row = "uuid \<times> string option"

text \<open>\<open>result.rows\<close> of \<open>SELECT * FROM restaurants\<close> as JavaScript objects \<open>{id, name}\<close>.\<close>

definition row_json :: "restaurant_row \<Rightarrow> json" where
  "row_json r = JObj [(''id'', JStr (fst r)), (''name'', (case snd r of None \<Rightarrow> JNull | Some n \<Rightarrow> JStr n))]"

definition rows_json :: "restaurant_row list \<Rightarrow> json" where
  "rows_json rows = JArr (map row_json rows)"

text \<open>The rows of the table; an absent table has none.\<close>

definition table_rows :: "world \<Rightarrow> restaurant_row list" where
  "table_rows w = (case restaurants (pg w) of None \<Rightarrow> [] | Some rs \<Rightarrow> rs)"

subsection \<open>GET /restaurants\<close>

text \<open>
  Lines 35--36: \<open>const cache = await client.get("restaurants");
  if (cache) return res.json(JSON.parse(cache));\<close>. \<open>None\<close> continues to the miss path.
\<close>

definition get_cache_step :: "world \<Rightarrow> outcome option \<times> world" where
  "get_cache_step w =
     (case redis_get (clock w) ''restaurants'' (rds w) of
        (Inl e, r) \<Rightarrow> (Some (Rejected e), w\<lparr>rds := r\<rparr>)
      | (Inr None, r) \<Rightarrow> (None, w\<lparr>rds := r\<rparr>)
      | (Inr (Some c), r) \<Rightarrow>
          (if js_truthy_str c then
             (Some (case json_parse c of Some v \<Rightarrow> Respond 200 v | None \<Rightarrow> Rejected SyntaxError), w\<lparr>rds := r\<rparr>)
           else (None, w\<lparr>rds := r\<rparr>)))"

text \<open>Line 38: \<open>const result = await db.query("SELECT * FROM restaurants");\<close>\<close>

definition get_select_step :: "world \<Rightarrow> (outcome + restaurant_row list) \<times> world" where
  "get_select_step w =
     (case pg_send ''SELECT * FROM restaurants'' (pg w) of
        Inl e \<Rightarrow> (Inl (Rejected e), w)
      | Inr p \<Rightarrow>
          (case select_all ''restaurants'' (restaurants p) of
             Inl e \<Rightarrow> (Inl (Rejected e), w\<lparr>pg := p\<rparr>)
           | Inr rows \<Rightarrow> (Inr rows, w\<lparr>pg := p\<rparr>)))"

text \<open>Lines 39--40: \<open>await client.setEx("restaurants", 60, JSON.stringify(result.rows)); res.json(result.rows);\<close>\<close>

definition get_setex_step :: "restaurant_row list \<Rightarrow> world \<Rightarrow> outcome \<times> world" where
  "get_setex_step rows w =
     (case redis_setex (clock w) ''restaurants'' 60 (json_stringify (rows_json rows)) (rds w) of
        Inl e \<Rightarrow> (Rejected e, w)
      | Inr r \<Rightarrow> (Respond 200 (rows_json rows), w\<lparr>rds := r\<rparr>))"

definition get_restaurants :: "world \<Rightarrow> outcome \<times> world" where
  "get_restaurants w =
     (case get_cache_step w of
        (Some out, w1) \<Rightarrow> (out, w1)
      | (None, w1) \<Rightarrow>
          (case get_select_step w1 of
             (Inl out, w2) \<Rightarrow> (out, w2)
           | (Inr rows, w2) \<Rightarrow> get_setex_step rows w2))"

subsection \<open>POST /restaurants\<close>

text \<open>Line 28: \<open>await db.query("CREATE TABLE IF NOT EXISTS restaurants(id UUID, name TEXT)");\<close>\<close>

definition post_create_step :: "world \<Rightarrow> outcome option \<times> world" where
  "post_create_step w =
     (case pg_send ''CREATE TABLE IF NOT EXISTS restaurants(id UUID, name TEXT)'' (pg w) of
        Inl e \<Rightarrow> (Some (Rejected e), w)
      | Inr p \<Rightarrow> (None, w\<lparr>pg := p\<lparr>restaurants := create_if_absent (restaurants p)\<rparr>\<rparr>))"

text \<open>
  Lines 29--31: \<open>const id = uuid(); await db.query("INSERT INTO restaurants
  VALUES($1,$2)", [id, req.body.name]); res.json({ id });\<close>. The fresh identifier is
  the argument \<open>rid\<close>; \<open>req.body.name\<close> is read before the query is sent.
\<close>

definition post_insert_step :: "uuid \<Rightarrow> json option \<Rightarrow> world \<Rightarrow> outcome \<times> world" where
  "post_insert_step rid body w =
     (case js_prop body ''name'' of
        Inl e \<Rightarrow> (Rejected e, w)
      | Inr name \<Rightarrow>
          (case pg_send ''INSERT INTO restaurants VALUES($1,$2)'' (pg w) of
             Inl e \<Rightarrow> (Rejected e, w)
           | Inr p \<Rightarrow>
               (case insert_row ''restaurants'' (rid, pg_param name) (restaurants p) of
                  Inl e \<Rightarrow> (Rejected e, w\<lparr>pg := p\<rparr>)
                | Inr t \<Rightarrow> (Respond 200 (JObj [(''id'', JStr rid)]), w\<lparr>pg := p\<lparr>restaurants := t\<rparr>\<rparr>))))"

definition post_restaurants :: "uuid \<Rightarrow> json option \<Rightarrow> world \<Rightarrow> outcome \<times> world" where
  "post_restaurants rid body w =
     (case post_create_step w of
        (Some out, w1) \<Rightarrow> (out, w1)
      | (None, w1) \<Rightarrow> post_insert_step rid body w1)"

subsection \<open>In-flight requests\<close>

text \<open>
  An in-flight request is where its handler is suspended: before its first step,
  after each \<open>await\<close>, or finished with its outcome. \<open>rstep\<close> runs it to its next
  \<open>await\<close>.
\<close>

datatype rreq =
    GetReq
  | GetMiss
  | GetLoaded "restaurant_row list"
  | PostReq uuid "json option"
  | PostCreated uuid "json option"
  | Done outcome

fun rstep :: "rreq \<Rightarrow> world \<Rightarrow> rreq \<times> world" where
  "rstep GetReq w = (case get_cache_step w of (Some out, w') \<Rightarrow> (Done out, w') | (None, w') \<Rightarrow> (GetMiss, w'))"
| "rstep GetMiss w = (case get_select_step w of (Inl out, w') \<Rightarrow> (Done out, w') | (Inr rows, w') \<Rightarrow> (GetLoaded rows, w'))"
| "rstep (GetLoaded rows) w = (case get_setex_step rows w of (out, w') \<Rightarrow> (Done out, w'))"
| "rstep (PostReq rid b) w = (case post_create_step w of (Some out, w') \<Rightarrow> (Done out, w') | (None, w') \<Rightarrow> (PostCreated rid b, w'))"
| "rstep (PostCreated rid b) w = (case post_insert_step rid b w of (out, w') \<Rightarrow> (Done out, w'))"
| "rstep (Done out) w = (Done out, w)"

fun run_req :: "nat \<Rightarrow> rreq \<Rightarrow> world \<Rightarrow> rreq \<times> world" where
  "run_req 0 q w = (q, w)"
| "run_req (Suc n) q w = (case rstep q w of (q', w') \<Rightarrow> run_req n q' w')"

text \<open>Two worlds for the examples: a warm cache at 30 s, and a one-row table with no cache.\<close>

abbreviation w_cached :: world where
  "w_cached \<equiv> world_init\<lparr>rds := redis_init\<lparr>kv := [''restaurants'' \<mapsto>
     (json_stringify (rows_json [(''r1'', Some ''Pizza'')]), 60000)]\<rparr>, clock := 30000\<rparr>"

abbreviation w_table :: world where
  "w_table \<equiv> world_init\<lparr>pg := pg_init\<lparr>restaurants := Some [(''r1'', Some ''Pizza'')]\<rparr>\<rparr>"

subsection \<open>Step equations\<close>

lemma wf_rows_json [simp]: "wf_json (rows_json rows)"
  by (auto simp: rows_json_def row_json_def is_array_index_def is_digit_def split: option.split)

lemma parse_rows_json [simp]: "json_parse (json_stringify (rows_json rows)) = Some (rows_json rows)"
  by (simp add: json_parse_stringify)

lemma stringify_not_Nil [simp]: "json_stringify v \<noteq> []"
  by (simp add: json_stringify_def js_val_ne)

lemma stringify_ne [simp]: "js_truthy_str (json_stringify v)"
  by (simp add: js_truthy_str_def json_stringify_def js_val_ne)

lemma get_cache_step_live [handler_simps]:
  "redis_up (rds w) \<Longrightarrow> kv (rds w) ''restaurants'' = Some (c, t) \<Longrightarrow> clock w \<le> t \<Longrightarrow> c \<noteq> [] \<Longrightarrow>
   get_cache_step w = (Some (case json_parse c of Some v \<Rightarrow> Respond 200 v | None \<Rightarrow> Rejected SyntaxError), w)"
  by (simp add: get_cache_step_def redis_get_live js_truthy_str_def)

lemma get_cache_step_absent [handler_simps]:
  "redis_up (rds w) \<Longrightarrow> kv (rds w) ''restaurants'' = None \<Longrightarrow> get_cache_step w = (None, w)"
  by (simp add: get_cache_step_def redis_get_absent)

lemma get_cache_step_expired [handler_simps]:
  "redis_up (rds w) \<Longrightarrow> kv (rds w) ''restaurants'' = Some (c, t) \<Longrightarrow> t < clock w \<Longrightarrow>
   get_cache_step w = (None, w\<lparr>rds := (rds w)\<lparr>kv := (kv (rds w))(''restaurants'' := None)\<rparr>\<rparr>)"
  by (simp add: get_cache_step_def redis_get_expired)

lemma get_select_step_ok [handler_simps]:
  "pg_up (pg w) \<Longrightarrow> restaurants (pg w) = Some rows \<Longrightarrow>
   get_select_step w = (Inr rows, w\<lparr>pg := (pg w)\<lparr>sql_log := sql_log (pg w) @ [''SELECT * FROM restaurants'']\<rparr>\<rparr>)"
  by (simp add: get_select_step_def select_all_def)

lemma get_select_step_missing [handler_simps]:
  "pg_up (pg w) \<Longrightarrow> restaurants (pg w) = None \<Longrightarrow>
   get_select_step w = (Inl (Rejected (RelationMissing ''restaurants'')),
     w\<lparr>pg := (pg w)\<lparr>sql_log := sql_log (pg w) @ [''SELECT * FROM restaurants'']\<rparr>\<rparr>)"
  by (simp add: get_select_step_def select_all_def)

lemma get_setex_step_ok [handler_simps]:
  "redis_up (rds w) \<Longrightarrow>
   get_setex_step rows w = (Respond 200 (rows_json rows),
     w\<lparr>rds := (rds w)\<lparr>kv := (kv (rds w))(''restaurants'' \<mapsto> (json_stringify (rows_json rows), clock w + 60000))\<rparr>\<rparr>)"
  by (simp add: get_setex_step_def redis_setex_def)

lemma post_create_step_ok [handler_simps]:
  "pg_up (pg w) \<Longrightarrow>
   post_create_step w = (None, w\<lparr>pg := (pg w)\<lparr>sql_log := sql_log (pg w) @ [''CREATE TABLE IF NOT EXISTS restaurants(id UUID, name TEXT)''],
      restaurants := create_if_absent (restaurants (pg w))\<rparr>\<rparr>)"
  by (simp add: post_create_step_def)

lemma post_insert_step_ok [handler_simps]:
  "pg_up (pg w) \<Longrightarrow> js_prop body ''name'' = Inr name \<Longrightarrow> restaurants (pg w) = Some rows \<Longrightarrow>
   post_insert_step rid body w = (Respond 200 (JObj [(''id'', JStr rid)]),
     w\<lparr>pg := (pg w)\<lparr>sql_log := sql_log (pg w) @ [''INSERT INTO restaurants VALUES($1,$2)''],
        restaurants := Some (rows @ [(rid, pg_param name)])\<rparr>\<rparr>)"
  by (simp add: post_insert_step_def insert_row_def)

lemma post_restaurants_frame:
  "post_restaurants rid b w = (out, w1) \<Longrightarrow> rds w1 = rds w \<and> clock w1 = clock w \<and> queues w1 = queues w"
  by (auto simp: post_restaurants_def post_create_step_def post_insert_step_def split: sum.splits option.splits)

subsection \<open>Behaviour of the handlers\<close>

text \<open>C2: a GET that finds a live, non-empty cache entry answers its parsed text and changes nothing: no statement reaches Postgres.\<close>

theorem get_restaurants_hit:
  assumes "redis_up (rds w)" and "kv (rds w) ''restaurants'' = Some (c, t)" and "clock w \<le> t" and "c \<noteq> []"
  shows "get_restaurants w = ((case json_parse c of Some v \<Rightarrow> Respond 200 v | None \<Rightarrow> Rejected SyntaxError), w)"
  using assms by (simp add: get_restaurants_def get_cache_step_live)

text \<open>C5: a GET on a cold cache reads the table once, stores the printed rows under the key for 60 s and answers the rows.\<close>

theorem get_restaurants_miss:
  assumes "redis_up (rds w)" and "pg_up (pg w)" and "kv (rds w) ''restaurants'' = None"
    and "restaurants (pg w) = Some rows"
  shows "get_restaurants w = (Respond 200 (rows_json rows),
    w\<lparr>pg := (pg w)\<lparr>sql_log := sql_log (pg w) @ [''SELECT * FROM restaurants'']\<rparr>,
      rds := (rds w)\<lparr>kv := (kv (rds w))(''restaurants'' \<mapsto> (json_stringify (rows_json rows), clock w + 60000))\<rparr>\<rparr>)"
  using assms by (simp add: get_restaurants_def handler_simps)

text \<open>C3: after a miss at time t, every GET up to t + 60000 ms (boundary included) answers the same body from the cache, without SQL.\<close>

theorem cache_serves_within_ttl:
  assumes "redis_up (rds w)" and "pg_up (pg w)" and "kv (rds w) ''restaurants'' = None"
    and "restaurants (pg w) = Some rows" and "get_restaurants w = (out, w1)" and "d \<le> 60000"
  shows "get_restaurants (w1\<lparr>clock := clock w + d\<rparr>) = (out, w1\<lparr>clock := clock w + d\<rparr>)"
proof -
  have out: "out = Respond 200 (rows_json rows)" and
    w1: "w1 = w\<lparr>pg := (pg w)\<lparr>sql_log := sql_log (pg w) @ [''SELECT * FROM restaurants'']\<rparr>,
      rds := (rds w)\<lparr>kv := (kv (rds w))(''restaurants'' \<mapsto> (json_stringify (rows_json rows), clock w + 60000))\<rparr>\<rparr>"
    using assms by (simp_all add: get_restaurants_def handler_simps)
  have ne: "json_stringify (rows_json rows) \<noteq> []"
    using stringify_ne [of "rows_json rows"] by (simp add: js_truthy_str_def)
  show ?thesis
    using assms(1,6) ne by (simp add: out w1 get_restaurants_def get_cache_step_live)
qed

text \<open>C4: after a miss at time t, a GET later than t + 60000 ms reads the table again.\<close>

theorem cache_reloads_after_ttl:
  assumes "redis_up (rds w)" and "pg_up (pg w)" and "kv (rds w) ''restaurants'' = None"
    and "restaurants (pg w) = Some rows" and "get_restaurants w = (out, w1)" and "60000 < d"
  shows "\<exists>w2. get_restaurants (w1\<lparr>clock := clock w + d\<rparr>) = (out, w2)
     \<and> sql_log (pg w2) = sql_log (pg w) @ [''SELECT * FROM restaurants'', ''SELECT * FROM restaurants'']"
proof -
  have out: "out = Respond 200 (rows_json rows)" and
    w1: "w1 = w\<lparr>pg := (pg w)\<lparr>sql_log := sql_log (pg w) @ [''SELECT * FROM restaurants'']\<rparr>,
      rds := (rds w)\<lparr>kv := (kv (rds w))(''restaurants'' \<mapsto> (json_stringify (rows_json rows), clock w + 60000))\<rparr>\<rparr>"
    using assms by (simp_all add: get_restaurants_def handler_simps)
  show ?thesis
    using assms(1,2,4,6) by (simp add: out w1 get_restaurants_def handler_simps)
qed

text \<open>C7: a GET before any restaurant was created rejects with the missing relation and caches nothing.\<close>

theorem get_restaurants_no_table:
  assumes "redis_up (rds w)" and "pg_up (pg w)" and "kv (rds w) ''restaurants'' = None"
    and "restaurants (pg w) = None" and "get_restaurants w = (out, w1)"
  shows "out = Rejected (RelationMissing ''restaurants'') \<and> kv (rds w1) ''restaurants'' = None"
  using assms by (auto simp: get_restaurants_def handler_simps)

text \<open>C8: POST with an object body creates the table if needed, appends the row (id, name parameter) and answers the id.\<close>

theorem post_restaurants_ok:
  assumes "pg_up (pg w)" and "body = Some (JObj kvs)"
  shows "post_restaurants rid body w = (Respond 200 (JObj [(''id'', JStr rid)]),
    w\<lparr>pg := (pg w)\<lparr>sql_log := sql_log (pg w) @
        [''CREATE TABLE IF NOT EXISTS restaurants(id UUID, name TEXT)'', ''INSERT INTO restaurants VALUES($1,$2)''],
      restaurants := Some (table_rows w @ [(rid, pg_param (map_of kvs ''name''))])\<rparr>\<rparr>)"
  using assms by (simp add: post_restaurants_def handler_simps table_rows_def js_prop_def create_if_absent_def split: option.split)

text \<open>C9: POST without a parsed body rejects with a TypeError after the CREATE TABLE, and inserts nothing.\<close>

theorem post_restaurants_no_body:
  assumes "pg_up (pg w)"
  shows "post_restaurants rid None w = (Rejected (TypeError ''name''),
    w\<lparr>pg := (pg w)\<lparr>sql_log := sql_log (pg w) @ [''CREATE TABLE IF NOT EXISTS restaurants(id UUID, name TEXT)''],
      restaurants := create_if_absent (restaurants (pg w))\<rparr>\<rparr>)"
  using assms by (simp add: post_restaurants_def handler_simps post_insert_step_def js_prop_def)

text \<open>C6: POST does not touch the cache: a GET right after a POST answers the cached list, without the new row.\<close>

theorem post_then_get_stale:
  assumes "redis_up (rds w)" and "kv (rds w) ''restaurants'' = Some (c, t)" and "clock w \<le> t" and "c \<noteq> []"
    and "post_restaurants rid b w = (out, w1)"
  shows "get_restaurants w1 = ((case json_parse c of Some v \<Rightarrow> Respond 200 v | None \<Rightarrow> Rejected SyntaxError), w1)"
proof -
  have "rds w1 = rds w" "clock w1 = clock w" using post_restaurants_frame [OF assms(5)] by simp_all
  then show ?thesis using assms(1-4) by (simp add: get_restaurants_def get_cache_step_live)
qed


subsection \<open>Examples\<close>

theorem get_restaurants_hit_witness:
  "get_restaurants w_cached = (Respond 200 (rows_json [(''r1'', Some ''Pizza'')]), w_cached)"
  using get_restaurants_hit [of w_cached "json_stringify (rows_json [(''r1'', Some ''Pizza'')])" 60000]
  by (simp add: world_init_def redis_init_def)

theorem get_restaurants_miss_witness:
  "get_restaurants w_table = (Respond 200 (rows_json [(''r1'', Some ''Pizza'')]),
     w_table\<lparr>pg := pg_init\<lparr>restaurants := Some [(''r1'', Some ''Pizza'')], sql_log := [''SELECT * FROM restaurants'']\<rparr>,
       rds := redis_init\<lparr>kv := [''restaurants'' \<mapsto> (json_stringify (rows_json [(''r1'', Some ''Pizza'')]), 60000)]\<rparr>\<rparr>)"
  using get_restaurants_miss [of w_table "[(''r1'', Some ''Pizza'')]"]
  by (simp add: world_init_def redis_init_def pg_init_def)

lemma get_restaurants_w_table:
  "get_restaurants w_table = (Respond 200 (rows_json [(''r1'', Some ''Pizza'')]), snd (get_restaurants w_table))"
  by (simp add: get_restaurants_def handler_simps world_init_def redis_init_def pg_init_def)

theorem cache_serves_within_ttl_witness:
  "get_restaurants ((snd (get_restaurants w_table))\<lparr>clock := 60000\<rparr>)
     = (Respond 200 (rows_json [(''r1'', Some ''Pizza'')]), (snd (get_restaurants w_table))\<lparr>clock := 60000\<rparr>)"
  using cache_serves_within_ttl [OF _ _ _ _ get_restaurants_w_table, where d = 60000]
  by (simp add: world_init_def redis_init_def pg_init_def)

theorem cache_reloads_after_ttl_witness:
  "\<exists>w2. get_restaurants ((snd (get_restaurants w_table))\<lparr>clock := 60001\<rparr>)
     = (Respond 200 (rows_json [(''r1'', Some ''Pizza'')]), w2)
     \<and> sql_log (pg w2) = [''SELECT * FROM restaurants'', ''SELECT * FROM restaurants'']"
  using cache_reloads_after_ttl [OF _ _ _ _ get_restaurants_w_table, where d = 60001]
  by (simp add: world_init_def redis_init_def pg_init_def)

theorem get_restaurants_no_table_witness:
  "fst (get_restaurants world_init) = Rejected (RelationMissing ''restaurants'')
   \<and> kv (rds (snd (get_restaurants world_init))) ''restaurants'' = None"
  using get_restaurants_no_table [of world_init "fst (get_restaurants world_init)" "snd (get_restaurants world_init)"]
  by (simp add: world_init_def redis_init_def pg_init_def)

theorem post_restaurants_ok_witness:
  "post_restaurants ''r2'' (Some (JObj [(''name'', JStr ''Sushi'')])) w_table =
    (Respond 200 (JObj [(''id'', JStr ''r2'')]),
     w_table\<lparr>pg := pg_init\<lparr>sql_log :=
        [''CREATE TABLE IF NOT EXISTS restaurants(id UUID, name TEXT)'', ''INSERT INTO restaurants VALUES($1,$2)''],
      restaurants := Some [(''r1'', Some ''Pizza''), (''r2'', Some ''Sushi'')]\<rparr>\<rparr>)"
  using post_restaurants_ok [of w_table "Some (JObj [(''name'', JStr ''Sushi'')])" "[(''name'', JStr ''Sushi'')]" "''r2''"]
  by (simp add: world_init_def pg_init_def table_rows_def pg_param_def)

theorem post_restaurants_no_body_witness:
  "post_restaurants ''r2'' None world_init = (Rejected (TypeError ''name''),
     world_init\<lparr>pg := pg_init\<lparr>sql_log := [''CREATE TABLE IF NOT EXISTS restaurants(id UUID, name TEXT)''],
       restaurants := Some []\<rparr>\<rparr>)"
  using post_restaurants_no_body [of world_init "''r2''"]
  by (simp add: world_init_def pg_init_def create_if_absent_def)

theorem post_then_get_stale_witness:
  "get_restaurants (snd (post_restaurants ''r2'' (Some (JObj [(''name'', JStr ''Sushi'')])) w_cached))
   = (Respond 200 (rows_json [(''r1'', Some ''Pizza'')]),
      snd (post_restaurants ''r2'' (Some (JObj [(''name'', JStr ''Sushi'')])) w_cached))"
  using post_then_get_stale [of w_cached "json_stringify (rows_json [(''r1'', Some ''Pizza'')])" 60000
      "''r2''" "Some (JObj [(''name'', JStr ''Sushi'')])"
      "fst (post_restaurants ''r2'' (Some (JObj [(''name'', JStr ''Sushi'')])) w_cached)"
      "snd (post_restaurants ''r2'' (Some (JObj [(''name'', JStr ''Sushi'')])) w_cached)"]
  by (simp add: world_init_def redis_init_def)

end
