(* ===== verification/Restaurant_Server.thy ===== *)
theory Restaurant_Server
  imports Restaurant
begin

text \<open>
  The restaurant-service process serves many requests at once: Node.js runs each
  handler until its next \<open>await\<close>, and any other request may run while one waits.
  A server state is the world and the requests in flight; \<open>rs_step\<close> lets a request
  arrive, runs one step of any in-flight request (\<open>rstep\<close>), lets time pass, or
  takes Postgres or Redis down or up. Schedules (\<open>sched_ev\<close> lists run by
  \<open>run_sched\<close>) are the concrete interleavings used as examples.
\<close>

record rserver =
  sw :: world
  inflight :: "rreq list"

inductive rs_step :: "rserver \<Rightarrow> rserver \<Rightarrow> bool" where
  get_arrives: "rs_step s (s\<lparr>inflight := inflight s @ [GetReq]\<rparr>)"
| post_arrives: "rs_step s (s\<lparr>inflight := inflight s @ [PostReq rid b]\<rparr>)"
| advance: "i < length (inflight s) \<Longrightarrow> rstep (inflight s ! i) (sw s) = (q, w') \<Longrightarrow>
    rs_step s \<lparr>sw = w', inflight = (inflight s)[i := q]\<rparr>"
| tick: "rs_step s (s\<lparr>sw := (sw s)\<lparr>clock := clock (sw s) + d\<rparr>\<rparr>)"
| pg_outage: "rs_step s (s\<lparr>sw := (sw s)\<lparr>pg := (pg (sw s))\<lparr>pg_up := u\<rparr>\<rparr>\<rparr>)"
| redis_outage: "rs_step s (s\<lparr>sw := (sw s)\<lparr>rds := (rds (sw s))\<lparr>redis_up := u\<rparr>\<rparr>\<rparr>)"

inductive_cases rs_stepE: "rs_step s t"

subsection \<open>The cache holds a prefix of the table\<close>

text \<open>
  The cached text is always the printed form of a prefix of the table, and so is
  every row list a request has read and not yet written back.
\<close>

definition cache_consistent :: "rserver \<Rightarrow> bool" where
  "cache_consistent s \<longleftrightarrow>
     (\<forall>c t. kv (rds (sw s)) ''restaurants'' = Some (c, t) \<longrightarrow>
        (\<exists>rows. c = json_stringify (rows_json rows) \<and> prefix rows (table_rows (sw s))))
   \<and> (\<forall>rows. GetLoaded rows \<in> set (inflight s) \<longrightarrow> prefix rows (table_rows (sw s)))"

fun is_get :: "rreq \<Rightarrow> bool" where
  "is_get GetReq = True"
| "is_get GetMiss = True"
| "is_get (GetLoaded rows) = True"
| "is_get _ = False"

subsection \<open>Schedules\<close>

text \<open>A schedule names the next event: an arrival, one step of request \<open>i\<close>, or a wait.\<close>

datatype sched_ev = Arrive_get | Arrive_post uuid "json option" | Run nat | Wait nat

fun sched_step :: "sched_ev \<Rightarrow> rserver \<Rightarrow> rserver" where
  "sched_step Arrive_get s = s\<lparr>inflight := inflight s @ [GetReq]\<rparr>"
| "sched_step (Arrive_post rid b) s = s\<lparr>inflight := inflight s @ [PostReq rid b]\<rparr>"
| "sched_step (Run i) s =
     (if i < length (inflight s) then
        (case rstep (inflight s ! i) (sw s) of (q, w') \<Rightarrow> \<lparr>sw = w', inflight = (inflight s)[i := q]\<rparr>)
      else s)"
| "sched_step (Wait d) s = s\<lparr>sw := (sw s)\<lparr>clock := clock (sw s) + d\<rparr>\<rparr>"

definition run_sched :: "sched_ev list \<Rightarrow> rserver \<Rightarrow> rserver" where
  "run_sched es s = fold sched_step es s"

subsection \<open>The invariant\<close>

lemma rstep_table_grows: "rstep q w = (q', w') \<Longrightarrow> prefix (table_rows w) (table_rows w')"
  by (cases q) (auto simp: table_rows_def get_cache_step_def get_select_step_def get_setex_step_def
      post_create_step_def post_insert_step_def pg_send_def insert_row_def create_if_absent_def
      redis_get_def redis_setex_def split: prod.splits sum.splits option.splits if_splits)

lemma rstep_cache_write:
  "rstep q w = (q', w') \<Longrightarrow> kv (rds w') ''restaurants'' = Some e \<Longrightarrow>
     kv (rds w) ''restaurants'' = Some e \<or> (\<exists>rows. q = GetLoaded rows \<and> fst e = json_stringify (rows_json rows))"
  by (cases q) (auto simp: get_cache_step_def get_select_step_def get_setex_step_def
      post_create_step_def post_insert_step_def pg_send_def redis_get_def redis_setex_def
      split: prod.splits sum.splits option.splits if_splits)

lemma rstep_loaded: "rstep q w = (GetLoaded rows, w') \<Longrightarrow> rows = table_rows w'"
  by (cases q) (auto simp: table_rows_def get_cache_step_def get_select_step_def get_setex_step_def
      post_create_step_def post_insert_step_def pg_send_def select_all_def
      split: prod.splits sum.splits option.splits if_splits)

lemma set_update_subset: "x \<in> set (xs[i := y]) \<Longrightarrow> x = y \<or> x \<in> set xs"
  using set_update_subset_insert by fastforce

lemma cache_consistent_init: "cache_consistent \<lparr>sw = world_init, inflight = []\<rparr>"
  by (simp add: cache_consistent_def world_init_def redis_init_def)

lemma rs_step_cache_consistent: "rs_step s t \<Longrightarrow> cache_consistent s \<Longrightarrow> cache_consistent t"
proof (induction rule: rs_step.induct)
  case (advance i s q w')
  let ?old = "table_rows (sw s)" and ?new = "table_rows w'"
  have grow: "prefix ?old ?new" using advance.hyps(2) by (rule rstep_table_grows)
  have inv_c: "\<And>c t. kv (rds (sw s)) ''restaurants'' = Some (c, t) \<Longrightarrow>
      \<exists>rows. c = json_stringify (rows_json rows) \<and> prefix rows ?old"
    and inv_l: "\<And>rows. GetLoaded rows \<in> set (inflight s) \<Longrightarrow> prefix rows ?old"
    using advance.prems by (auto simp: cache_consistent_def)
  have qi: "inflight s ! i \<in> set (inflight s)" using advance.hyps(1) by simp
  have cache: "\<exists>rows. c = json_stringify (rows_json rows) \<and> prefix rows ?new"
    if "kv (rds w') ''restaurants'' = Some (c, t)" for c t
    using rstep_cache_write [OF advance.hyps(2) that]
  proof
    assume "kv (rds (sw s)) ''restaurants'' = Some (c, t)"
    then obtain rows where "c = json_stringify (rows_json rows)" "prefix rows ?old" using inv_c by blast
    then show ?thesis using prefix_order.trans [OF _ grow] by blast
  next
    assume "\<exists>rows. inflight s ! i = GetLoaded rows \<and> fst (c, t) = json_stringify (rows_json rows)"
    then obtain rows where r: "inflight s ! i = GetLoaded rows" "c = json_stringify (rows_json rows)" by auto
    with qi have "GetLoaded rows \<in> set (inflight s)" by simp
    then have "prefix rows ?new" using inv_l prefix_order.trans [OF _ grow] by blast
    with r(2) show ?thesis by blast
  qed
  have loaded: "prefix rows ?new" if "GetLoaded rows \<in> set ((inflight s)[i := q])" for rows
    using set_update_subset [OF that]
  proof
    assume "GetLoaded rows = q"
    with advance.hyps(2) have "rows = ?new" by (simp add: rstep_loaded)
    then show ?thesis by simp
  next
    assume "GetLoaded rows \<in> set (inflight s)"
    then show ?thesis using inv_l prefix_order.trans [OF _ grow] by blast
  qed
  show ?case using cache loaded unfolding cache_consistent_def by simp
next
  case (get_arrives s)
  then show ?case unfolding cache_consistent_def by simp
next
  case (post_arrives s rid b)
  then show ?case unfolding cache_consistent_def by simp
next
  case (tick s d)
  have "table_rows (sw s\<lparr>clock := clock (sw s) + d\<rparr>) = table_rows (sw s)" by (simp add: table_rows_def)
  with tick show ?case unfolding cache_consistent_def by simp
next
  case (pg_outage s u)
  have "table_rows (sw s\<lparr>pg := pg (sw s)\<lparr>pg_up := u\<rparr>\<rparr>) = table_rows (sw s)" by (simp add: table_rows_def)
  with pg_outage show ?case unfolding cache_consistent_def by simp
next
  case (redis_outage s u)
  have "table_rows (sw s\<lparr>rds := rds (sw s)\<lparr>redis_up := u\<rparr>\<rparr>) = table_rows (sw s)" by (simp add: table_rows_def)
  with redis_outage show ?case unfolding cache_consistent_def by simp
qed

lemma reach_cache_consistent: "rs_step\<^sup>*\<^sup>* s0 s \<Longrightarrow> cache_consistent s0 \<Longrightarrow> cache_consistent s"
  by (induction rule: rtranclp_induct) (auto intro: rs_step_cache_consistent)

lemma get_cache_step_respond:
  "get_cache_step w = (Some (Respond n v), w') \<Longrightarrow>
     (\<exists>c t. kv (rds w) ''restaurants'' = Some (c, t) \<and> json_parse c = Some v) \<and> pg w' = pg w"
  by (auto simp: get_cache_step_def redis_get_def split: prod.splits sum.splits option.splits if_splits)

text \<open>
  C1: whatever the interleaving of requests, outages and waits, a GET that answers
  200 answers the printed form of a prefix of the restaurants table: it never lists a
  restaurant the table does not hold, and lists them in table order.
\<close>

theorem get_response_is_table_prefix:
  assumes "rs_step\<^sup>*\<^sup>* s0 s" and "cache_consistent s0"
    and "i < length (inflight s)" and "is_get (inflight s ! i)"
    and "rstep (inflight s ! i) (sw s) = (Done (Respond 200 v), w')"
  shows "\<exists>rows. v = rows_json rows \<and> prefix rows (table_rows w')"
proof -
  have inv: "cache_consistent s" using assms(1,2) by (rule reach_cache_consistent)
  have mem: "inflight s ! i \<in> set (inflight s)" using assms(3) by simp
  show ?thesis
  proof (cases "inflight s ! i")
    case GetReq
    with assms(5) have "get_cache_step (sw s) = (Some (Respond 200 v), w')"
      by (auto split: prod.splits option.splits)
    then obtain c t where c: "kv (rds (sw s)) ''restaurants'' = Some (c, t)" "json_parse c = Some v"
      and p: "pg w' = pg (sw s)"
      by (blast dest: get_cache_step_respond)
    from inv c(1) obtain rows where r: "c = json_stringify (rows_json rows)" "prefix rows (table_rows (sw s))"
      by (auto simp: cache_consistent_def)
    with c(2) have "v = rows_json rows" by simp
    moreover have "table_rows w' = table_rows (sw s)" using p by (simp add: table_rows_def)
    ultimately show ?thesis using r(2) by auto
  next
    case GetMiss
    with assms(5) show ?thesis
      by (auto simp: get_select_step_def split: prod.splits sum.splits)
  next
    case (GetLoaded rows)
    with inv mem have pre: "prefix rows (table_rows (sw s))" by (simp add: cache_consistent_def)
    from GetLoaded assms(5) have "get_setex_step rows (sw s) = (Respond 200 v, w')"
      by (simp split: prod.splits)
    then have "v = rows_json rows \<and> pg w' = pg (sw s)"
      by (auto simp: get_setex_step_def split: sum.splits)
    with pre show ?thesis by (auto simp: table_rows_def)
  qed (use assms(4) in simp_all)
qed

lemma sched_step_reach: "rs_step\<^sup>*\<^sup>* s (sched_step e s)"
proof (cases e)
  case (Run i)
  show ?thesis
  proof (cases "i < length (inflight s)")
    case True
    obtain q w' where "rstep (inflight s ! i) (sw s) = (q, w')" by fastforce
    with True Run show ?thesis by (auto intro: rs_step.advance)
  qed (use Run in simp)
qed (auto intro: rs_step.intros)

lemma run_sched_reach: "rs_step\<^sup>*\<^sup>* s (run_sched es s)"
proof (induction es arbitrary: s)
  case (Cons e es)
  have "rs_step\<^sup>*\<^sup>* (sched_step e s) (run_sched es (sched_step e s))" by (rule Cons.IH)
  with sched_step_reach [of s e] show ?case
    by (simp add: run_sched_def)
qed (simp add: run_sched_def)

theorem get_response_is_table_prefix_witness:
  "\<exists>rows. rows_json [(''r1'', Some ''Pizza'')] = rows_json rows \<and>
     prefix rows (table_rows (snd (get_setex_step [(''r1'', Some ''Pizza'')] w_table)))"
proof -
  let ?s = "\<lparr>sw = w_table, inflight = [GetLoaded [(''r1'', Some ''Pizza'')]]\<rparr>"
  have c: "cache_consistent ?s"
    by (simp add: cache_consistent_def world_init_def redis_init_def pg_init_def table_rows_def)
  have r: "rstep (inflight ?s ! 0) (sw ?s) = (Done (Respond 200 (rows_json [(''r1'', Some ''Pizza'')])),
      snd (get_setex_step [(''r1'', Some ''Pizza'')] w_table))"
    by (simp add: get_setex_step_def redis_setex_def world_init_def redis_init_def)
  show ?thesis using get_response_is_table_prefix [OF rtranclp.rtrancl_refl c _ _ r] by simp
qed



subsection \<open>No single-flight\<close>

text \<open>
  C10: two GET requests that find the cache cold and are interleaved at their awaits
  both read the table and both write the cache: the loader runs once per request,
  not once per key as the spec's single-flight cache-aside store requires (spec
  section 8). Both answer the rows.
\<close>

theorem concurrent_misses_query_twice:
  assumes "redis_up (rds w)" and "pg_up (pg w)" and "kv (rds w) ''restaurants'' = None"
    and "restaurants (pg w) = Some rows"
  shows "run_sched [Arrive_get, Arrive_get, Run 0, Run 1, Run 0, Run 1, Run 0, Run 1] \<lparr>sw = w, inflight = []\<rparr>
    = \<lparr>sw = w\<lparr>pg := (pg w)\<lparr>sql_log := sql_log (pg w) @ [''SELECT * FROM restaurants'', ''SELECT * FROM restaurants'']\<rparr>,
               rds := (rds w)\<lparr>kv := (kv (rds w))(''restaurants'' \<mapsto> (json_stringify (rows_json rows), clock w + 60000))\<rparr>\<rparr>,
       inflight = [Done (Respond 200 (rows_json rows)), Done (Respond 200 (rows_json rows))]\<rparr>"
  using assms by (simp add: run_sched_def handler_simps)

theorem concurrent_misses_query_twice_witness:
  "sql_log (pg (sw (run_sched [Arrive_get, Arrive_get, Run 0, Run 1, Run 0, Run 1, Run 0, Run 1]
      \<lparr>sw = w_table, inflight = []\<rparr>))) = [''SELECT * FROM restaurants'', ''SELECT * FROM restaurants'']"
  using concurrent_misses_query_twice [of w_table "[(''r1'', Some ''Pizza'')]"]
  by (simp add: world_init_def redis_init_def pg_init_def)

end
