(* ===== verification/Orders.thy ===== *)
theory Orders
  imports Store
begin

text \<open>
  order-service (\<open>src/services/order-service/index.js\<close>) and the queue module it
  requires (\<open>shared/queue/redis\<close>, lines 38--43 of the same file):
  \<open>POST /orders\<close> creates the orders table if needed, inserts the row
  \<open>(id, "PLACED")\<close> under a fresh \<open>uuid()\<close>, adds the job \<open>order.created\<close> with
  data \<open>{orderId: id}\<close> to the BullMQ queue \<open>order-events\<close> and answers
  \<open>{orderId, status: "PLACED"}\<close>. The handler is cut at its three \<open>await\<close>s.
\<close>

text \<open>Line 41: \<open>const orderQueue = new Queue("order-events", { connection });\<close>\<close>

definition order_queue :: string where
  "order_queue = ''order-events''"

text \<open>Lines 25--27: \<open>await db.query("CREATE TABLE IF NOT EXISTS orders(id UUID, status TEXT)");\<close>\<close>

definition order_create_step :: "world \<Rightarrow> outcome option \<times> world" where
  "order_create_step w =
     (case pg_send ''CREATE TABLE IF NOT EXISTS orders(id UUID, status TEXT)'' (pg w) of
        Inl e \<Rightarrow> (Some (Rejected e), w)
      | Inr p \<Rightarrow> (None, w\<lparr>pg := p\<lparr>orders := create_if_absent (orders p)\<rparr>\<rparr>))"

text \<open>Lines 29--30: \<open>const id = uuid(); await db.query("INSERT INTO orders VALUES($1,$2)", [id, "PLACED"]);\<close>\<close>

definition order_insert_step :: "uuid \<Rightarrow> world \<Rightarrow> outcome option \<times> world" where
  "order_insert_step oid w =
     (case pg_send ''INSERT INTO orders VALUES($1,$2)'' (pg w) of
        Inl e \<Rightarrow> (Some (Rejected e), w)
      | Inr p \<Rightarrow>
          (case insert_row ''orders'' (oid, ''PLACED'') (orders p) of
             Inl e \<Rightarrow> (Some (Rejected e), w\<lparr>pg := p\<rparr>)
           | Inr t \<Rightarrow> (None, w\<lparr>pg := p\<lparr>orders := t\<rparr>\<rparr>)))"

text \<open>
  Lines 32--34: \<open>await orderQueue.add("order.created", { orderId: id });
  res.json({ orderId: id, status: "PLACED" });\<close>
\<close>

definition order_publish_step :: "uuid \<Rightarrow> world \<Rightarrow> outcome \<times> world" where
  "order_publish_step oid w =
     (if \<not> redis_up (rds w) then (Rejected RedisUnavailable, w)
      else
        (case bull_add ''order.created'' (JObj [(''orderId'', JStr oid)]) (queues w order_queue) of
           (j, q) \<Rightarrow> (Respond 200 (JObj [(''orderId'', JStr oid), (''status'', JStr ''PLACED'')]),
                      w\<lparr>queues := (queues w)(order_queue := q)\<rparr>)))"

definition post_orders :: "uuid \<Rightarrow> world \<Rightarrow> outcome \<times> world" where
  "post_orders oid w =
     (case order_create_step w of
        (Some out, w1) \<Rightarrow> (out, w1)
      | (None, w1) \<Rightarrow>
          (case order_insert_step oid w1 of
             (Some out, w2) \<Rightarrow> (out, w2)
           | (None, w2) \<Rightarrow> order_publish_step oid w2))"

text \<open>The identifiers of the orders table; an absent table has none.\<close>

definition order_ids :: "world \<Rightarrow> uuid list" where
  "order_ids w = (case orders (pg w) of None \<Rightarrow> [] | Some rs \<Rightarrow> map fst rs)"

text \<open>The job data of line 32, \<open>{ orderId: id }\<close>.\<close>

abbreviation order_event :: "uuid \<Rightarrow> json" where
  "order_event oid \<equiv> JObj [(''orderId'', JStr oid)]"

text \<open>The answer of line 34, \<open>{ orderId: id, status: "PLACED" }\<close>.\<close>

abbreviation order_answer :: "uuid \<Rightarrow> json" where
  "order_answer oid \<equiv> JObj [(''orderId'', JStr oid), (''status'', JStr ''PLACED'')]"

subsection \<open>In-flight order requests\<close>

text \<open>
  A \<open>POST /orders\<close> suspended at one of its \<open>await\<close>s. \<open>OrdReq oid\<close> is a request that
  has not run; \<open>oid\<close> is the value its \<open>uuid()\<close> call (line 29) will return.
\<close>

datatype oreq = OrdReq uuid | OrdCreated uuid | OrdInserted uuid | OrdDone outcome

fun ostep :: "oreq \<Rightarrow> world \<Rightarrow> oreq \<times> world" where
  "ostep (OrdReq oid) w = (case order_create_step w of (Some out, w') \<Rightarrow> (OrdDone out, w') | (None, w') \<Rightarrow> (OrdCreated oid, w'))"
| "ostep (OrdCreated oid) w = (case order_insert_step oid w of (Some out, w') \<Rightarrow> (OrdDone out, w') | (None, w') \<Rightarrow> (OrdInserted oid, w'))"
| "ostep (OrdInserted oid) w = (case order_publish_step oid w of (out, w') \<Rightarrow> (OrdDone out, w'))"
| "ostep (OrdDone out) w = (OrdDone out, w)"

text \<open>Running one request \<open>n\<close> steps.\<close>

fun orun :: "nat \<Rightarrow> oreq \<Rightarrow> world \<Rightarrow> oreq \<times> world" where
  "orun 0 r w = (r, w)"
| "orun (Suc n) r w = (case ostep r w of (r', w') \<Rightarrow> orun n r' w')"

text \<open>The order id a request still in flight carries.\<close>

fun pending_oid :: "oreq \<Rightarrow> uuid list" where
  "pending_oid (OrdDone out) = []"
| "pending_oid (OrdReq oid) = [oid]"
| "pending_oid (OrdCreated oid) = [oid]"
| "pending_oid (OrdInserted oid) = [oid]"

subsection \<open>Step equations\<close>

lemma order_create_step_ok [handler_simps]:
  "pg_up (pg w) \<Longrightarrow> order_create_step w =
     (None, w\<lparr>pg := (pg w)\<lparr>sql_log := sql_log (pg w) @ [''CREATE TABLE IF NOT EXISTS orders(id UUID, status TEXT)''],
        orders := create_if_absent (orders (pg w))\<rparr>\<rparr>)"
  by (simp add: order_create_step_def)

lemma order_insert_step_ok [handler_simps]:
  "pg_up (pg w) \<Longrightarrow> orders (pg w) = Some rs \<Longrightarrow> order_insert_step oid w =
     (None, w\<lparr>pg := (pg w)\<lparr>sql_log := sql_log (pg w) @ [''INSERT INTO orders VALUES($1,$2)''],
        orders := Some (rs @ [(oid, ''PLACED'')])\<rparr>\<rparr>)"
  by (simp add: order_insert_step_def insert_row_def)

lemma order_publish_step_ok [handler_simps]:
  "redis_up (rds w) \<Longrightarrow> order_publish_step oid w =
     (Respond 200 (JObj [(''orderId'', JStr oid), (''status'', JStr ''PLACED'')]),
      w\<lparr>queues := (queues w)(order_queue := snd (bull_add ''order.created'' (JObj [(''orderId'', JStr oid)]) (queues w order_queue)))\<rparr>)"
  by (simp add: order_publish_step_def split: prod.split)

lemma order_publish_step_down [handler_simps]:
  "\<not> redis_up (rds w) \<Longrightarrow> order_publish_step oid w = (Rejected RedisUnavailable, w)"
  by (simp add: order_publish_step_def)

lemma ostep_req:
  "ostep (OrdReq oid) w = (r', w') \<Longrightarrow>
     order_ids w' = order_ids w \<and> queues w' = queues w \<and> (r' = OrdCreated oid \<or> (\<exists>e. r' = OrdDone (Rejected e)))"
  by (auto simp: order_create_step_def order_ids_def pg_send_def create_if_absent_def split: if_splits option.splits)

lemma ostep_created:
  "ostep (OrdCreated oid) w = (r', w') \<Longrightarrow> queues w' = queues w \<and>
     ((r' = OrdInserted oid \<and> order_ids w' = order_ids w @ [oid])
      \<or> ((\<exists>e. r' = OrdDone (Rejected e)) \<and> order_ids w' = order_ids w))"
  by (auto simp: order_insert_step_def order_ids_def pg_send_def insert_row_def split: if_splits option.splits)

lemma ostep_inserted:
  "ostep (OrdInserted oid) w = (r', w') \<Longrightarrow> order_ids w' = order_ids w \<and>
     ((\<exists>e. r' = OrdDone (Rejected e) \<and> queues w' = queues w)
      \<or> (r' = OrdDone (Respond 200 (order_answer oid))
         \<and> queues w' = (queues w)(order_queue := snd (bull_add ''order.created'' (order_event oid) (queues w order_queue)))))"
  by (auto simp: order_publish_step_def order_ids_def split: if_splits prod.splits)

subsection \<open>The handler\<close>

text \<open>
  C11: with Postgres and Redis up, \<open>POST /orders\<close> answers 200 with
  \<open>{orderId, status: "PLACED"}\<close>, runs the CREATE and the INSERT in that order, appends
  the row \<open>(id, "PLACED")\<close> to the (possibly new) orders table and adds one job
  \<open>order.created\<close> with data \<open>{orderId: id}\<close> to the end of the queue \<open>order-events\<close>.
\<close>

theorem post_orders_ok:
  assumes "pg_up (pg w)" and "redis_up (rds w)"
  shows "post_orders oid w =
    (Respond 200 (JObj [(''orderId'', JStr oid), (''status'', JStr ''PLACED'')]),
     w\<lparr>pg := (pg w)\<lparr>sql_log := sql_log (pg w) @ [''CREATE TABLE IF NOT EXISTS orders(id UUID, status TEXT)'',
                                          ''INSERT INTO orders VALUES($1,$2)''],
                  orders := map_option (\<lambda>rs. rs @ [(oid, ''PLACED'')]) (create_if_absent (orders (pg w)))\<rparr>,
       queues := (queues w)(order_queue := snd (bull_add ''order.created'' (JObj [(''orderId'', JStr oid)]) (queues w order_queue)))\<rparr>)"
proof -
  obtain rs where rs: "create_if_absent (orders (pg w)) = Some rs"
    using create_if_absent_Some by blast
  show ?thesis using assms rs by (simp add: post_orders_def handler_simps)
qed

theorem post_orders_ok_witness:
  "post_orders ''o1'' world_init =
    (Respond 200 (JObj [(''orderId'', JStr ''o1''), (''status'', JStr ''PLACED'')]),
     world_init\<lparr>pg := pg_init\<lparr>sql_log := [''CREATE TABLE IF NOT EXISTS orders(id UUID, status TEXT)'',
                                    ''INSERT INTO orders VALUES($1,$2)''], orders := Some [(''o1'', ''PLACED'')]\<rparr>,
       queues := (\<lambda>_. bull_empty)(order_queue := bull_empty\<lparr>next_id := 2,
         waiting := [\<lparr>job_id = 1, job_name = ''order.created'', job_data = JObj [(''orderId'', JStr ''o1'')], stalled_count = 0\<rparr>]\<rparr>)\<rparr>)"
  using post_orders_ok [of world_init "''o1''"]
  by (simp add: world_init_def pg_init_def redis_init_def bull_empty_def bull_add_def create_if_absent_def Let_def numeral_2_eq_2)

text \<open>
  C12: when Redis is down at the publish, the order row is already committed but no job
  is added and the handler's promise rejects (Express 4 sends no answer): the order
  exists and its \<open>order.created\<close> event never will.
\<close>

theorem post_orders_redis_down:
  assumes "pg_up (pg w)" and "\<not> redis_up (rds w)"
  shows "fst (post_orders oid w) = Rejected RedisUnavailable
    \<and> oid \<in> set (order_ids (snd (post_orders oid w)))
    \<and> queues (snd (post_orders oid w)) = queues w"
proof -
  obtain rs where rs: "create_if_absent (orders (pg w)) = Some rs"
    using create_if_absent_Some by blast
  show ?thesis using assms rs by (simp add: post_orders_def handler_simps order_ids_def)
qed

theorem post_orders_redis_down_witness:
  "fst (post_orders ''o1'' (world_init\<lparr>rds := redis_init\<lparr>redis_up := False\<rparr>\<rparr>)) = Rejected RedisUnavailable
    \<and> order_ids (snd (post_orders ''o1'' (world_init\<lparr>rds := redis_init\<lparr>redis_up := False\<rparr>\<rparr>))) = [''o1'']
    \<and> queues (snd (post_orders ''o1'' (world_init\<lparr>rds := redis_init\<lparr>redis_up := False\<rparr>\<rparr>))) = (\<lambda>_. bull_empty)"
  using post_orders_redis_down [of "world_init\<lparr>rds := redis_init\<lparr>redis_up := False\<rparr>\<rparr>" "''o1''"]
  by (simp add: world_init_def pg_init_def redis_init_def post_orders_def handler_simps order_ids_def create_if_absent_def)

text \<open>C13: with Postgres down the handler rejects at its first query and changes nothing.\<close>

theorem post_orders_pg_down:
  "\<not> pg_up (pg w) \<Longrightarrow> post_orders oid w = (Rejected PgUnavailable, w)"
  by (simp add: post_orders_def order_create_step_def pg_send_def)

theorem post_orders_pg_down_witness:
  "post_orders ''o1'' (world_init\<lparr>pg := pg_init\<lparr>pg_up := False\<rparr>\<rparr>) = (Rejected PgUnavailable, world_init\<lparr>pg := pg_init\<lparr>pg_up := False\<rparr>\<rparr>)"
  using post_orders_pg_down [of "world_init\<lparr>pg := pg_init\<lparr>pg_up := False\<rparr>\<rparr>" "''o1''"]
  by (simp add: pg_init_def)

end
