(* ===== verification/Notification.thy ===== *)
theory Notification
  imports Store "HOL-Library.Multiset"
begin

text \<open>
  notification-service (\<open>src/unnamed/part_000\<close>): a BullMQ \<open>Worker\<close> on the queue
  \<open>order-events\<close> whose processor logs the job's name and data. The worker runs with
  BullMQ's defaults (one job at a time, \<open>maxStalledCount = 1\<close>), as the steps:
  \<^item> \<open>Fetch\<close>: an idle worker moves the next waiting job to active (\<open>moveToActive\<close>);
  \<^item> \<open>Process\<close>: the processor runs: \<open>console.log\<close> of \<open>job.name\<close> and \<open>job.data\<close>
    after the constant prefix \<open>[NOTIFICATION-SERVICE] Processing job\<close>;
  \<^item> \<open>Complete\<close>: the job moves to completed (\<open>moveToCompleted\<close>);
  \<^item> \<open>Stall\<close>: the worker lost its lock (crash, restart, blocked loop); the stalled-job
    check increments the job's stall counter and puts it back where the next fetch
    takes it, or, past \<open>maxStalledCount\<close>, fails it.
  A step that is not enabled is \<open>None\<close>.
\<close>

text \<open>Line 4: \<open>new Worker("order-events", async job => { ... }, { connection })\<close>\<close>

definition worker_queue :: string where
  "worker_queue = ''order-events''"

text \<open>Lines 5--9: the processor's \<open>console.log\<close>, as its argument list.\<close>

definition notify_log :: "job \<Rightarrow> json list" where
  "notify_log j = [JStr ''[NOTIFICATION-SERVICE] Processing job'', JStr (job_name j), job_data j]"

datatype wevent = Fetch | Process | Complete | Stall

definition upd_wq :: "(bull \<Rightarrow> bull) \<Rightarrow> world \<Rightarrow> world" where
  "upd_wq f w = w\<lparr>queues := (queues w)(worker_queue := f (queues w worker_queue))\<rparr>"

fun worker_step :: "wevent \<Rightarrow> world \<Rightarrow> world option" where
  "worker_step Fetch w =
     (let q = queues w worker_queue in
      if redis_up (rds w) \<and> active q = [] then
        (case waiting q of
           [] \<Rightarrow> None
         | j # js \<Rightarrow> Some (upd_wq (\<lambda>q. q\<lparr>waiting := js, active := [(j, False)]\<rparr>) w))
      else None)"
| "worker_step Process w =
     (case active (queues w worker_queue) of
        [(j, False)] \<Rightarrow> Some ((upd_wq (\<lambda>q. q\<lparr>active := [(j, True)]\<rparr>) w)\<lparr>console := console w @ [notify_log j]\<rparr>)
      | _ \<Rightarrow> None)"
| "worker_step Complete w =
     (if \<not> redis_up (rds w) then None
      else case active (queues w worker_queue) of
        [(j, True)] \<Rightarrow> Some (upd_wq (\<lambda>q. q\<lparr>completed := completed q @ [j], active := []\<rparr>) w)
      | _ \<Rightarrow> None)"
| "worker_step Stall w =
     (if \<not> redis_up (rds w) then None
      else case active (queues w worker_queue) of
        [(j, b)] \<Rightarrow>
          (let j' = j\<lparr>stalled_count := Suc (stalled_count j)\<rparr> in
           if 1 < stalled_count j' then Some (upd_wq (\<lambda>q. q\<lparr>failed := failed q @ [j'], active := []\<rparr>) w)
           else Some (upd_wq (\<lambda>q. q\<lparr>waiting := j' # waiting q, active := []\<rparr>) w))
      | _ \<Rightarrow> None)"

text \<open>Running a list of worker events; \<open>None\<close> when one of them is not enabled.\<close>

fun worker_run :: "wevent list \<Rightarrow> world \<Rightarrow> world option" where
  "worker_run [] w = Some w"
| "worker_run (e # es) w = Option.bind (worker_step e w) (worker_run es)"

text \<open>An uninterrupted worker: fetch, process and complete, \<open>n\<close> times.\<close>

fun drain :: "nat \<Rightarrow> world \<Rightarrow> world option" where
  "drain 0 w = Some w"
| "drain (Suc n) w = Option.bind (worker_run [Fetch, Process, Complete] w) (drain n)"

text \<open>Every job of a queue, in whichever list it is.\<close>

definition all_jobs :: "bull \<Rightarrow> job list" where
  "all_jobs q = completed q @ failed q @ map fst (active q) @ waiting q"

text \<open>
  The shape of a queue: every published job id is in exactly one of the lists, the
  active job and the waiting ones are in id order, at most one job is active.
\<close>

definition queue_ok :: "bull \<Rightarrow> bool" where
  "queue_ok q \<longleftrightarrow>
     mset (map job_id (all_jobs q)) = mset [1..<next_id q]
   \<and> sorted (map job_id (map fst (active q) @ waiting q))
   \<and> length (active q) \<le> 1 \<and> 1 \<le> next_id q"

text \<open>A worker queue holding one published order event, for the witnesses below.\<close>

abbreviation job1 :: job where
  "job1 \<equiv> \<lparr>job_id = 1, job_name = ''order.created'', job_data = JObj [(''orderId'', JStr ''o1'')], stalled_count = 0\<rparr>"

abbreviation w_one_job :: world where
  "w_one_job \<equiv> world_init\<lparr>queues := (\<lambda>_. bull_empty)(worker_queue := bull_empty\<lparr>next_id := 2, waiting := [job1]\<rparr>)\<rparr>"

subsection \<open>Queue shape and frame\<close>

lemma upd_wq_simps [simp]:
  "queues (upd_wq f w) worker_queue = f (queues w worker_queue)"
  "k \<noteq> worker_queue \<Longrightarrow> queues (upd_wq f w) k = queues w k"
  "rds (upd_wq f w) = rds w" "pg (upd_wq f w) = pg w" "console (upd_wq f w) = console w" "clock (upd_wq f w) = clock w"
  by (simp_all add: upd_wq_def)

lemma queue_ok_ids_below: "queue_ok q \<Longrightarrow> j \<in> set (all_jobs q) \<Longrightarrow> job_id j < next_id q"
proof -
  assume ok: "queue_ok q" and j: "j \<in> set (all_jobs q)"
  then have "job_id j \<in> set (map job_id (all_jobs q))" by simp
  also have "\<dots> = set [1..<next_id q]" using ok unfolding queue_ok_def by (metis set_mset_mset)
  finally show ?thesis by simp
qed

lemma queue_ok_add: "queue_ok q \<Longrightarrow> queue_ok (snd (bull_add n d q))"
proof -
  assume ok: "queue_ok q"
  have below: "\<forall>x\<in>set (map job_id (map fst (active q) @ waiting q)). x \<le> next_id q"
    using queue_ok_ids_below [OF ok] by (auto simp: all_jobs_def intro: less_imp_le)
  have "mset [1..<Suc (next_id q)] = mset [1..<next_id q] + {#next_id q#}"
    using ok by (simp add: queue_ok_def)
  then show ?thesis using ok below
    by (auto simp: queue_ok_def all_jobs_def bull_add_def Let_def sorted_append)
qed

lemma queue_ok_worker_step:
  "worker_step e w = Some w' \<Longrightarrow> queue_ok (queues w worker_queue) \<Longrightarrow> queue_ok (queues w' worker_queue)"
  by (cases e) (auto simp: queue_ok_def all_jobs_def Let_def split: if_splits list.splits prod.splits bool.splits)

lemma notify_log_eq_iff:
  "notify_log j = notify_log j0 \<longleftrightarrow> job_name j = job_name j0 \<and> job_data j = job_data j0"
  by (simp add: notify_log_def)

lemma worker_step_jobs:
  "worker_step e w = Some w' \<Longrightarrow>
     mset (map notify_log (all_jobs (queues w' worker_queue))) = mset (map notify_log (all_jobs (queues w worker_queue)))"
  by (cases e) (auto simp: all_jobs_def notify_log_def Let_def split: if_splits list.splits prod.splits bool.splits)

lemma worker_step_other_queue:
  "worker_step e w = Some w' \<Longrightarrow> k \<noteq> worker_queue \<Longrightarrow> queues w' k = queues w k"
  by (cases e) (auto simp: Let_def split: if_splits list.splits prod.splits bool.splits)

lemma worker_step_pg: "worker_step e w = Some w' \<Longrightarrow> pg w' = pg w \<and> rds w' = rds w"
  by (cases e) (auto simp: Let_def split: if_splits list.splits prod.splits bool.splits)

subsection \<open>Consumption\<close>

text \<open>
  An uninterrupted worker with Redis up drains the queue: one fetch-process-complete
  round per waiting job, the jobs completed in the order they were added, each logged
  once, in that order.
\<close>

lemma drain_waiting:
  assumes "redis_up (rds w)" and "active (queues w worker_queue) = []"
  shows "drain (length (waiting (queues w worker_queue))) w =
    Some ((upd_wq (\<lambda>q. q\<lparr>waiting := [], completed := completed q @ waiting q\<rparr>) w)
      \<lparr>console := console w @ map notify_log (waiting (queues w worker_queue))\<rparr>)"
  using assms
proof (induction "waiting (queues w worker_queue)" arbitrary: w)
  case Nil
  then show ?case by (simp add: upd_wq_def fun_upd_idem)
next
  case (Cons j js w)
  let ?w1 = "(upd_wq (\<lambda>q. q\<lparr>waiting := js, completed := completed q @ [j], active := []\<rparr>) w)\<lparr>console := console w @ [notify_log j]\<rparr>"
  have a: "(queues w worker_queue)\<lparr>active := []\<rparr> = queues w worker_queue"
    using Cons.prems(2) by (cases "queues w worker_queue") simp
  have run: "worker_run [Fetch, Process, Complete] w = Some ?w1"
    using Cons.prems Cons.hyps(2) [symmetric] by (simp add: Let_def upd_wq_def)
  have "drain (length js) ?w1 = Some ((upd_wq (\<lambda>q. q\<lparr>waiting := [], completed := completed q @ waiting q\<rparr>) ?w1)
      \<lparr>console := console ?w1 @ map notify_log js\<rparr>)"
    using Cons.hyps(1) [of ?w1] Cons.prems by simp
  then show ?case using run Cons.hyps(2) [symmetric] a by (simp add: upd_wq_def)
qed

text \<open>
  C15: delivery is at least once, not exactly once: a job whose lock is lost after the
  processor ran (first stall) goes back to the queue, is fetched and processed again and
  is logged twice before it completes.
\<close>

theorem stall_after_process_logs_twice:
  assumes "redis_up (rds w)" and "active (queues w worker_queue) = []"
    and "waiting (queues w worker_queue) = j # js" and "stalled_count j = 0"
  shows "\<exists>w'. worker_run [Fetch, Process, Stall, Fetch, Process, Complete] w = Some w'
    \<and> console w' = console w @ [notify_log j, notify_log j]
    \<and> completed (queues w' worker_queue) = completed (queues w worker_queue) @ [j\<lparr>stalled_count := 1\<rparr>]
    \<and> waiting (queues w' worker_queue) = js"
  using assms by (simp add: Let_def upd_wq_def notify_log_def)

theorem stall_after_process_logs_twice_witness:
  "\<exists>w'. worker_run [Fetch, Process, Stall, Fetch, Process, Complete] w_one_job = Some w'
    \<and> console w' = [notify_log job1, notify_log job1]
    \<and> completed (queues w' worker_queue) = [job1\<lparr>stalled_count := 1\<rparr>]
    \<and> waiting (queues w' worker_queue) = []"
  using stall_after_process_logs_twice [of w_one_job job1 "[]"]
  by (simp add: world_init_def redis_init_def bull_empty_def)

text \<open>
  C16: with BullMQ's default \<open>maxStalledCount = 1\<close> a job that stalls twice before its
  processor runs is moved to failed and never logged: the notification is lost.
\<close>

theorem stall_twice_loses_job:
  assumes "redis_up (rds w)" and "active (queues w worker_queue) = []"
    and "waiting (queues w worker_queue) = j # js" and "stalled_count j = 0"
  shows "\<exists>w'. worker_run [Fetch, Stall, Fetch, Stall] w = Some w'
    \<and> console w' = console w
    \<and> failed (queues w' worker_queue) = failed (queues w worker_queue) @ [j\<lparr>stalled_count := 2\<rparr>]
    \<and> completed (queues w' worker_queue) = completed (queues w worker_queue)
    \<and> waiting (queues w' worker_queue) = js"
  using assms by (simp add: Let_def upd_wq_def)

theorem stall_twice_loses_job_witness:
  "\<exists>w'. worker_run [Fetch, Stall, Fetch, Stall] w_one_job = Some w'
    \<and> console w' = []
    \<and> failed (queues w' worker_queue) = [job1\<lparr>stalled_count := 2\<rparr>]
    \<and> completed (queues w' worker_queue) = []
    \<and> waiting (queues w' worker_queue) = []"
  using stall_twice_loses_job [of w_one_job job1 "[]"]
  by (simp add: world_init_def redis_init_def bull_empty_def)

end
