(* ===== verification/Order_System.thy ===== *)
theory Order_System
  imports Restaurant Orders Notification
begin

text \<open>
  The order path across services: order-service requests suspended at their
  \<open>await\<close>s (\<open>Orders.ostep\<close>), the notification worker (\<open>Notification.worker_step\<close>),
  restaurant-service requests (any \<open>Restaurant.rstep\<close>), outages of Postgres and Redis
  and the passing of time, all interleaved on the one shared \<open>world\<close>. The invariant
  \<open>sys_inv\<close> relates the orders table, the queue \<open>order-events\<close> and the requests
  in flight; it holds in every reachable state.
\<close>

record osys =
  ow :: world
  oflight :: "oreq list"

definition sys_init :: osys where
  "sys_init = \<lparr>ow = world_init, oflight = []\<rparr>"

text \<open>
  A new request draws a fresh \<open>uuid()\<close>: one that is neither a row nor carried by a
  request in flight (UUID v4 collisions are not modelled).
\<close>

inductive sys_step :: "osys \<Rightarrow> osys \<Rightarrow> bool" where
  order_arrives: "oid \<notin> set (order_ids (ow s)) \<Longrightarrow> oid \<notin> set (concat (map pending_oid (oflight s))) \<Longrightarrow>
    sys_step s (s\<lparr>oflight := oflight s @ [OrdReq oid]\<rparr>)"
| order_runs: "i < length (oflight s) \<Longrightarrow> ostep (oflight s ! i) (ow s) = (r', w') \<Longrightarrow>
    sys_step s \<lparr>ow = w', oflight = (oflight s)[i := r']\<rparr>"
| worker: "worker_step e (ow s) = Some w' \<Longrightarrow> sys_step s (s\<lparr>ow := w'\<rparr>)"
| restaurant: "rstep r (ow s) = (r', w') \<Longrightarrow> sys_step s (s\<lparr>ow := w'\<rparr>)"
| pg_outage: "sys_step s (s\<lparr>ow := (ow s)\<lparr>pg := (pg (ow s))\<lparr>pg_up := b\<rparr>\<rparr>\<rparr>)"
| redis_outage: "sys_step s (s\<lparr>ow := (ow s)\<lparr>rds := (rds (ow s))\<lparr>redis_up := b\<rparr>\<rparr>\<rparr>)"
| tick: "sys_step s (s\<lparr>ow := (ow s)\<lparr>clock := clock (ow s) + d\<rparr>\<rparr>)"

inductive_cases sys_stepE: "sys_step s s'"

text \<open>No two requests in flight carry the same order id.\<close>

definition pending_disjoint :: "oreq list \<Rightarrow> bool" where
  "pending_disjoint fl \<longleftrightarrow>
     (\<forall>i<length fl. \<forall>k<length fl. i \<noteq> k \<longrightarrow> set (pending_oid (fl ! i)) \<inter> set (pending_oid (fl ! k)) = {})"

text \<open>
  Where a request in flight stands: before its INSERT its id is not a row, after it the
  id is a row; in both cases no job carries it yet. A request that answered
  \<open>{orderId, status: "PLACED"}\<close> has its row and its job.
\<close>

fun req_ok :: "uuid list \<Rightarrow> bull \<Rightarrow> oreq \<Rightarrow> bool" where
  "req_ok ids q (OrdReq oid) = (oid \<notin> set ids \<and> order_event oid \<notin> job_data ` set (all_jobs q))"
| "req_ok ids q (OrdCreated oid) = (oid \<notin> set ids \<and> order_event oid \<notin> job_data ` set (all_jobs q))"
| "req_ok ids q (OrdInserted oid) = (oid \<in> set ids \<and> order_event oid \<notin> job_data ` set (all_jobs q))"
| "req_ok ids q (OrdDone out) =
     (\<forall>oid. out = Respond 200 (order_answer oid) \<longrightarrow> oid \<in> set ids \<and> order_event oid \<in> job_data ` set (all_jobs q))"

text \<open>
  The invariant over the order ids of the table, the queue and the requests in flight:
  the queue is well formed, order ids are unique, every job is an \<open>order.created\<close> for
  an order whose row exists, no two jobs are for the same order, and each request in
  flight is consistent with where it stands.
\<close>

definition oinv :: "uuid list \<Rightarrow> bull \<Rightarrow> oreq list \<Rightarrow> bool" where
  "oinv ids q fl \<longleftrightarrow> queue_ok q \<and> distinct ids
     \<and> (\<forall>j\<in>set (all_jobs q). job_name j = ''order.created'' \<and> (\<exists>oid\<in>set ids. job_data j = order_event oid))
     \<and> distinct (map job_data (all_jobs q))
     \<and> pending_disjoint fl \<and> (\<forall>k<length fl. req_ok ids q (fl ! k))"

definition sys_inv :: "osys \<Rightarrow> bool" where
  "sys_inv s \<longleftrightarrow> oinv (order_ids (ow s)) (queues (ow s) order_queue) (oflight s)"

text \<open>The state after one order has been placed and run to its end, for the witnesses.\<close>

abbreviation s_placed :: osys where
  "s_placed \<equiv> \<lparr>ow = snd (orun 3 (OrdReq ''o1'') world_init), oflight = [fst (orun 3 (OrdReq ''o1'') world_init)]\<rparr>"

text \<open>
  The contract of the queue between the two services, an abstract FIFO channel: the
  lines logged so far and the messages still to deliver.
\<close>

definition fifo_view :: "world \<Rightarrow> json list list \<times> json list list" where
  "fifo_view w = (console w, map notify_log (waiting (queues w worker_queue)))"

definition fifo_enqueue :: "json list \<Rightarrow> json list list \<times> json list list \<Rightarrow> json list list \<times> json list list" where
  "fifo_enqueue m c = (fst c, snd c @ [m])"

definition fifo_deliver :: "json list list \<times> json list list \<Rightarrow> (json list list \<times> json list list) option" where
  "fifo_deliver c = (case snd c of [] \<Rightarrow> None | m # ms \<Rightarrow> Some (fst c @ [m], ms))"

subsection \<open>Frame and bookkeeping lemmas\<close>

lemma order_queue_worker_queue: "order_queue = worker_queue"
  by (simp add: order_queue_def worker_queue_def)

lemma rstep_frame: "rstep r w = (r', w') \<Longrightarrow> order_ids w' = order_ids w \<and> queues w' = queues w"
  by (cases r) (auto simp: order_ids_def get_cache_step_def get_select_step_def get_setex_step_def
      post_create_step_def post_insert_step_def pg_send_def redis_get_def redis_setex_def Let_def
      split: prod.splits sum.splits option.splits if_splits)

lemma pending_disjoint_snoc:
  "pending_disjoint fl \<Longrightarrow> oid \<notin> set (concat (map pending_oid fl)) \<Longrightarrow> pending_disjoint (fl @ [OrdReq oid])"
  unfolding pending_disjoint_def
  by (auto simp: nth_append less_Suc_eq)

lemma pending_disjoint_update:
  assumes dis: "pending_disjoint fl" and i: "i < length fl" and sub: "set (pending_oid r') \<subseteq> set (pending_oid (fl ! i))"
  shows "pending_disjoint (fl[i := r'])"
  unfolding pending_disjoint_def
proof (intro allI impI)
  fix a b assume a: "a < length (fl[i := r'])" and b: "b < length (fl[i := r'])" and ab: "a \<noteq> b"
  have le: "set (pending_oid (fl[i := r'] ! c)) \<subseteq> set (pending_oid (fl ! c))" for c
    using sub i by (cases "c = i") (simp_all add: nth_list_update)
  have "set (pending_oid (fl ! a)) \<inter> set (pending_oid (fl ! b)) = {}"
    using dis a b ab unfolding pending_disjoint_def by simp
  then show "set (pending_oid (fl[i := r'] ! a)) \<inter> set (pending_oid (fl[i := r'] ! b)) = {}"
    using le [of a] le [of b] by blast
qed

lemma pending_disjoint_other:
  "pending_disjoint fl \<Longrightarrow> i < length fl \<Longrightarrow> k < length fl \<Longrightarrow> k \<noteq> i \<Longrightarrow>
     oid \<in> set (pending_oid (fl ! i)) \<Longrightarrow> oid \<notin> set (pending_oid (fl ! k))"
  unfolding pending_disjoint_def by blast

subsection \<open>Preservation of the invariant\<close>

lemma all_jobs_add:
  "all_jobs (snd (bull_add n d q)) = all_jobs q @ [\<lparr>job_id = next_id q, job_name = n, job_data = d, stalled_count = 0\<rparr>]"
  by (simp add: all_jobs_def bull_add_def Let_def)

lemma job_event_ids:
  "oinv ids q fl \<Longrightarrow> oid \<notin> set ids \<Longrightarrow> order_event oid \<notin> job_data ` set (all_jobs q)"
  unfolding oinv_def by fastforce

lemma req_ok_grow: "req_ok ids q r \<Longrightarrow> oid \<notin> set (pending_oid r) \<Longrightarrow> req_ok (ids @ [oid]) q r"
  by (cases r) auto

lemma req_ok_add:
  "req_ok ids q r \<Longrightarrow> oid \<notin> set (pending_oid r) \<Longrightarrow> req_ok ids (snd (bull_add n (order_event oid) q)) r"
  by (cases r) (auto simp: all_jobs_add)

lemma req_ok_cong:
  "job_data ` set (all_jobs q') = job_data ` set (all_jobs q) \<Longrightarrow> req_ok ids q' r = req_ok ids q r"
  by (cases r) simp_all

lemma req_ok_rejected [simp]: "req_ok ids q (OrdDone (Rejected e))"
  by simp

lemma oinv_arrive:
  assumes inv: "oinv ids q fl" and fresh: "oid \<notin> set ids" "oid \<notin> set (concat (map pending_oid fl))"
  shows "oinv ids q (fl @ [OrdReq oid])"
proof -
  have "req_ok ids q (OrdReq oid)" using job_event_ids [OF inv fresh(1)] fresh by simp
  then show ?thesis using inv fresh pending_disjoint_snoc
    unfolding oinv_def by (auto simp: nth_append less_Suc_eq)
qed

lemma oinv_update:
  assumes inv: "oinv ids q fl" and i: "i < length fl" and ok: "req_ok ids q r'"
    and sub: "set (pending_oid r') \<subseteq> set (pending_oid (fl ! i))"
  shows "oinv ids q (fl[i := r'])"
  using inv ok i pending_disjoint_update [OF _ i sub] unfolding oinv_def by (auto simp: nth_list_update)

lemma oinv_insert:
  assumes inv: "oinv ids q fl" and i: "i < length fl" and r: "fl ! i = OrdCreated oid"
  shows "oinv (ids @ [oid]) q (fl[i := OrdInserted oid])"
proof -
  have dis: "pending_disjoint fl" and reqs: "\<forall>k<length fl. req_ok ids q (fl ! k)"
    using inv by (simp_all add: oinv_def)
  have new: "oid \<notin> set ids \<and> order_event oid \<notin> job_data ` set (all_jobs q)"
    using reqs i r by fastforce
  have others: "req_ok (ids @ [oid]) q (fl[i := OrdInserted oid] ! k)" if "k < length fl" for k
  proof (cases "k = i")
    case True then show ?thesis using new i by simp
  next
    case False
    then have "oid \<notin> set (pending_oid (fl ! k))"
      using pending_disjoint_other [OF dis i that] r by simp
    then show ?thesis using False reqs that req_ok_grow by simp
  qed
  show ?thesis using inv new others pending_disjoint_update [OF dis i, of "OrdInserted oid"] r
    unfolding oinv_def by auto
qed

lemma oinv_publish:
  assumes inv: "oinv ids q fl" and i: "i < length fl" and r: "fl ! i = OrdInserted oid"
  shows "oinv ids (snd (bull_add ''order.created'' (order_event oid) q)) (fl[i := OrdDone (Respond 200 (order_answer oid))])"
proof -
  have dis: "pending_disjoint fl" and reqs: "\<forall>k<length fl. req_ok ids q (fl ! k)"
    using inv by (simp_all add: oinv_def)
  have new: "oid \<in> set ids \<and> order_event oid \<notin> job_data ` set (all_jobs q)"
    using reqs i r by fastforce
  have others: "req_ok ids (snd (bull_add ''order.created'' (order_event oid) q))
      (fl[i := OrdDone (Respond 200 (order_answer oid))] ! k)" if "k < length fl" for k
  proof (cases "k = i")
    case True then show ?thesis using i new by (simp add: all_jobs_add)
  next
    case False
    then have "oid \<notin> set (pending_oid (fl ! k))"
      using pending_disjoint_other [OF dis i that] r by simp
    then show ?thesis using False reqs that req_ok_add by simp
  qed
  show ?thesis
    using inv new others pending_disjoint_update [OF dis i, of "OrdDone (Respond 200 (order_answer oid))"] queue_ok_add
    unfolding oinv_def by (auto simp: all_jobs_add)
qed

lemma oinv_worker:
  assumes inv: "oinv ids q fl" and ok: "queue_ok q'"
    and jobs: "mset (map notify_log (all_jobs q')) = mset (map notify_log (all_jobs q))"
  shows "oinv ids q' fl"
proof -
  have nl: "set (map notify_log (all_jobs q')) = set (map notify_log (all_jobs q))"
    using jobs by (metis set_mset_mset)
  have dm: "mset (map job_data xs) = image_mset (\<lambda>l. l ! 2) (mset (map notify_log xs))" for xs
    by (induction xs) (simp_all add: notify_log_def)
  have dset: "job_data ` set (all_jobs q') = job_data ` set (all_jobs q)"
    using arg_cong [OF nl, of "image (\<lambda>l. l ! 2)"] by (simp add: image_image notify_log_def)
  have dmset: "mset (map job_data (all_jobs q')) = mset (map job_data (all_jobs q))"
    by (simp only: dm jobs)
  have names: "\<forall>j\<in>set (all_jobs q'). \<exists>j0\<in>set (all_jobs q). job_name j = job_name j0 \<and> job_data j = job_data j0"
  proof
    fix j assume j: "j \<in> set (all_jobs q')"
    have "notify_log j \<in> set (map notify_log (all_jobs q))"
      unfolding nl [symmetric] using j by simp
    then obtain j0 where "j0 \<in> set (all_jobs q)" "notify_log j = notify_log j0" by auto
    then show "\<exists>j0\<in>set (all_jobs q). job_name j = job_name j0 \<and> job_data j = job_data j0"
      using notify_log_eq_iff by blast
  qed
  show ?thesis using inv ok names req_ok_cong [OF dset] mset_eq_imp_distinct_iff [OF dmset]
    unfolding oinv_def by metis
qed

lemma ostep_oinv:
  assumes inv: "oinv (order_ids w) (queues w order_queue) fl" and i: "i < length fl"
    and st: "ostep (fl ! i) w = (r', w')"
  shows "oinv (order_ids w') (queues w' order_queue) (fl[i := r'])"
proof -
  have reqs: "\<forall>k<length fl. req_ok (order_ids w) (queues w order_queue) (fl ! k)"
    using inv by (simp add: oinv_def)
  have fin: "oinv (order_ids w) (queues w order_queue) (fl[i := OrdDone (Rejected e)])" for e
    using oinv_update [OF inv i] by simp
  show ?thesis
  proof (cases "fl ! i")
    case (OrdReq oid)
    with st ostep_req have fr: "order_ids w' = order_ids w \<and> queues w' = queues w"
      and r': "r' = OrdCreated oid \<or> (\<exists>e. r' = OrdDone (Rejected e))" by metis+
    have "req_ok (order_ids w) (queues w order_queue) (OrdReq oid)"
      using reqs i OrdReq by metis
    then have "oinv (order_ids w) (queues w order_queue) (fl[i := OrdCreated oid])"
      using oinv_update [OF inv i, of "OrdCreated oid"] OrdReq by simp
    then show ?thesis using fr r' fin by auto
  next
    case (OrdCreated oid)
    with st ostep_created have fr: "queues w' = queues w"
      and r': "(r' = OrdInserted oid \<and> order_ids w' = order_ids w @ [oid])
              \<or> ((\<exists>e. r' = OrdDone (Rejected e)) \<and> order_ids w' = order_ids w)" by metis+
    then show ?thesis using oinv_insert [OF inv i OrdCreated] fin by auto
  next
    case (OrdInserted oid)
    with st ostep_inserted have fr: "order_ids w' = order_ids w"
      and r': "(\<exists>e. r' = OrdDone (Rejected e) \<and> queues w' = queues w)
        \<or> (r' = OrdDone (Respond 200 (order_answer oid)) \<and> queues w' = (queues w)(order_queue :=
                snd (bull_add ''order.created'' (order_event oid) (queues w order_queue))))" by metis+
    then show ?thesis using oinv_publish [OF inv i OrdInserted] fin by auto
  next
    case (OrdDone out)
    then have "r' = fl ! i" "w' = w" using st by auto
    then show ?thesis using inv by simp
  qed
qed

lemma sys_inv_init: "sys_inv sys_init"
  by (simp add: sys_inv_def oinv_def sys_init_def world_init_def pg_init_def order_ids_def
      bull_empty_def queue_ok_def all_jobs_def pending_disjoint_def)

lemma sys_inv_step: "sys_step s s' \<Longrightarrow> sys_inv s \<Longrightarrow> sys_inv s'"
proof (induction rule: sys_step.induct)
  case (order_arrives oid s)
  then show ?case using oinv_arrive by (simp add: sys_inv_def)
next
  case (order_runs i s r' w')
  then show ?case using ostep_oinv by (simp add: sys_inv_def)
next
  case (worker e s w')
  have ids: "order_ids w' = order_ids (ow s)"
    using worker_step_pg [OF worker.hyps] by (simp add: order_ids_def)
  have inv: "oinv (order_ids (ow s)) (queues (ow s) worker_queue) (oflight s)"
    using worker.prems by (simp add: sys_inv_def order_queue_worker_queue)
  have ok: "queue_ok (queues w' worker_queue)"
    using queue_ok_worker_step [OF worker.hyps] inv by (simp add: oinv_def)
  have "oinv (order_ids (ow s)) (queues w' worker_queue) (oflight s)"
    by (rule oinv_worker [OF inv ok worker_step_jobs [OF worker.hyps]])
  then show ?case using ids by (simp add: sys_inv_def order_queue_worker_queue)
next
  case (restaurant r s r' w')
  then show ?case using rstep_frame by (simp add: sys_inv_def)
qed (simp_all add: sys_inv_def order_ids_def)

lemma sys_reach_inv: "sys_step\<^sup>*\<^sup>* sys_init s \<Longrightarrow> sys_inv s"
  by (induction rule: rtranclp_induct) (auto intro: sys_inv_init sys_inv_step)

lemma sys_runs_reach:
  "i < length (oflight s) \<Longrightarrow> orun n (oflight s ! i) (ow s) = (r', w') \<Longrightarrow>
     sys_step\<^sup>*\<^sup>* s \<lparr>ow = w', oflight = (oflight s)[i := r']\<rparr>"
proof (induction n arbitrary: s)
  case 0
  then show ?case by (cases s) auto
next
  case (Suc n)
  obtain r1 w1 where st: "ostep (oflight s ! i) (ow s) = (r1, w1)"
    by (cases "ostep (oflight s ! i) (ow s)") simp
  let ?s1 = "\<lparr>ow = w1, oflight = (oflight s)[i := r1]\<rparr>"
  have one: "sys_step s ?s1" using sys_step.order_runs [OF Suc.prems(1)] st by simp
  have "sys_step\<^sup>*\<^sup>* ?s1 \<lparr>ow = w', oflight = ((oflight s)[i := r1])[i := r']\<rparr>"
    using Suc.IH [of ?s1] Suc.prems st by simp
  then show ?case using one by simp
qed

lemma s_placed_reach: "sys_step\<^sup>*\<^sup>* sys_init s_placed"
proof -
  have a: "sys_step sys_init \<lparr>ow = world_init, oflight = [OrdReq ''o1'']\<rparr>"
    using sys_step.order_arrives [of "''o1''" sys_init]
    by (simp add: sys_init_def order_ids_def world_init_def pg_init_def)
  have "sys_step\<^sup>*\<^sup>* \<lparr>ow = world_init, oflight = [OrdReq ''o1'']\<rparr> s_placed"
    using sys_runs_reach [of 0 "\<lparr>ow = world_init, oflight = [OrdReq ''o1'']\<rparr>" 3]
    by (simp split: prod.split)
  then show ?thesis using a by simp
qed

subsection \<open>End to end and in every reachable state\<close>

text \<open>
  C14: with Postgres and Redis up and the worker idle, an order placed by
  \<open>POST /orders\<close> is logged by the notification worker once it has drained the queue:
  after every job that was waiting before it, as the last line, with the order's id;
  and its row is in the table.
\<close>

theorem order_notified_after_drain:
  assumes up: "pg_up (pg w)" "redis_up (rds w)" and idle: "active (queues w worker_queue) = []"
  shows "\<exists>w2. drain (Suc (length (waiting (queues w worker_queue)))) (snd (post_orders oid w)) = Some w2
    \<and> console w2 = console w @ map notify_log (waiting (queues w worker_queue)) @ [[JStr ''[NOTIFICATION-SERVICE] Processing job'', JStr ''order.created'', order_event oid]]
    \<and> oid \<in> set (order_ids w2)"
proof -
  obtain rs where rs: "create_if_absent (orders (pg w)) = Some rs"
    using create_if_absent_Some by blast
  let ?w1 = "snd (post_orders oid w)"
  have q1: "queues ?w1 worker_queue = snd (bull_add ''order.created'' (order_event oid) (queues w worker_queue))"
    and r1: "redis_up (rds ?w1)" and c1: "console ?w1 = console w"
    and o1: "oid \<in> set (order_ids ?w1)"
    using up rs by (simp_all add: post_orders_def handler_simps order_ids_def order_queue_worker_queue)
  have w1: "waiting (queues ?w1 worker_queue) = waiting (queues w worker_queue) @
      [\<lparr>job_id = next_id (queues w worker_queue), job_name = ''order.created'', job_data = order_event oid, stalled_count = 0\<rparr>]"
    and a1: "active (queues ?w1 worker_queue) = []"
    using q1 idle by (simp_all add: bull_add_def Let_def)
  show ?thesis
    using drain_waiting [OF r1 a1] w1 c1 o1 by (simp add: notify_log_def order_ids_def)
qed

theorem order_notified_after_drain_witness:
  "\<exists>w2. drain 1 (snd (post_orders ''o1'' world_init)) = Some w2
    \<and> console w2 = [[JStr ''[NOTIFICATION-SERVICE] Processing job'', JStr ''order.created'', order_event ''o1'']] \<and> ''o1'' \<in> set (order_ids w2)"
  using order_notified_after_drain [of world_init "''o1''"]
  by (simp add: world_init_def pg_init_def redis_init_def bull_empty_def)

text \<open>
  C17: in every state of the interleaved system, every job on \<open>order-events\<close> (waiting,
  active, completed or failed) is an \<open>order.created\<close> whose order id is a row of the
  orders table: the row is written before the event, whatever interleaves.
\<close>

theorem reachable_jobs_have_orders:
  assumes "sys_step\<^sup>*\<^sup>* sys_init s" and "j \<in> set (all_jobs (queues (ow s) worker_queue))"
  shows "job_name j = ''order.created'' \<and> (\<exists>oid. job_data j = order_event oid \<and> oid \<in> set (order_ids (ow s)))"
  using sys_reach_inv [OF assms(1)] assms(2)
  unfolding sys_inv_def oinv_def order_queue_worker_queue by blast

theorem reachable_jobs_have_orders_witness:
  "job_name \<lparr>job_id = 1, job_name = ''order.created'', job_data = order_event ''o1'', stalled_count = 0\<rparr> = ''order.created''
   \<and> (\<exists>oid. order_event ''o1'' = order_event oid \<and> oid \<in> set (order_ids (ow s_placed)))"
  using reachable_jobs_have_orders [OF s_placed_reach,
      of "\<lparr>job_id = 1, job_name = ''order.created'', job_data = order_event ''o1'', stalled_count = 0\<rparr>"]
  by (simp add: numeral_3_eq_3 world_init_def pg_init_def redis_init_def bull_empty_def order_create_step_def
      order_insert_step_def order_publish_step_def pg_send_def insert_row_def create_if_absent_def
      order_ids_def order_queue_worker_queue all_jobs_def bull_add_def Let_def)

text \<open>
  C18: in every state of the interleaved system order ids are unique in the table and no
  two jobs on the queue are for the same order: each order is published at most once.
\<close>

theorem reachable_one_job_per_order:
  "sys_step\<^sup>*\<^sup>* sys_init s \<Longrightarrow>
     distinct (order_ids (ow s)) \<and> distinct (map job_data (all_jobs (queues (ow s) worker_queue)))"
  using sys_reach_inv unfolding sys_inv_def oinv_def order_queue_worker_queue by blast

theorem reachable_one_job_per_order_witness:
  "distinct (order_ids (ow s_placed)) \<and> distinct (map job_data (all_jobs (queues (ow s_placed) worker_queue)))"
  using reachable_one_job_per_order [OF s_placed_reach] by simp

text \<open>
  C19: an acknowledged order is durable: in every reachable state, if a
  \<open>POST /orders\<close> request has answered \<open>{orderId: id, status: "PLACED"}\<close>, the
  orders table holds \<open>id\<close> and the queue \<open>order-events\<close> holds its
  \<open>order.created\<close> job (waiting, active, completed or failed). The handler answers
  only after \<open>orderQueue.add\<close> resolved; an answer despite a failed add would break it.
\<close>

theorem acknowledged_orders_durable:
  assumes "sys_step\<^sup>*\<^sup>* sys_init s" and "OrdDone (Respond 200 (order_answer oid)) \<in> set (oflight s)"
  shows "oid \<in> set (order_ids (ow s))
    \<and> (\<exists>j\<in>set (all_jobs (queues (ow s) order_queue)). job_name j = ''order.created'' \<and> job_data j = order_event oid)"
proof -
  have inv: "oinv (order_ids (ow s)) (queues (ow s) order_queue) (oflight s)"
    using sys_reach_inv [OF assms(1)] by (simp add: sys_inv_def)
  obtain k where k: "k < length (oflight s)" "oflight s ! k = OrdDone (Respond 200 (order_answer oid))"
    using assms(2) by (auto simp: in_set_conv_nth)
  then have "req_ok (order_ids (ow s)) (queues (ow s) order_queue) (OrdDone (Respond 200 (order_answer oid)))"
    using inv by (metis oinv_def)
  then have row: "oid \<in> set (order_ids (ow s))"
    and job: "order_event oid \<in> job_data ` set (all_jobs (queues (ow s) order_queue))" by simp_all
  from job obtain j where j: "j \<in> set (all_jobs (queues (ow s) order_queue))" "job_data j = order_event oid"
    by (metis (no_types, lifting) imageE)
  moreover have "job_name j = ''order.created''" using inv j(1) by (simp add: oinv_def)
  ultimately show ?thesis using row by blast
qed

theorem acknowledged_orders_durable_witness:
  "''o1'' \<in> set (order_ids (ow s_placed))
    \<and> (\<exists>j\<in>set (all_jobs (queues (ow s_placed) order_queue)). job_name j = ''order.created'' \<and> job_data j = order_event ''o1'')"
proof -
  have "OrdDone (Respond 200 (order_answer ''o1'')) \<in> set (oflight s_placed)"
    by (simp add: numeral_3_eq_3 world_init_def pg_init_def redis_init_def order_create_step_def
        order_insert_step_def order_publish_step_def pg_send_def insert_row_def create_if_absent_def bull_add_def Let_def)
  then show ?thesis using acknowledged_orders_durable [OF s_placed_reach] by blast
qed

text \<open>
  C38: the order queue with its worker refines a FIFO channel: publishing an order
  appends its notification to the pending messages, and one uninterrupted worker round
  delivers (logs) exactly the oldest pending one, or is not enabled when none is
  pending.
\<close>

theorem queue_refines_fifo:
  assumes "redis_up (rds w)" and "active (queues w worker_queue) = []"
  shows "fifo_view (snd (order_publish_step oid w)) =
           fifo_enqueue [JStr ''[NOTIFICATION-SERVICE] Processing job'', JStr ''order.created'', order_event oid] (fifo_view w)
    \<and> map_option fifo_view (worker_run [Fetch, Process, Complete] w) = fifo_deliver (fifo_view w)"
proof
  show "fifo_view (snd (order_publish_step oid w)) =
          fifo_enqueue [JStr ''[NOTIFICATION-SERVICE] Processing job'', JStr ''order.created'', order_event oid] (fifo_view w)"
    using assms(1) by (simp add: order_publish_step_ok fifo_view_def fifo_enqueue_def order_queue_worker_queue
        bull_add_def Let_def notify_log_def)
  show "map_option fifo_view (worker_run [Fetch, Process, Complete] w) = fifo_deliver (fifo_view w)"
    using assms by (cases "waiting (queues w worker_queue)") (simp_all add: Let_def upd_wq_def fifo_view_def fifo_deliver_def)
qed

theorem queue_refines_fifo_witness:
  "map_option fifo_view (worker_run [Fetch, Process, Complete] (snd (order_publish_step ''o1'' world_init)))
     = Some ([[JStr ''[NOTIFICATION-SERVICE] Processing job'', JStr ''order.created'', order_event ''o1'']], [])"
  using queue_refines_fifo [of "snd (order_publish_step ''o1'' world_init)" "''o2''"]
  by (simp add: world_init_def redis_init_def bull_empty_def order_publish_step_def bull_add_def Let_def
      order_queue_worker_queue fifo_view_def fifo_enqueue_def fifo_deliver_def notify_log_def)

end
