(* ===== verification/Auth.thy ===== *)
theory Auth
  imports Store
begin

text \<open>
  auth-service (\<open>src/unnamed/part_001\<close>): the start-up loop \<open>initDB\<close>, which tries to
  create the users table until Postgres answers or the retries run out, and the
  handlers \<open>POST /auth/register\<close> and \<open>POST /auth/login\<close>.
  \<^item> Postgres availability over time is the environment \<open>avail\<close>: an attempt at
    time \<open>t\<close> reaches the server iff \<open>avail t\<close>.
  \<^item> bcryptjs and jsonwebtoken are libraries: the handlers take \<open>hf\<close> (\<open>bcrypt.hash\<close>
    with the salt this call draws), \<open>cmp\<close> (\<open>bcrypt.compareSync\<close>) and \<open>sign\<close>
    (\<open>jwt.sign\<close> with HS256) as parameters, and the lemmas assume only their contract.
  \<^item> \<open>console\<close> receives each \<open>console.log\<close>/\<open>console.error\<close> call's arguments.
\<close>

subsection \<open>initDB (lines 27--58)\<close>

text \<open>Lines 32--39, whitespace of the template literal normalised.\<close>

definition users_ddl :: string where
  "users_ddl = ''CREATE TABLE IF NOT EXISTS users (id UUID PRIMARY KEY, email TEXT UNIQUE NOT NULL, password TEXT NOT NULL, role TEXT NOT NULL)''"

text \<open>\<open>err.code\<close> of a node-postgres error: the socket error of a refused connection, or the SQLSTATE.\<close>

definition pg_err_code :: "js_error \<Rightarrow> json" where
  "pg_err_code e = (case e of
      PgUnavailable \<Rightarrow> JStr ''ECONNREFUSED''
    | RelationMissing _ \<Rightarrow> JStr ''42P01''
    | UniqueViolation _ \<Rightarrow> JStr ''23505''
    | NotNullViolation _ \<Rightarrow> JStr ''23502''
    | _ \<Rightarrow> JNull)"

definition try_line :: "json list" where
  "try_line = [JStr ''[AUTH-SERVICE] Trying to connect to DB...'']"

definition ready_line :: "json list" where
  "ready_line = [JStr ''[AUTH-SERVICE] DB ready'']"

definition not_ready_line :: "int \<Rightarrow> js_error \<Rightarrow> json list" where
  "not_ready_line r e = [JStr (''[AUTH-SERVICE] DB not ready, retries left: '' @ int_str r), pg_err_code e]"

definition failed_line :: "json list" where
  "failed_line = [JStr ''[AUTH-SERVICE] DB connection failed permanently'']"

text \<open>
  How \<open>initDB\<close> ends: it returns after the table was created, it returns without
  trying (\<open>while (retries)\<close> with \<open>retries = 0\<close>), or the process exits.
\<close>

datatype init_result = InitReady | InitNoAttempt | InitExit int

text \<open>
  The loop, one iteration per call. \<open>retries\<close> is a JavaScript number used as an
  integer; \<open>while (retries)\<close> tests it against 0, so a negative count never stops
  the loop: \<open>None\<close> is a loop that does not end.
\<close>

partial_function (option) init_loop ::
  "(time_ms \<Rightarrow> bool) \<Rightarrow> int \<Rightarrow> nat \<Rightarrow> world \<Rightarrow> (init_result \<times> world) option" where
  "init_loop avail retries delay w =
     (if retries = 0 then Some (InitNoAttempt, w)
      else
        (let w0 = w\<lparr>pg := (pg w)\<lparr>pg_up := avail (clock w)\<rparr>, console := console w @ [try_line]\<rparr> in
         case pg_send users_ddl (pg w0) of
           Inr p \<Rightarrow> Some (InitReady, w0\<lparr>pg := p\<lparr>users := create_if_absent (users p)\<rparr>, console := console w0 @ [ready_line]\<rparr>)
         | Inl e \<Rightarrow>
             (let r = retries - 1; w1 = w0\<lparr>console := console w0 @ [not_ready_line r e]\<rparr> in
              if r = 0 then Some (InitExit 1, w1\<lparr>console := console w1 @ [failed_line]\<rparr>)
              else init_loop avail r delay (w1\<lparr>clock := clock w1 + delay\<rparr>))))"

declare init_loop.simps [code]

text \<open>Line 59: \<open>initDB()\<close> with its defaults \<open>retries = 10, delay = 3000\<close>.\<close>

definition init_db :: "(time_ms \<Rightarrow> bool) \<Rightarrow> world \<Rightarrow> (init_result \<times> world) option" where
  "init_db avail w = init_loop avail 10 3000 w"

subsection \<open>POST /auth/register (lines 65--76)\<close>

text \<open>JavaScript truthiness of a property value (\<open>None\<close> is \<open>undefined\<close>).\<close>

definition js_truthy :: "json option \<Rightarrow> bool" where
  "js_truthy v = (case v of
      None \<Rightarrow> False
    | Some JNull \<Rightarrow> False
    | Some (JBool b) \<Rightarrow> b
    | Some (JNum n) \<Rightarrow> n \<noteq> 0
    | Some (JStr s) \<Rightarrow> s \<noteq> []
    | Some _ \<Rightarrow> True)"

text \<open>Line 72: \<open>role || "USER"\<close>.\<close>

definition role_value :: "json option \<Rightarrow> json" where
  "role_value r = (case r of Some v \<Rightarrow> if js_truthy r then v else JStr ''USER'' | None \<Rightarrow> JStr ''USER'')"

text \<open>
  Lines 66--67: \<open>const { email, password, role } = req.body; const hash = await
  bcrypt.hash(password, 8);\<close>. Destructuring \<open>undefined\<close> or \<open>null\<close> throws; bcryptjs
  rejects a password that is not a string.
\<close>

definition register_hash_step ::
  "(string \<Rightarrow> string) \<Rightarrow> json option \<Rightarrow> js_error + (json option \<times> string \<times> json option)" where
  "register_hash_step hf b =
     (case js_prop b ''email'' of Inl e \<Rightarrow> Inl e | Inr email \<Rightarrow>
      (case js_prop b ''password'' of Inl e \<Rightarrow> Inl e | Inr password \<Rightarrow>
      (case js_prop b ''role'' of Inl e \<Rightarrow> Inl e | Inr role \<Rightarrow>
      (case password of Some (JStr pw) \<Rightarrow> Inr (email, hf pw, role) | _ \<Rightarrow> Inl BcryptError))))"

text \<open>
  The users table's constraints on an INSERT: the table must exist, \<open>NOT NULL\<close>
  columns, then the primary key and the \<open>UNIQUE\<close> email.
\<close>

definition insert_user ::
  "uuid \<Rightarrow> string option \<Rightarrow> string \<Rightarrow> string option \<Rightarrow> user_row list option \<Rightarrow> js_error + user_row list option" where
  "insert_user uid email hash role t =
     (case t of None \<Rightarrow> Inl (RelationMissing ''users'') | Some rs \<Rightarrow>
      (case (email, role) of
         (None, _) \<Rightarrow> Inl (NotNullViolation ''email'')
       | (_, None) \<Rightarrow> Inl (NotNullViolation ''role'')
       | (Some e, Some r) \<Rightarrow>
           if uid \<in> set (map u_id rs) then Inl (UniqueViolation ''users_pkey'')
           else if e \<in> set (map u_email rs) then Inl (UniqueViolation ''users_email_key'')
           else Inr (Some (rs @ [\<lparr>u_id = uid, u_email = e, u_password = hash, u_role = r\<rparr>]))))"

text \<open>
  Lines 70--75: \<open>await db.query("INSERT INTO users VALUES($1,$2,$3,$4)", [uuid(), email,
  hash, role || "USER"]); res.json({ message: "User registered" });\<close>
\<close>

definition register_insert_step ::
  "uuid \<Rightarrow> json option \<Rightarrow> string \<Rightarrow> json option \<Rightarrow> world \<Rightarrow> outcome \<times> world" where
  "register_insert_step uid email hash role w =
     (case pg_send ''INSERT INTO users VALUES($1,$2,$3,$4)'' (pg w) of
        Inl e \<Rightarrow> (Rejected e, w)
      | Inr p \<Rightarrow>
          (case insert_user uid (pg_param email) hash (pg_param (Some (role_value role))) (users p) of
             Inl e \<Rightarrow> (Rejected e, w\<lparr>pg := p\<rparr>)
           | Inr t \<Rightarrow> (Respond 200 (JObj [(''message'', JStr ''User registered'')]), w\<lparr>pg := p\<lparr>users := t\<rparr>\<rparr>)))"

definition register :: "(string \<Rightarrow> string) \<Rightarrow> uuid \<Rightarrow> json option \<Rightarrow> world \<Rightarrow> outcome \<times> world" where
  "register hf uid b w =
     (case register_hash_step hf b of
        Inl e \<Rightarrow> (Rejected e, w)
      | Inr (email, hash, role) \<Rightarrow> register_insert_step uid email hash role w)"

subsection \<open>POST /auth/login (lines 78--88)\<close>

text \<open>
  Line 86: the token payload. jsonwebtoken adds \<open>iat\<close>, the current time in whole
  seconds, after the given claims.
\<close>

definition jwt_payload :: "user_row \<Rightarrow> time_ms \<Rightarrow> json" where
  "jwt_payload u now = JObj [(''id'', JStr (u_id u)), (''role'', JStr (u_role u)), (''iat'', JNum (int (now div 1000)))]"

text \<open>
  Lines 81--87, after the query: no row is 401; \<open>compareSync\<close> throws on a password
  that is not a string and a mismatch is 401; \<open>jwt.sign\<close> throws when the secret
  \<open>process.env.JWT_SECRET\<close> is unset or empty.
\<close>

definition login_check ::
  "(string \<Rightarrow> string \<Rightarrow> bool) \<Rightarrow> (json \<Rightarrow> string \<Rightarrow> string) \<Rightarrow> string option \<Rightarrow> time_ms \<Rightarrow>
   json option \<Rightarrow> user_row list \<Rightarrow> outcome" where
  "login_check cmp sign secret now password rows =
     (case rows of
        [] \<Rightarrow> SendStatus 401
      | user # _ \<Rightarrow>
          (case password of
             Some (JStr pw) \<Rightarrow>
               if \<not> cmp pw (u_password user) then SendStatus 401
               else (case secret of
                       Some s \<Rightarrow> if s = [] then Rejected (JwtError ''secretOrPrivateKey must have a value'')
                                else Respond 200 (JObj [(''token'', JStr (sign (jwt_payload user now) s))])
                     | None \<Rightarrow> Rejected (JwtError ''secretOrPrivateKey must have a value''))
           | _ \<Rightarrow> Rejected BcryptError))"

text \<open>
  Lines 79--80: \<open>const { email, password } = req.body; const result = await
  db.query("SELECT * FROM users WHERE email=$1", [email]);\<close>. A \<open>NULL\<close> parameter
  matches no row.
\<close>

definition login ::
  "(string \<Rightarrow> string \<Rightarrow> bool) \<Rightarrow> (json \<Rightarrow> string \<Rightarrow> string) \<Rightarrow> string option \<Rightarrow>
   json option \<Rightarrow> world \<Rightarrow> outcome \<times> world" where
  "login cmp sign secret b w =
     (case js_prop b ''email'' of Inl e \<Rightarrow> (Rejected e, w) | Inr email \<Rightarrow>
      (case js_prop b ''password'' of Inl e \<Rightarrow> (Rejected e, w) | Inr password \<Rightarrow>
      (case pg_send ''SELECT * FROM users WHERE email=$1'' (pg w) of
         Inl e \<Rightarrow> (Rejected e, w)
       | Inr p \<Rightarrow>
           (case select_all ''users'' (users p) of
              Inl e \<Rightarrow> (Rejected e, w\<lparr>pg := p\<rparr>)
            | Inr rs \<Rightarrow>
                (login_check cmp sign secret (clock w) password
                   (filter (\<lambda>u. pg_param email = Some (u_email u)) rs), w\<lparr>pg := p\<rparr>)))))"

subsection \<open>Examples\<close>

text \<open>
  Stand-ins for the libraries in the witnesses: a "hash" that prefixes the password,
  the matching comparison, a signature that is the payload text; and two databases.
\<close>

abbreviation demo_hash :: "string \<Rightarrow> string" where
  "demo_hash \<equiv> \<lambda>p. ''$2a$08$'' @ p"

abbreviation demo_cmp :: "string \<Rightarrow> string \<Rightarrow> bool" where
  "demo_cmp \<equiv> \<lambda>p h. h = ''$2a$08$'' @ p"

abbreviation demo_sign :: "json \<Rightarrow> string \<Rightarrow> string" where
  "demo_sign \<equiv> \<lambda>j s. json_stringify j"

abbreviation w_users :: world where
  "w_users \<equiv> world_init\<lparr>pg := pg_init\<lparr>users := Some []\<rparr>\<rparr>"

abbreviation alice :: user_row where
  "alice \<equiv> \<lparr>u_id = ''u1'', u_email = ''a@x'', u_password = ''$2a$08$pw'', u_role = ''USER''\<rparr>"

abbreviation w_alice :: world where
  "w_alice \<equiv> world_init\<lparr>pg := pg_init\<lparr>users := Some [alice], sql_log := [''INSERT INTO users VALUES($1,$2,$3,$4)'']\<rparr>\<rparr>"

subsection \<open>initDB: step equations\<close>

lemma init_loop_zero: "init_loop avail 0 d w = Some (InitNoAttempt, w)"
  by (simp add: init_loop.simps)

lemma init_loop_up:
  "r \<noteq> 0 \<Longrightarrow> avail (clock w) \<Longrightarrow> init_loop avail r d w =
     Some (InitReady, w\<lparr>pg := (pg w)\<lparr>pg_up := True, sql_log := sql_log (pg w) @ [users_ddl],
        users := create_if_absent (users (pg w))\<rparr>, console := console w @ [try_line, ready_line]\<rparr>)"
  by (simp add: init_loop.simps pg_send_def)

lemma init_loop_down:
  "r \<noteq> 0 \<Longrightarrow> \<not> avail (clock w) \<Longrightarrow> init_loop avail r d w =
     (if r - 1 = 0 then Some (InitExit 1, w\<lparr>pg := (pg w)\<lparr>pg_up := False\<rparr>,
         console := console w @ [try_line, not_ready_line (r - 1) PgUnavailable, failed_line]\<rparr>)
      else init_loop avail (r - 1) d (w\<lparr>pg := (pg w)\<lparr>pg_up := False\<rparr>,
         console := console w @ [try_line, not_ready_line (r - 1) PgUnavailable], clock := clock w + d\<rparr>))"
  by (simp add: init_loop.simps [of avail r] pg_send_def Let_def)

lemma init_loop_returns_needs_db:
  assumes "init_loop av r d w = Some x" and "r < 0"
  shows "\<exists>t. av t"
proof -
  have "r < 0 \<longrightarrow> (\<exists>t. av t)"
    using assms(1)
  proof (rule init_loop.raw_induct [where P = "\<lambda>av r d w x. r < 0 \<longrightarrow> (\<exists>t. av t)", rotated])
    fix f av r d w y
    assume ih: "\<And>av r d w y. f av r d w = Some y \<Longrightarrow> r < 0 \<longrightarrow> (\<exists>t. av t)"
      and body: "(if r = 0 then Some (InitNoAttempt, w)
         else let w0 = w\<lparr>pg := (pg w)\<lparr>pg_up := av (clock w)\<rparr>, console := console w @ [try_line]\<rparr> in
           case pg_send users_ddl (pg w0) of
             Inr p \<Rightarrow> Some (InitReady, w0\<lparr>pg := p\<lparr>users := create_if_absent (users p)\<rparr>, console := console w0 @ [ready_line]\<rparr>)
           | Inl e \<Rightarrow> (let r' = r - 1; w1 = w0\<lparr>console := console w0 @ [not_ready_line r' e]\<rparr> in
                if r' = 0 then Some (InitExit 1, w1\<lparr>console := console w1 @ [failed_line]\<rparr>)
                else f av r' d (w1\<lparr>clock := clock w1 + d\<rparr>))) = Some y"
    show "r < 0 \<longrightarrow> (\<exists>t. av t)"
      using body ih [of av "r - 1"] by (auto simp: Let_def pg_send_def split: if_splits sum.splits)
  qed
  then show ?thesis using assms(2) by blast
qed

subsection \<open>Register and login: step equations\<close>

lemma register_hash_step_obj:
  "register_hash_step hf (Some (JObj kvs)) =
     (case map_of kvs ''password'' of Some (JStr pw) \<Rightarrow> Inr (map_of kvs ''email'', hf pw, map_of kvs ''role'') | _ \<Rightarrow> Inl BcryptError)"
  by (simp add: register_hash_step_def js_prop_def split: option.split json.split)

lemma role_value_param: "\<exists>s. pg_param (Some (role_value r)) = Some s"
  by (cases r) (auto simp: role_value_def js_truthy_def pg_param_def split: json.split)

lemma register_ok:
  assumes "pg_up (pg w)" "users (pg w) = Some rs" "map_of kvs ''email'' = Some (JStr e)"
    "map_of kvs ''password'' = Some (JStr pw)" "uid \<notin> set (map u_id rs)" "e \<notin> set (map u_email rs)"
  shows "register hf uid (Some (JObj kvs)) w =
    (Respond 200 (JObj [(''message'', JStr ''User registered'')]),
     w\<lparr>pg := (pg w)\<lparr>sql_log := sql_log (pg w) @ [''INSERT INTO users VALUES($1,$2,$3,$4)''],
        users := Some (rs @ [\<lparr>u_id = uid, u_email = e, u_password = hf pw,
                               u_role = the (pg_param (Some (role_value (map_of kvs ''role''))))\<rparr>])\<rparr>\<rparr>)"
proof -
  obtain s where s: "pg_param (Some (role_value (map_of kvs ''role''))) = Some s" using role_value_param by blast
  show ?thesis using assms s
    by (simp add: register_def register_hash_step_obj register_insert_step_def pg_send_def insert_user_def pg_param_def)
qed

lemma login_obj:
  assumes "pg_up (pg w)" "users (pg w) = Some rs" "map_of kvs ''email'' = Some (JStr e)"
  shows "login cmp sign secret (Some (JObj kvs)) w =
    (login_check cmp sign secret (clock w) (map_of kvs ''password'') (filter (\<lambda>u. e = u_email u) rs),
     w\<lparr>pg := (pg w)\<lparr>sql_log := sql_log (pg w) @ [''SELECT * FROM users WHERE email=$1'']\<rparr>\<rparr>)"
  using assms by (simp add: login_def js_prop_def pg_send_def select_all_def pg_param_def)

lemma filter_email_absent:
  "e \<notin> set (map u_email rs) \<Longrightarrow> filter (\<lambda>u. e = u_email u) rs = []"
  by (induction rs) auto

lemma register_default_role:
  assumes "pg_up (pg w)" "users (pg w) = Some rs" "uid \<notin> set (map u_id rs)" "e \<notin> set (map u_email rs)"
    and "register hf uid (Some (JObj [(''email'', JStr e), (''password'', JStr pw)])) w = (out, w1)"
  shows "out = Respond 200 (JObj [(''message'', JStr ''User registered'')])
      \<and> w1 = w\<lparr>pg := (pg w)\<lparr>sql_log := sql_log (pg w) @ [''INSERT INTO users VALUES($1,$2,$3,$4)''],
        users := Some (rs @ [\<lparr>u_id = uid, u_email = e, u_password = hf pw, u_role = ''USER''\<rparr>])\<rparr>\<rparr>"
proof -
  have reg: "register hf uid (Some (JObj [(''email'', JStr e), (''password'', JStr pw)])) w =
    (Respond 200 (JObj [(''message'', JStr ''User registered'')]),
     w\<lparr>pg := (pg w)\<lparr>sql_log := sql_log (pg w) @ [''INSERT INTO users VALUES($1,$2,$3,$4)''],
        users := Some (rs @ [\<lparr>u_id = uid, u_email = e, u_password = hf pw, u_role = ''USER''\<rparr>])\<rparr>\<rparr>)"
    using register_ok [OF assms(1,2) _ _ assms(3,4), of "[(''email'', JStr e), (''password'', JStr pw)]" pw hf]
    by (simp add: role_value_def js_truthy_def pg_param_def)
  show ?thesis using assms(5) [symmetric] reg by simp
qed

lemma register_alice:
  "register demo_hash ''u1'' (Some (JObj [(''email'', JStr ''a@x''), (''password'', JStr ''pw'')])) w_users =
     (Respond 200 (JObj [(''message'', JStr ''User registered'')]), w_alice)"
  by (simp add: register_def register_hash_step_def js_prop_def register_insert_step_def pg_send_def insert_user_def
      pg_param_def role_value_def js_truthy_def world_init_def pg_init_def)

subsection \<open>initDB\<close>

text \<open>
  C20: \<open>initDB\<close> ends for every retry count that is not negative, whatever Postgres does: it
  returns or exits the process.
\<close>

theorem init_loop_terminates: "0 \<le> r \<Longrightarrow> \<exists>x. init_loop avail r d w = Some x"
proof (induction "nat r" arbitrary: r w)
  case 0
  then show ?case by (simp add: init_loop_zero)
next
  case (Suc n)
  then have r: "r \<noteq> 0" "nat (r - 1) = n" "0 \<le> r - 1" by auto
  show ?case
  proof (cases "avail (clock w)")
    case True then show ?thesis using r init_loop_up by blast
  next
    case False then show ?thesis using r Suc.hyps(1) by (simp add: init_loop_down)
  qed
qed

theorem init_loop_terminates_witness:
  "\<exists>x. init_loop (\<lambda>_. False) 10 3000 world_init = Some x"
  using init_loop_terminates [where r = 10 and avail = "\<lambda>_. False" and d = 3000 and w = world_init] by simp

text \<open>
  C21: with Postgres never reachable, a loop started with \<open>n + 1\<close> retries makes exactly
  \<open>n + 1\<close> attempts, sleeps \<open>n\<close> times, logs each attempt and the count left, and exits with
  code 1 without a users table; with the defaults, 10 attempts over 27 s.
\<close>

theorem init_loop_gives_up:
  "(\<forall>t. \<not> avail t) \<Longrightarrow> init_loop avail (int (Suc n)) d w =
     Some (InitExit 1, w\<lparr>pg := (pg w)\<lparr>pg_up := False\<rparr>, clock := clock w + n * d,
       console := console w @ concat (map (\<lambda>k. [try_line, not_ready_line (int k) PgUnavailable]) (rev [0..<Suc n])) @ [failed_line]\<rparr>)"
proof (induction n arbitrary: w)
  case 0
  then show ?case by (simp add: init_loop_down)
next
  case (Suc n)
  then show ?case by (simp add: init_loop_down add.assoc)
qed

theorem init_loop_gives_up_witness:
  "init_db (\<lambda>_. False) world_init =
     Some (InitExit 1, world_init\<lparr>pg := pg_init\<lparr>pg_up := False\<rparr>, clock := 27000,
       console := concat (map (\<lambda>k. [try_line, not_ready_line (int k) PgUnavailable]) (rev [0..<10])) @ [failed_line]\<rparr>)"
  using init_loop_gives_up [where avail = "\<lambda>_. False" and n = 9 and d = 3000 and w = world_init]
  by (simp add: init_db_def world_init_def)

text \<open>
  C22: when Postgres first answers at the \<open>k\<close>-th attempt (counting from 0) and
  \<open>k\<close> is below the retry count, the loop returns ready at time \<open>k * delay\<close> after its start,
  with the users table created.
\<close>

theorem init_loop_ready:
  "(\<forall>i<k. \<not> avail (clock w + i * d)) \<Longrightarrow> avail (clock w + k * d) \<Longrightarrow> k < n \<Longrightarrow>
     \<exists>w'. init_loop avail (int n) d w = Some (InitReady, w') \<and> users (pg w') = create_if_absent (users (pg w))
       \<and> clock w' = clock w + k * d \<and> pg_up (pg w')"
proof (induction k arbitrary: n w)
  case 0
  then show ?case by (simp add: init_loop_up)
next
  case (Suc k)
  obtain m where m: "n = Suc m" "k < m" using Suc.prems(3) by (cases n) auto
  have down: "\<not> avail (clock w)" using Suc.prems(1) [rule_format, of 0] by simp
  let ?w1 = "w\<lparr>pg := (pg w)\<lparr>pg_up := False\<rparr>, console := console w @ [try_line, not_ready_line (int m) PgUnavailable], clock := clock w + d\<rparr>"
  have "\<exists>w'. init_loop avail (int m) d ?w1 = Some (InitReady, w') \<and> users (pg w') = create_if_absent (users (pg ?w1))
       \<and> clock w' = clock ?w1 + k * d \<and> pg_up (pg w')"
  proof (rule Suc.IH)
    show "\<forall>i<k. \<not> avail (clock ?w1 + i * d)"
      using Suc.prems(1) by (auto simp: add.assoc)
    show "avail (clock ?w1 + k * d)" using Suc.prems(2) by (simp add: add.assoc)
  qed (use m in simp)
  moreover have "m \<noteq> 0" using m by simp
  ultimately show ?case using down m(1) by (simp add: init_loop_down add.assoc)
qed

theorem init_loop_ready_witness:
  "\<exists>w'. init_db (\<lambda>t. 6000 \<le> t) world_init = Some (InitReady, w') \<and> users (pg w') = Some []
     \<and> clock w' = 6000 \<and> pg_up (pg w')"
  using init_loop_ready [where avail = "\<lambda>t. 6000 \<le> t" and k = 2 and n = 10 and d = 3000 and w = world_init]
  by (simp add: init_db_def world_init_def pg_init_def create_if_absent_def less_Suc_eq numeral_2_eq_2)

text \<open>
  C23: a negative retry count never reaches 0: with Postgres never reachable the loop
  never ends (it neither returns nor exits).
\<close>

theorem init_loop_negative_diverges:
  "retries < 0 \<Longrightarrow> (\<forall>t. \<not> avail t) \<Longrightarrow> init_loop avail retries delay w = None"
  by (cases "init_loop avail retries delay w") (auto dest: init_loop_returns_needs_db)

theorem init_loop_negative_diverges_witness:
  "init_loop (\<lambda>_. False) (-1) 3000 world_init = None"
  using init_loop_negative_diverges [where retries = "-1" and avail = "\<lambda>_. False" and delay = 3000 and w = world_init]
  by simp

subsection \<open>Register and login\<close>

text \<open>
  C24: a user registered with a fresh email and a password can log in with them: login
  answers a token signed over \<open>{id, role: "USER", iat}\<close>, given that \<open>compareSync\<close> accepts
  a password against its own hash and the secret is set.
\<close>

theorem register_then_login:
  assumes "pg_up (pg w)" "users (pg w) = Some rs" "uid \<notin> set (map u_id rs)" "e \<notin> set (map u_email rs)"
    and "cmp pw (hf pw)" and "s \<noteq> []"
    and "register hf uid (Some (JObj [(''email'', JStr e), (''password'', JStr pw)])) w = (out, w1)"
  shows "out = Respond 200 (JObj [(''message'', JStr ''User registered'')])
    \<and> fst (login cmp sign (Some s) (Some (JObj [(''email'', JStr e), (''password'', JStr pw)])) w1) =
      Respond 200 (JObj [(''token'', JStr (sign (jwt_payload \<lparr>u_id = uid, u_email = e, u_password = hf pw, u_role = ''USER''\<rparr> (clock w)) s))])"
  using register_default_role [OF assms(1-4,7)] assms(1,4,5,6)
  by (simp add: login_obj filter_email_absent login_check_def)

theorem register_then_login_witness:
  "fst (login demo_cmp demo_sign (Some ''k'') (Some (JObj [(''email'', JStr ''a@x''), (''password'', JStr ''pw'')])) w_alice) =
     Respond 200 (JObj [(''token'', JStr (json_stringify (jwt_payload alice 0)))])"
  using register_then_login [OF _ _ _ _ _ _ register_alice, where rs = "[]" and cmp = demo_cmp and sign = demo_sign and s = "''k''"]
  by (simp add: world_init_def pg_init_def)

text \<open>
  C25: the stored role is whatever non-empty role string the client sends: any caller
  can register as \<open>ADMIN\<close>.
\<close>

theorem register_role_from_client:
  assumes "pg_up (pg w)" "users (pg w) = Some rs" "map_of kvs ''email'' = Some (JStr e)"
    "map_of kvs ''password'' = Some (JStr pw)" "uid \<notin> set (map u_id rs)" "e \<notin> set (map u_email rs)"
    and "map_of kvs ''role'' = Some (JStr r)" and "r \<noteq> []"
  shows "users (pg (snd (register hf uid (Some (JObj kvs)) w))) =
    Some (rs @ [\<lparr>u_id = uid, u_email = e, u_password = hf pw, u_role = r\<rparr>])"
  using register_ok [OF assms(1-6), of hf] assms(7,8)
  by (simp add: role_value_def js_truthy_def pg_param_def)

theorem register_role_from_client_witness:
  "users (pg (snd (register demo_hash ''u2'' (Some (JObj [(''email'', JStr ''b@x''), (''password'', JStr ''pw''), (''role'', JStr ''ADMIN'')])) w_users)))
     = Some [\<lparr>u_id = ''u2'', u_email = ''b@x'', u_password = ''$2a$08$pw'', u_role = ''ADMIN''\<rparr>]"
  using register_role_from_client [where w = w_users and rs = "[]" and e = "''b@x''" and pw = "''pw''" and r = "''ADMIN''"
      and uid = "''u2''" and hf = demo_hash and kvs = "[(''email'', JStr ''b@x''), (''password'', JStr ''pw''), (''role'', JStr ''ADMIN'')]"]
  by (simp add: world_init_def pg_init_def)

text \<open>
  C26: registering an email that is already a row fails with the unique violation of
  \<open>users_email_key\<close>; the table is unchanged and the promise rejects (no answer).
\<close>

theorem register_duplicate_email:
  assumes "pg_up (pg w)" "users (pg w) = Some rs" "map_of kvs ''email'' = Some (JStr e)"
    "map_of kvs ''password'' = Some (JStr pw)" "uid \<notin> set (map u_id rs)" "e \<in> set (map u_email rs)"
  shows "register hf uid (Some (JObj kvs)) w =
    (Rejected (UniqueViolation ''users_email_key''),
     w\<lparr>pg := (pg w)\<lparr>sql_log := sql_log (pg w) @ [''INSERT INTO users VALUES($1,$2,$3,$4)'']\<rparr>\<rparr>)"
proof -
  obtain s where s: "pg_param (Some (role_value (map_of kvs ''role''))) = Some s" using role_value_param by blast
  show ?thesis using assms s
    by (simp add: register_def register_hash_step_obj register_insert_step_def pg_send_def insert_user_def pg_param_def)
qed

theorem register_duplicate_email_witness:
  "register demo_hash ''u2'' (Some (JObj [(''email'', JStr ''a@x''), (''password'', JStr ''other'')])) w_alice =
     (Rejected (UniqueViolation ''users_email_key''), w_alice\<lparr>pg := pg_init\<lparr>users := Some [alice],
        sql_log := [''INSERT INTO users VALUES($1,$2,$3,$4)'', ''INSERT INTO users VALUES($1,$2,$3,$4)'']\<rparr>\<rparr>)"
  using register_duplicate_email [where w = w_alice and rs = "[alice]" and e = "''a@x''" and pw = "''other''"
      and uid = "''u2''" and hf = demo_hash and kvs = "[(''email'', JStr ''a@x''), (''password'', JStr ''other'')]"]
  by (simp add: world_init_def pg_init_def)

text \<open>
  C27: after registering, a login with a different password is answered 401, given
  that \<open>compareSync\<close> accepts a hash only for the password it was made from.
\<close>

theorem login_wrong_password:
  assumes "pg_up (pg w)" "users (pg w) = Some rs" "uid \<notin> set (map u_id rs)" "e \<notin> set (map u_email rs)"
    and "\<forall>a b. cmp a (hf b) \<longrightarrow> a = b" and "pw' \<noteq> pw"
    and "register hf uid (Some (JObj [(''email'', JStr e), (''password'', JStr pw)])) w = (out, w1)"
  shows "fst (login cmp sign secret (Some (JObj [(''email'', JStr e), (''password'', JStr pw')])) w1) = SendStatus 401"
proof -
  have "\<not> cmp pw' (hf pw)" using assms(5,6) by blast
  then show ?thesis using register_default_role [OF assms(1-4,7)] assms(1,4)
    by (simp add: login_obj filter_email_absent login_check_def)
qed

theorem login_wrong_password_witness:
  "fst (login demo_cmp demo_sign (Some ''k'') (Some (JObj [(''email'', JStr ''a@x''), (''password'', JStr ''bad'')])) w_alice) = SendStatus 401"
  using login_wrong_password [OF _ _ _ _ _ _ register_alice, where rs = "[]" and cmp = demo_cmp and pw' = "''bad''"
      and sign = demo_sign and secret = "Some ''k''"]
  by (simp add: world_init_def pg_init_def)

text \<open>
  C28: a login whose email is missing or is not a row is answered 401 (a missing
  email becomes SQL \<open>NULL\<close>, which matches no row).
\<close>

theorem login_unknown_email:
  assumes "pg_up (pg w)" "users (pg w) = Some rs"
    and "map_of kvs ''email'' = None \<or> (map_of kvs ''email'' = Some (JStr e) \<and> e \<notin> set (map u_email rs))"
  shows "login cmp sign secret (Some (JObj kvs)) w =
    (SendStatus 401, w\<lparr>pg := (pg w)\<lparr>sql_log := sql_log (pg w) @ [''SELECT * FROM users WHERE email=$1'']\<rparr>\<rparr>)"
  using assms(3)
proof
  assume "map_of kvs ''email'' = None"
  then show ?thesis using assms(1,2)
    by (simp add: login_def js_prop_def pg_send_def select_all_def pg_param_def login_check_def)
next
  assume "map_of kvs ''email'' = Some (JStr e) \<and> e \<notin> set (map u_email rs)"
  then show ?thesis using assms(1,2) login_obj [OF assms(1,2)]
    by (simp add: filter_email_absent login_check_def)
qed

theorem login_unknown_email_witness:
  "login demo_cmp demo_sign (Some ''k'') (Some (JObj [(''email'', JStr ''b@x''), (''password'', JStr ''pw'')])) w_alice =
     (SendStatus 401, w_alice\<lparr>pg := pg_init\<lparr>users := Some [alice],
        sql_log := [''INSERT INTO users VALUES($1,$2,$3,$4)'', ''SELECT * FROM users WHERE email=$1'']\<rparr>\<rparr>)"
  using login_unknown_email [where w = w_alice and rs = "[alice]" and e = "''b@x''" and cmp = demo_cmp and sign = demo_sign
      and secret = "Some ''k''" and kvs = "[(''email'', JStr ''b@x''), (''password'', JStr ''pw'')]"]
  by (simp add: world_init_def pg_init_def)

text \<open>
  C29: with \<open>JWT_SECRET\<close> unset or empty, a login with correct credentials rejects in
  \<open>jwt.sign\<close>: the client gets no answer.
\<close>

theorem login_without_secret:
  assumes "pg_up (pg w)" "users (pg w) = Some rs" "map_of kvs ''email'' = Some (JStr e)"
    "map_of kvs ''password'' = Some (JStr pw)" "filter (\<lambda>u. e = u_email u) rs = u # us"
    "cmp pw (u_password u)" and "secret = None \<or> secret = Some []"
  shows "fst (login cmp sign secret (Some (JObj kvs)) w) = Rejected (JwtError ''secretOrPrivateKey must have a value'')"
  using assms by (auto simp: login_obj login_check_def)

theorem login_without_secret_witness:
  "fst (login demo_cmp demo_sign None (Some (JObj [(''email'', JStr ''a@x''), (''password'', JStr ''pw'')])) w_alice) =
     Rejected (JwtError ''secretOrPrivateKey must have a value'')"
  using login_without_secret [where w = w_alice and rs = "[alice]" and e = "''a@x''" and pw = "''pw''" and u = alice
      and us = "[]" and cmp = demo_cmp and sign = demo_sign and secret = None
      and kvs = "[(''email'', JStr ''a@x''), (''password'', JStr ''pw'')]"]
  by (simp add: world_init_def pg_init_def)

text \<open>
  C30: a register body whose password is not a string rejects in \<open>bcrypt.hash\<close> before any
  query: nothing is written.
\<close>

theorem register_without_password:
  "(\<forall>pw. map_of kvs ''password'' \<noteq> Some (JStr pw)) \<Longrightarrow> register hf uid (Some (JObj kvs)) w = (Rejected BcryptError, w)"
  by (simp add: register_def register_hash_step_obj split: option.split json.split)

theorem register_without_password_witness:
  "register demo_hash ''u2'' (Some (JObj [(''email'', JStr ''b@x'')])) w_users = (Rejected BcryptError, w_users)"
  using register_without_password [where kvs = "[(''email'', JStr ''b@x'')]" and hf = demo_hash and uid = "''u2''" and w = w_users]
  by simp

text \<open>
  C31: register keeps emails unique in the users table, whatever the body: the
  \<open>UNIQUE\<close> constraint is the only guard, and it holds.
\<close>

theorem register_keeps_emails_unique:
  assumes "distinct (map u_email rs)" "users (pg w) = Some rs" "users (pg (snd (register hf uid b w))) = Some rs'"
  shows "distinct (map u_email rs')"
  using assms
  by (auto simp: register_def register_insert_step_def insert_user_def pg_send_def
      split: sum.splits option.splits prod.splits if_splits)

theorem register_keeps_emails_unique_witness:
  "users (pg (snd (register demo_hash ''u2'' (Some (JObj [(''email'', JStr ''b@x''), (''password'', JStr ''pw'')])) w_alice)))
     = Some [alice, \<lparr>u_id = ''u2'', u_email = ''b@x'', u_password = ''$2a$08$pw'', u_role = ''USER''\<rparr>]
   \<and> distinct (map u_email [alice, \<lparr>u_id = ''u2'', u_email = ''b@x'', u_password = ''$2a$08$pw'', u_role = ''USER''\<rparr>])"
proof -
  have r: "users (pg (snd (register demo_hash ''u2'' (Some (JObj [(''email'', JStr ''b@x''), (''password'', JStr ''pw'')])) w_alice)))
     = Some [alice, \<lparr>u_id = ''u2'', u_email = ''b@x'', u_password = ''$2a$08$pw'', u_role = ''USER''\<rparr>]"
    by (simp add: register_def register_hash_step_def js_prop_def register_insert_step_def pg_send_def insert_user_def
        pg_param_def role_value_def js_truthy_def world_init_def pg_init_def)
  show ?thesis
    using r register_keeps_emails_unique [OF _ _ r, where rs = "[alice]"] by (simp add: world_init_def pg_init_def)
qed

end
