(* ===== verification/Body_Parser.thy ===== *)
theory Body_Parser
  imports Json
begin

text \<open>
  What \<open>express.json()\<close> (body-parser's JSON parser with its defaults: \<open>strict\<close>,
  \<open>limit: "100kb"\<close>, \<open>type: "application/json"\<close>) does with a request, as far as
  the gateway depends on it. These are library functions, modelled from their
  sources so that \<open>Gateway.gateway\<close> can use them:
  \<^item> \<open>content_type_parse\<close> is \<open>contentType.parse\<close> of the content-type package: the
    media type before the first \<open>;\<close>, trimmed and lower-cased, then the parameters,
    each matched by \<open>; *token *= *(token|quoted-string) *\<close>; anything else throws
    (\<open>None\<close>). The same parse gives the request's media type (type-is) and its
    charset (\<open>getCharset\<close>); a later duplicate parameter wins.
  \<^item> \<open>json_valid\<close> is "\<open>JSON.parse\<close> does not throw": a pushdown recogniser of the
    JSON grammar (ECMA-404), fractions and exponents included, which reads the text
    one character at a time.
  \<^item> decoding the body bytes with the charset is iconv-lite, a parameter \<open>dec\<close> of
    the gateway (\<open>None\<close> for an encoding iconv-lite does not know).
\<close>

subsection \<open>\<open>contentType.parse\<close>\<close>

text \<open>\<open>String.prototype.trim\<close>: the white space of ECMAScript among the characters below 256.\<close>

definition is_js_space :: "char \<Rightarrow> bool" where
  "is_js_space c = ((of_char c :: nat) \<in> {9, 10, 11, 12, 13, 32, 160})"

definition js_trim :: "string \<Rightarrow> string" where
  "js_trim s = rev (dropWhile is_js_space (rev (dropWhile is_js_space s)))"

text \<open>The token characters \<open>[!#$%&'*+.^_`|~0-9A-Za-z-]\<close> and the quoted-string characters.\<close>

definition is_tchar :: "char \<Rightarrow> bool" where
  "is_tchar c = (c \<in> set ''!#$%&'*+.^_`|~-'' \<or> is_digit c \<or> (let n = of_char c :: nat in (65 \<le> n \<and> n \<le> 90) \<or> (97 \<le> n \<and> n \<le> 122)))"

definition is_qdchar :: "char \<Rightarrow> bool" where
  "is_qdchar c = (let n = of_char c :: nat in n = 11 \<or> n = 32 \<or> n = 33 \<or> (35 \<le> n \<and> n \<le> 91) \<or> (93 \<le> n \<and> n \<le> 126) \<or> 128 \<le> n)"

definition is_qpchar :: "char \<Rightarrow> bool" where
  "is_qpchar c = (let n = of_char c :: nat in n = 11 \<or> 32 \<le> n)"

text \<open>
  The parameter list after the media type, read by a scanner whose states follow
  \<open>PARAM_REGEXP\<close>: after a \<open>;\<close>, in a key, before \<open>=\<close>, before the value, in a
  token value, in a quoted value, after a backslash, after a value.
\<close>

datatype pstate = PSemi | PStart | PKey string | PEq string | PVal string
  | PTok string string | PQuote string string | PEsc string string | PAfter

fun pscan :: "pstate \<Rightarrow> (string \<times> string) list \<Rightarrow> string \<Rightarrow> (string \<times> string) list option" where
  "pscan st ps [] = (case st of
      PSemi \<Rightarrow> Some ps | PAfter \<Rightarrow> Some ps | PTok k v \<Rightarrow> Some (ps @ [(k, v)]) | _ \<Rightarrow> None)"
| "pscan PSemi ps (c # cs) = (if c = CHR '';'' then pscan PStart ps cs else None)"
| "pscan PStart ps (c # cs) =
     (if c = CHR '' '' then pscan PStart ps cs else if is_tchar c then pscan (PKey [c]) ps cs else None)"
| "pscan (PKey k) ps (c # cs) =
     (if is_tchar c then pscan (PKey (k @ [c])) ps cs
      else if c = CHR '' '' then pscan (PEq k) ps cs
      else if c = CHR ''='' then pscan (PVal k) ps cs else None)"
| "pscan (PEq k) ps (c # cs) =
     (if c = CHR '' '' then pscan (PEq k) ps cs else if c = CHR ''='' then pscan (PVal k) ps cs else None)"
| "pscan (PVal k) ps (c # cs) =
     (if c = CHR '' '' then pscan (PVal k) ps cs
      else if c = CHR 0x22 then pscan (PQuote k []) ps cs
      else if is_tchar c then pscan (PTok k [c]) ps cs else None)"
| "pscan (PTok k v) ps (c # cs) =
     (if is_tchar c then pscan (PTok k (v @ [c])) ps cs
      else if c = CHR '' '' then pscan PAfter (ps @ [(k, v)]) cs
      else if c = CHR '';'' then pscan PStart (ps @ [(k, v)]) cs else None)"
| "pscan (PQuote k v) ps (c # cs) =
     (if c = CHR 0x22 then pscan PAfter (ps @ [(k, v)]) cs
      else if c = CHR 0x5C then pscan (PEsc k v) ps cs
      else if is_qdchar c then pscan (PQuote k (v @ [c])) ps cs else None)"
| "pscan (PEsc k v) ps (c # cs) = (if is_qpchar c then pscan (PQuote k (v @ [c])) ps cs else None)"
| "pscan PAfter ps (c # cs) =
     (if c = CHR '' '' then pscan PAfter ps cs else if c = CHR '';'' then pscan PStart ps cs else None)"

text \<open>The media type must match \<open>TYPE_REGEXP\<close>: two tokens around a \<open>/\<close>.\<close>

definition media_type_ok :: "string \<Rightarrow> bool" where
  "media_type_ok t = (let a = takeWhile (\<lambda>c. c \<noteq> CHR ''/'') t; b = drop (Suc (length a)) t in
     a \<noteq> [] \<and> b \<noteq> [] \<and> length a < length t \<and> (\<forall>c\<in>set a. is_tchar c) \<and> (\<forall>c\<in>set b. is_tchar c))"

definition content_type_parse :: "string \<Rightarrow> (string \<times> (string \<times> string) list) option" where
  "content_type_parse h =
     (let t = js_trim (takeWhile (\<lambda>c. c \<noteq> CHR '';'') h) in
      if \<not> media_type_ok t then None
      else map_option (\<lambda>ps. (map ascii_lower t, map (\<lambda>(k, v). (map ascii_lower k, v)) ps))
             (pscan PSemi [] (dropWhile (\<lambda>c. c \<noteq> CHR '';'') h)))"

text \<open>\<open>getCharset(req) || "utf-8"\<close>: the last \<open>charset\<close> parameter, lower-cased.\<close>

definition body_charset :: "(string \<times> string) list \<Rightarrow> string" where
  "body_charset ps = (case map_of (rev ps) ''charset'' of
      Some v \<Rightarrow> (if v = [] then ''utf-8'' else map ascii_lower v)
    | None \<Rightarrow> ''utf-8'')"

subsection \<open>\<open>JSON.parse\<close> acceptance\<close>

text \<open>
  The recogniser's state: what may come next, and the stack of open arrays and
  objects. A number is scanned by the states of its grammar; \<open>NZero\<close>, \<open>NInt\<close>,
  \<open>NFrac\<close> and \<open>NExp\<close> are the states in which it may end.
\<close>

datatype jframe = FArr | FObj

datatype nstate = NMinus | NZero | NInt | NDot | NFrac | NE | NESign | NExp

datatype jstate = JValue | JValueOrClose | JKeyOrClose | JKey | JColon | JAfter
  | JString bool | JEscape bool | JHex bool nat | JNumber nstate | JLit string

definition is_hex :: "char \<Rightarrow> bool" where
  "is_hex c = (is_digit c \<or> c \<in> set ''abcdefABCDEF'')"

fun num_end :: "nstate \<Rightarrow> bool" where
  "num_end NZero = True" | "num_end NInt = True" | "num_end NFrac = True" | "num_end NExp = True"
| "num_end _ = False"

text \<open>The next number state on a character, \<open>None\<close> when the character ends the number.\<close>

fun num_next :: "nstate \<Rightarrow> char \<Rightarrow> nstate option" where
  "num_next NMinus c = (if c = CHR ''0'' then Some NZero else if is_digit c then Some NInt else None)"
| "num_next NZero c = (if c = CHR ''.'' then Some NDot else if c = CHR ''e'' \<or> c = CHR ''E'' then Some NE else None)"
| "num_next NInt c = (if is_digit c then Some NInt else if c = CHR ''.'' then Some NDot
      else if c = CHR ''e'' \<or> c = CHR ''E'' then Some NE else None)"
| "num_next NDot c = (if is_digit c then Some NFrac else None)"
| "num_next NFrac c = (if is_digit c then Some NFrac else if c = CHR ''e'' \<or> c = CHR ''E'' then Some NE else None)"
| "num_next NE c = (if c = CHR ''+'' \<or> c = CHR ''-'' then Some NESign else if is_digit c then Some NExp else None)"
| "num_next NESign c = (if is_digit c then Some NExp else None)"
| "num_next NExp c = (if is_digit c then Some NExp else None)"

text \<open>A value starts: the state after its first character.\<close>

definition value_start :: "jframe list \<Rightarrow> char \<Rightarrow> (jstate \<times> jframe list) option" where
  "value_start stk c =
     (if c = CHR ''{'' then Some (JKeyOrClose, FObj # stk)
      else if c = CHR ''['' then Some (JValueOrClose, FArr # stk)
      else if c = CHR 0x22 then Some (JString False, stk)
      else if c = CHR ''t'' then Some (JLit ''rue'', stk)
      else if c = CHR ''f'' then Some (JLit ''alse'', stk)
      else if c = CHR ''n'' then Some (JLit ''ull'', stk)
      else if c = CHR ''-'' then Some (JNumber NMinus, stk)
      else if c = CHR ''0'' then Some (JNumber NZero, stk)
      else if is_digit c then Some (JNumber NInt, stk)
      else None)"

text \<open>After a complete value: white space, a separator or the closing bracket of the innermost frame.\<close>

definition after_value :: "jframe list \<Rightarrow> char \<Rightarrow> (jstate \<times> jframe list) option" where
  "after_value stk c =
     (if is_json_ws c then Some (JAfter, stk)
      else case stk of
        [] \<Rightarrow> None
      | FArr # stk' \<Rightarrow> (if c = CHR '','' then Some (JValue, stk) else if c = CHR '']'' then Some (JAfter, stk') else None)
      | FObj # stk' \<Rightarrow> (if c = CHR '','' then Some (JKey, stk) else if c = CHR ''}'' then Some (JAfter, stk') else None))"

fun jstep :: "jstate \<Rightarrow> jframe list \<Rightarrow> char \<Rightarrow> (jstate \<times> jframe list) option" where
  "jstep JValue stk c = (if is_json_ws c then Some (JValue, stk) else value_start stk c)"
| "jstep JValueOrClose stk c =
     (if is_json_ws c then Some (JValueOrClose, stk)
      else if c = CHR '']'' then Some (JAfter, tl stk) else value_start stk c)"
| "jstep JKeyOrClose stk c =
     (if is_json_ws c then Some (JKeyOrClose, stk)
      else if c = CHR ''}'' then Some (JAfter, tl stk)
      else if c = CHR 0x22 then Some (JString True, stk) else None)"
| "jstep JKey stk c =
     (if is_json_ws c then Some (JKey, stk) else if c = CHR 0x22 then Some (JString True, stk) else None)"
| "jstep JColon stk c =
     (if is_json_ws c then Some (JColon, stk) else if c = CHR '':'' then Some (JValue, stk) else None)"
| "jstep JAfter stk c = after_value stk c"
| "jstep (JString key) stk c =
     (if c = CHR 0x22 then Some (if key then JColon else JAfter, stk)
      else if c = CHR 0x5C then Some (JEscape key, stk)
      else if (of_char c :: nat) < 32 then None else Some (JString key, stk))"
| "jstep (JEscape key) stk c =
     (if c \<in> set [CHR 0x22, CHR 0x5C, CHR ''/'', CHR ''b'', CHR ''f'', CHR ''n'', CHR ''r'', CHR ''t''] then Some (JString key, stk)
      else if c = CHR ''u'' then Some (JHex key 4, stk) else None)"
| "jstep (JHex key n) stk c =
     (if \<not> is_hex c then None else if n \<le> 1 then Some (JString key, stk) else Some (JHex key (n - 1), stk))"
| "jstep (JNumber ns) stk c =
     (case num_next ns c of
        Some ns' \<Rightarrow> Some (JNumber ns', stk)
      | None \<Rightarrow> if num_end ns then after_value stk c else None)"
| "jstep (JLit l) stk c =
     (case l of
        [] \<Rightarrow> after_value stk c
      | x # xs \<Rightarrow> if c = x then Some (if xs = [] then JAfter else JLit xs, stk) else None)"

fun jrun :: "jstate \<Rightarrow> jframe list \<Rightarrow> string \<Rightarrow> (jstate \<times> jframe list) option" where
  "jrun st stk [] = Some (st, stk)"
| "jrun st stk (c # cs) = (case jstep st stk c of None \<Rightarrow> None | Some (st', stk') \<Rightarrow> jrun st' stk' cs)"

text \<open>The whole text is one value with white space around it.\<close>

definition json_valid :: "string \<Rightarrow> bool" where
  "json_valid s = (case jrun JValue [] s of
      Some (JAfter, []) \<Rightarrow> True
    | Some (JNumber ns, []) \<Rightarrow> num_end ns
    | _ \<Rightarrow> False)"

text \<open>body-parser's strict mode: the first character after white space opens an object or array.\<close>

definition strict_first :: "string \<Rightarrow> bool" where
  "strict_first s = (case dropWhile is_json_ws s of [] \<Rightarrow> False | c # _ \<Rightarrow> c = CHR ''{'' \<or> c = CHR ''['')"

end
