(* ===== verification/Gateway.thy ===== *)
theory Gateway
  imports Body_Parser
begin

text \<open>
  api-gateway (\<open>src/services/api-gateway/index.js\<close>): \<open>express.json()\<close> for every
  request, then four \<open>app.use(prefix, createProxyMiddleware({...}))\<close> mounts tried in
  order; a request no mount matches falls through to Express's final handler (404).
  A mount matches as path-to-regexp compiles it for \<open>app.use\<close> (\<open>end: false\<close>,
  case-insensitive, not strict): the prefix, then the end of the path or a \<open>/\<close>.
  Case folding is ASCII's (the paths of the repository are ASCII).
\<close>

text \<open>The options object given to \<open>createProxyMiddleware\<close>.\<close>

record proxy_opts =
  target :: string
  change_origin :: bool
  timeout_ms :: "nat option"
  proxy_timeout_ms :: "nat option"

text \<open>Lines 7--10, in mount order.\<close>

definition gateway_routes :: "(string \<times> proxy_opts) list" where
  "gateway_routes =
    [(''/auth'', \<lparr>target = ''http://auth-service:4001'', change_origin = True, timeout_ms = Some 60000, proxy_timeout_ms = Some 60000\<rparr>),
     (''/restaurants'', \<lparr>target = ''http://restaurant-service:4002'', change_origin = True, timeout_ms = None, proxy_timeout_ms = None\<rparr>),
     (''/orders'', \<lparr>target = ''http://order-service:4003'', change_origin = True, timeout_ms = None, proxy_timeout_ms = None\<rparr>),
     (''/payments'', \<lparr>target = ''http://payment-service:4004'', change_origin = True, timeout_ms = None, proxy_timeout_ms = None\<rparr>)]"

text \<open>
  Express \<open>app.use(mount, ...)\<close> on the request path: the regular expression
  \<open>^\/mount\/?(?=\/|$)\<close> with the \<open>i\<close> flag.
\<close>

definition mount_match :: "string \<Rightarrow> string \<Rightarrow> bool" where
  "mount_match m p =
     (let lm = map ascii_lower m; lp = map ascii_lower p; rest = drop (length lm) lp in
      take (length lm) lp = lm \<and> (rest = [] \<or> hd rest = CHR ''/''))"

text \<open>The router tries the mounts in order; a proxy answers and does not call \<open>next()\<close>.\<close>

fun route_first :: "(string \<times> 'a) list \<Rightarrow> string \<Rightarrow> 'a option" where
  "route_first [] p = None"
| "route_first ((m, x) # t) p = (if mount_match m p then Some x else route_first t p)"

definition gateway_route :: "string \<Rightarrow> proxy_opts option" where
  "gateway_route p = route_first gateway_routes p"

text \<open>
  The spec's resolution rule (spec section 2, Router): the longest matching registered
  prefix wins. It is the contract the routing table is measured against.
\<close>

definition route_longest :: "(string \<times> 'a) list \<Rightarrow> string \<Rightarrow> 'a option" where
  "route_longest rs p =
     (case filter (\<lambda>(m, x). mount_match m p) rs of
        [] \<Rightarrow> None
      | c # cs \<Rightarrow> Some (snd (foldl (\<lambda>b a. if length (fst b) < length (fst a) then a else b) c cs)))"

subsection \<open>The body parser ahead of the proxy (line 6)\<close>








subsection \<open>Lemmas\<close>

lemma ascii_lower_id: "\<not> (65 \<le> (of_char c :: nat) \<and> (of_char c :: nat) \<le> 90) \<Longrightarrow> ascii_lower c = c"
  by (auto simp: ascii_lower_def Let_def)

lemma ascii_lower_idem: "ascii_lower (ascii_lower c) = ascii_lower c"
proof -
  have "of_char (char_of (of_char c + 32 :: nat) :: char) = (of_char c + 32 :: nat)" if "of_char c \<le> (90::nat)"
    using that by (simp add: of_char_of)
  then show ?thesis by (auto simp: ascii_lower_def Let_def)
qed

lemma mount_match_lower: "mount_match m (map ascii_lower p) = mount_match m p"
  by (simp add: mount_match_def comp_def ascii_lower_idem)

lemma take_prefix_agree:
  assumes "take (length a) xs = a" "take (length b) xs = b" "length a \<le> length b"
  shows "take (length a) b = a"
proof -
  have "take (length a) (take (length b) xs) = take (length a) xs" using assms(3) by (simp add: min_def)
  then show ?thesis using assms(1,2) by simp
qed

lemma gateway_mounts_lower: "(m, x) \<in> set gateway_routes \<Longrightarrow> map ascii_lower m = m"
  by (auto simp: gateway_routes_def ascii_lower_id)

lemma mount_match_take: "mount_match m p \<Longrightarrow> take (length m) (map ascii_lower p) = map ascii_lower m"
  by (simp add: mount_match_def Let_def)

lemma gateway_mounts_unnested:
  "\<forall>(m1, x1)\<in>set gateway_routes. \<forall>(m2, x2)\<in>set gateway_routes.
     take (length m1) m2 = m1 \<or> take (length m2) m1 = m2 \<longrightarrow> m1 = m2"
  by (simp add: gateway_routes_def)

lemma mounts_exclusive:
  assumes "mount_match m1 p" "mount_match m2 p" "(m1, x1) \<in> set gateway_routes" "(m2, x2) \<in> set gateway_routes"
  shows "m1 = m2"
proof -
  have t1: "take (length m1) (map ascii_lower p) = m1" and t2: "take (length m2) (map ascii_lower p) = m2"
    using mount_match_take [OF assms(1)] mount_match_take [OF assms(2)]
      gateway_mounts_lower [OF assms(3)] gateway_mounts_lower [OF assms(4)] by simp_all
  have "length m1 \<le> length m2 \<or> length m2 \<le> length m1" by linarith
  then have "take (length m1) m2 = m1 \<or> take (length m2) m1 = m2"
    using take_prefix_agree [OF t1 t2] take_prefix_agree [OF t2 t1] by blast
  then show ?thesis using assms(3,4) gateway_mounts_unnested by fast
qed

lemma mount_match_self:
  assumes "map ascii_lower m = m" and "rest = [] \<or> hd rest = CHR ''/''"
  shows "mount_match m (m @ rest)"
proof -
  have "map ascii_lower rest = [] \<or> hd (map ascii_lower rest) = CHR ''/''"
    using assms(2) by (cases rest) (auto simp: ascii_lower_id)
  then show ?thesis using assms(1) by (simp add: mount_match_def)
qed

lemma route_first_filter:
  "route_first rs p = (case filter (\<lambda>(m, x). mount_match m p) rs of [] \<Rightarrow> None | c # cs \<Rightarrow> Some (snd c))"
  by (induction rs p rule: route_first.induct) auto

lemma filter_one_mount:
  assumes "distinct (map fst rs)" and "\<forall>(m1, x1)\<in>set rs. \<forall>(m2, x2)\<in>set rs. P m1 \<longrightarrow> P m2 \<longrightarrow> m1 = m2"
  shows "length (filter (\<lambda>(m, x). P m) rs) \<le> 1"
  using assms
proof (induction rs)
  case (Cons a rs)
  obtain m x where a: "a = (m, x)" by (cases a)
  have d: "distinct (map fst rs)" using Cons.prems(1) by simp
  have b: "\<forall>(m1, x1)\<in>set rs. \<forall>(m2, x2)\<in>set rs. P m1 \<longrightarrow> P m2 \<longrightarrow> m1 = m2"
    using Cons.prems(2) by fastforce
  have ih: "length (filter (\<lambda>(m, x). P m) rs) \<le> 1" using Cons.IH [OF d b] .
  show ?case
  proof (cases "P m")
    case True
    have "filter (\<lambda>(m, x). P m) rs = []"
    proof (rule ccontr)
      assume "filter (\<lambda>(m, x). P m) rs \<noteq> []"
      then obtain m2 x2 where in2: "(m2, x2) \<in> set rs" and p2: "P m2"
        by (auto simp: filter_empty_conv)
      then have "m2 = m" using Cons.prems(2) a True by auto
      then have "m \<in> set (map fst rs)" using in2 by force
      then show False using Cons.prems(1) a by simp
    qed
    then show ?thesis using a by simp
  next
    case False
    then show ?thesis using a ih by simp
  qed
qed simp

lemma mounts_exclusive_all:
  "\<forall>(m1, x1)\<in>set gateway_routes. \<forall>(m2, x2)\<in>set gateway_routes. mount_match m1 p \<longrightarrow> mount_match m2 p \<longrightarrow> m1 = m2"
proof (intro ballI impI, clarify)
  fix m1 x1 m2 x2
  assume "(m1, x1) \<in> set gateway_routes" "(m2, x2) \<in> set gateway_routes" "mount_match m1 p" "mount_match m2 p"
  then show "m1 = m2" using mounts_exclusive by blast
qed

lemma gateway_distinct_mounts: "distinct (map fst gateway_routes)"
  by (simp add: gateway_routes_def)

subsection \<open>Routing and body handling\<close>

text \<open>
  C32: every path that is a mount of the table followed by nothing or by \<open>/...\<close> is
  proxied with that mount's options (target, timeouts).
\<close>

theorem gateway_routes_mounts:
  assumes "(m, x) \<in> set gateway_routes" and "rest = [] \<or> hd rest = CHR ''/''"
  shows "gateway_route (m @ rest) = Some x"
proof -
  have mm: "mount_match m (m @ rest)" using mount_match_self [OF gateway_mounts_lower [OF assms(1)] assms(2)] .
  have one: "length (filter (\<lambda>(m', x'). mount_match m' (m @ rest)) gateway_routes) \<le> 1"
    using filter_one_mount [OF gateway_distinct_mounts mounts_exclusive_all] .
  have "(m, x) \<in> set (filter (\<lambda>(m', x'). mount_match m' (m @ rest)) gateway_routes)"
    using assms(1) mm by simp
  then have "filter (\<lambda>(m', x'). mount_match m' (m @ rest)) gateway_routes = [(m, x)]"
    using one by (cases "filter (\<lambda>(m', x'). mount_match m' (m @ rest)) gateway_routes") auto
  then show ?thesis by (simp add: gateway_route_def route_first_filter)
qed

theorem gateway_routes_mounts_witness:
  "gateway_route ''/orders/42'' = Some \<lparr>target = ''http://order-service:4003'', change_origin = True, timeout_ms = None, proxy_timeout_ms = None\<rparr>"
  using gateway_routes_mounts [of "''/orders''" "\<lparr>target = ''http://order-service:4003'', change_origin = True, timeout_ms = None, proxy_timeout_ms = None\<rparr>" "''/42''"] by (simp add: gateway_routes_def)

text \<open>
  C33: the gateway's first-match routing refines the spec's rule that the longest
  matching prefix wins: on this table no two mounts match one path, so the two agree
  on every path.
\<close>

theorem gateway_first_is_longest: "gateway_route p = route_longest gateway_routes p"
proof -
  have "length (filter (\<lambda>(m, x). mount_match m p) gateway_routes) \<le> 1"
    using filter_one_mount [OF gateway_distinct_mounts mounts_exclusive_all] .
  then show ?thesis
    by (cases "filter (\<lambda>(m, x). mount_match m p) gateway_routes")
      (auto simp: gateway_route_def route_first_filter route_longest_def)
qed

text \<open>
  Routing ignores ASCII case: \<open>/AUTH/login\<close> goes where \<open>/auth/login\<close> goes.
\<close>

theorem gateway_case_insensitive: "gateway_route (map ascii_lower p) = gateway_route p"
  by (simp add: gateway_route_def gateway_routes_def mount_match_lower)

text \<open>
  A mount matches whole path segments only: \<open>/authentication\<close> and
  \<open>/orders-history\<close> reach no service (Express answers 404), nor does \<open>/\<close>.
\<close>

theorem gateway_segment_boundary:
  "gateway_route ''/authentication'' = None \<and> gateway_route ''/orders-history'' = None \<and> gateway_route ''/'' = None"
  by (simp add: gateway_route_def gateway_routes_def mount_match_def ascii_lower_id)



text \<open>
  Only the \<open>/auth\<close> mount has a timeout (60 s, both directions); the other three
  upstreams may hold a request forever.
\<close>

theorem gateway_timeouts:
  "(m, x) \<in> set gateway_routes \<Longrightarrow> (timeout_ms x \<noteq> None) = (m = ''/auth'') \<and> (proxy_timeout_ms x \<noteq> None) = (m = ''/auth'')"
  by (auto simp: gateway_routes_def)

theorem gateway_timeouts_witness:
  "(timeout_ms \<lparr>target = ''http://order-service:4003'', change_origin = True, timeout_ms = None, proxy_timeout_ms = None\<rparr> \<noteq> None) = (''/orders'' = ''/auth'')
   \<and> (proxy_timeout_ms \<lparr>target = ''http://order-service:4003'', change_origin = True, timeout_ms = None, proxy_timeout_ms = None\<rparr> \<noteq> None) = (''/orders'' = ''/auth'')"
  using gateway_timeouts [of "''/orders''" "\<lparr>target = ''http://order-service:4003'', change_origin = True, timeout_ms = None, proxy_timeout_ms = None\<rparr>"] by (simp add: gateway_routes_def)

end
