(* ===== verification/Deployment.thy ===== *)
theory Deployment
  imports Auth Gateway
begin

text \<open>
  How the processes start and how a client request crosses the gateway into a
  service. Every service ends its module with \<open>app.listen(port, callback)\<close>, the
  callback logging a line; auth-service listens only when \<open>initDB()\<close> has resolved
  (\<open>initDB().then(() => app.listen(...))\<close>), and \<open>process.exit(1)\<close> inside \<open>initDB\<close>
  ends the process instead. Each service's Express router tries its routes in
  registration order: a route matches the method (a \<open>GET\<close> route also answers
  \<open>HEAD\<close>) and the whole path, ASCII case-insensitively, with an optional trailing
  \<open>/\<close>; no match is Express's 404. The gateway proxies a request to its mount's
  target; the path it sends upstream depends on the http-proxy-middleware release,
  which the repository does not pin: 2.x sends \<open>req.originalUrl\<close> (the client's
  path), 3.x sends \<open>req.url\<close>, from which Express has stripped the mount.
\<close>

subsection \<open>Start-up\<close>

datatype proc_state = Listening nat | Exited int

text \<open>\<open>app.listen(port, () => console.log(msg))\<close>: the server is bound, then the callback logs.\<close>

definition app_listen :: "nat \<Rightarrow> string \<Rightarrow> world \<Rightarrow> proc_state \<times> world" where
  "app_listen port msg w = (Listening port, w\<lparr>console := console w @ [[JStr msg]]\<rparr>)"

text \<open>restaurant-service line 43, order-service line 37, payment-service line 21, api-gateway line 12.\<close>

definition restaurant_start :: "world \<Rightarrow> proc_state \<times> world" where
  "restaurant_start = app_listen 4002 ''Restaurant service running''"

definition order_start :: "world \<Rightarrow> proc_state \<times> world" where
  "order_start = app_listen 4003 ''Order service running''"

definition payment_start :: "world \<Rightarrow> proc_state \<times> world" where
  "payment_start = app_listen 4004 ''Payment service running''"

definition gateway_start :: "world \<Rightarrow> proc_state \<times> world" where
  "gateway_start = app_listen 8000 ''API Gateway running on 8000''"

text \<open>notification-service line 12, logged once the \<open>Worker\<close> is constructed.\<close>

definition worker_start :: "world \<Rightarrow> world" where
  "worker_start w = w\<lparr>console := console w @ [[JStr ''[NOTIFICATION-SERVICE] Worker started'']]\<rparr>"

text \<open>
  The Redis server of the two clients: restaurant-service's cache client
  (\<open>redis.createClient({ url: "redis://redis:6379" }); client.connect();\<close>, lines
  24--25) and the BullMQ connection of the shared queue module (\<open>const connection =
  { host: "redis", port: 6379 };\<close>, order-service line 40), which the worker imports too.
\<close>

definition cache_client_url :: string where
  "cache_client_url = ''redis://redis:6379''"

definition queue_connection :: "string \<times> nat" where
  "queue_connection = (''redis'', 6379)"

text \<open>
  auth-service lines 59--63: \<open>initDB().then(() => { app.listen(4001, () => {
  console.log("[AUTH-SERVICE] Running on port 4001"); }); });\<close>. A loop that never
  ends (\<open>None\<close>) never listens.
\<close>

definition auth_running_line :: "json list" where
  "auth_running_line = [JStr ''[AUTH-SERVICE] Running on port 4001'']"

definition auth_start :: "(time_ms \<Rightarrow> bool) \<Rightarrow> world \<Rightarrow> (proc_state \<times> world) option" where
  "auth_start avail w =
     (case init_db avail w of
        None \<Rightarrow> None
      | Some (InitExit c, w') \<Rightarrow> Some (Exited c, w')
      | Some (_, w') \<Rightarrow> Some (app_listen 4001 ''[AUTH-SERVICE] Running on port 4001'' w'))"

subsection \<open>Routing a request into a service\<close>

text \<open>The handlers behind the routes.\<close>

datatype endpoint = Register | Login | CreateRestaurant | ListRestaurants | PlaceOrder | Pay

datatype service = AuthSvc | RestaurantSvc | OrderSvc | PaymentSvc

text \<open>
  The routes each service registers, in registration order: auth-service lines 65
  and 78, restaurant-service lines 27 and 34, order-service line 24, payment-service
  line 17.
\<close>

definition auth_routes :: "(string \<times> string \<times> endpoint) list" where
  "auth_routes = [(''POST'', ''/auth/register'', Register), (''POST'', ''/auth/login'', Login)]"

definition restaurant_routes :: "(string \<times> string \<times> endpoint) list" where
  "restaurant_routes = [(''POST'', ''/restaurants'', CreateRestaurant), (''GET'', ''/restaurants'', ListRestaurants)]"

definition order_routes :: "(string \<times> string \<times> endpoint) list" where
  "order_routes = [(''POST'', ''/orders'', PlaceOrder)]"

definition payment_routes :: "(string \<times> string \<times> endpoint) list" where
  "payment_routes = [(''POST'', ''/payments'', Pay)]"

text \<open>Express \<open>Route\<close> matching: \<open>_handles_method\<close> and the path pattern \<open>^\\/path\\/?$\<close> with the \<open>i\<close> flag.\<close>

definition method_match :: "string \<Rightarrow> string \<Rightarrow> bool" where
  "method_match rm m = (m = rm \<or> (rm = ''GET'' \<and> m = ''HEAD''))"

definition route_match :: "string \<Rightarrow> string \<Rightarrow> bool" where
  "route_match r p = (map ascii_lower p = map ascii_lower r \<or> map ascii_lower p = map ascii_lower r @ ''/'')"

fun app_dispatch :: "(string \<times> string \<times> 'h) list \<Rightarrow> string \<Rightarrow> string \<Rightarrow> 'h option" where
  "app_dispatch [] m p = None"
| "app_dispatch ((rm, r, h) # rs) m p = (if method_match rm m \<and> route_match r p then Some h else app_dispatch rs m p)"

primrec service_routes :: "service \<Rightarrow> (string \<times> string \<times> endpoint) list" where
  "service_routes AuthSvc = auth_routes"
| "service_routes RestaurantSvc = restaurant_routes"
| "service_routes OrderSvc = order_routes"
| "service_routes PaymentSvc = payment_routes"

text \<open>The port a service listens on once started (auth-service with Postgres reachable).\<close>

fun listen_port :: "proc_state \<Rightarrow> nat option" where
  "listen_port (Listening p) = Some p"
| "listen_port (Exited c) = None"

primrec service_port :: "service \<Rightarrow> nat option" where
  "service_port AuthSvc = (case auth_start (\<lambda>_. True) world_init of Some (st, _) \<Rightarrow> listen_port st | None \<Rightarrow> None)"
| "service_port RestaurantSvc = listen_port (fst (restaurant_start world_init))"
| "service_port OrderSvc = listen_port (fst (order_start world_init))"
| "service_port PaymentSvc = listen_port (fst (payment_start world_init))"

text \<open>The port of a target URL \<open>http://host:port\<close>.\<close>

definition url_port :: "string \<Rightarrow> nat option" where
  "url_port u = (let ds = takeWhile is_digit (rev u); rest = dropWhile is_digit (rev u) in
     if ds \<noteq> [] \<and> rest \<noteq> [] \<and> hd rest = CHR '':'' then Some (digits_val (rev ds)) else None)"

definition url_host :: "string \<Rightarrow> string" where
  "url_host u = takeWhile (\<lambda>c. c \<noteq> CHR '':'' \<and> c \<noteq> CHR ''/'') (drop 2 (dropWhile (\<lambda>c. c \<noteq> CHR ''/'') u))"

text \<open>
  The path the proxy sends upstream: the client's path (http-proxy-middleware 2.x), or
  the path below the mount, \<open>/\<close> when nothing is left (3.x).
\<close>

datatype proxy_path = KeepMountPath | StripMountPath

definition forwarded_path :: "proxy_path \<Rightarrow> string \<Rightarrow> string \<Rightarrow> string" where
  "forwarded_path mode m p = (case mode of
      KeepMountPath \<Rightarrow> p
    | StripMountPath \<Rightarrow> (case drop (length m) p of [] \<Rightarrow> ''/'' | rest \<Rightarrow> rest))"

definition gateway_forward :: "proxy_path \<Rightarrow> string \<Rightarrow> (proxy_opts \<times> string) option" where
  "gateway_forward mode p =
     (case route_first (map (\<lambda>(m, x). (m, (m, x))) gateway_routes) p of
        None \<Rightarrow> None
      | Some (m, opts) \<Rightarrow> Some (opts, forwarded_path mode m p))"

subsection \<open>One Redis server\<close>

text \<open>
  The cache client and the queue connection name the same server, which is why one
  \<open>redis\<close> record, with one availability flag, serves both in the model.
\<close>

lemma cache_and_queue_share_redis:
  "url_host cache_client_url = fst queue_connection \<and> url_port cache_client_url = Some (snd queue_connection)"
  by (simp add: url_host_def url_port_def cache_client_url_def queue_connection_def is_digit_def digits_val_def digit_val_def)

subsection \<open>auth-service listens only with its table\<close>

lemma running_line_not_init [simp]:
  "auth_running_line \<noteq> try_line" "auth_running_line \<noteq> ready_line" "auth_running_line \<noteq> failed_line"
  "auth_running_line \<noteq> not_ready_line r e"
  by (simp_all add: auth_running_line_def try_line_def ready_line_def failed_line_def not_ready_line_def)

lemma init_loop_outcome:
  "0 \<le> r \<Longrightarrow> \<exists>res w' out. init_loop avail r d w = Some (res, w') \<and> console w' = console w @ out
     \<and> auth_running_line \<notin> set out
     \<and> (res = InitReady \<and> users (pg w') \<noteq> None \<and> (\<exists>pre. out = pre @ [ready_line])
        \<or> res = InitExit 1 \<or> res = InitNoAttempt \<and> r = 0)"
proof (induction "nat r" arbitrary: r w)
  case 0
  then show ?case by (simp add: init_loop_zero)
next
  case (Suc n)
  then have r: "r \<noteq> 0" "nat (r - 1) = n" "0 \<le> r - 1" by auto
  show ?case
  proof (cases "avail (clock w)")
    case True
    then show ?thesis using r by (simp add: init_loop_up create_if_absent_def split: option.split)
  next
    case False
    show ?thesis
    proof (cases "r - 1 = 0")
      case True
      then show ?thesis using False r by (simp add: init_loop_down)
    next
      case nz: False
      let ?w1 = "w\<lparr>pg := (pg w)\<lparr>pg_up := False\<rparr>,
         console := console w @ [try_line, not_ready_line (r - 1) PgUnavailable], clock := clock w + d\<rparr>"
      obtain res w' out where ih: "init_loop avail (r - 1) d ?w1 = Some (res, w')" "console w' = console ?w1 @ out"
        "auth_running_line \<notin> set out"
        "res = InitReady \<and> users (pg w') \<noteq> None \<and> (\<exists>pre. out = pre @ [ready_line])
          \<or> res = InitExit 1 \<or> res = InitNoAttempt \<and> r - 1 = 0"
        using Suc.hyps(1) [OF r(2) [symmetric]] r(3) by blast
      have "init_loop avail r d w = Some (res, w')" using False r(1) nz ih(1) by (simp add: init_loop_down)
      moreover have "console w' = console w @ ([try_line, not_ready_line (r - 1) PgUnavailable] @ out)"
        using ih(2) by simp
      ultimately show ?thesis using ih(3,4) nz by fastforce
    qed
  qed
qed

text \<open>
  C34: auth-service always settles, and it accepts requests only once the users table
  exists: it either exits with code 1 without ever logging that it runs, or listens on
  port 4001, and then its last two log lines are "DB ready" and "Running on port 4001",
  the latter logged nowhere before.
\<close>

theorem auth_listens_after_db_ready:
  "\<exists>st w' out. auth_start avail w = Some (st, w') \<and> console w' = console w @ out \<and>
     (st = Listening 4001 \<and> users (pg w') \<noteq> None
        \<and> (\<exists>pre. out = pre @ [ready_line, auth_running_line] \<and> auth_running_line \<notin> set pre)
      \<or> st = Exited 1 \<and> auth_running_line \<notin> set out)"
proof -
  obtain res w1 out where i: "init_loop avail 10 3000 w = Some (res, w1)" "console w1 = console w @ out"
      "auth_running_line \<notin> set out"
      "res = InitReady \<and> users (pg w1) \<noteq> None \<and> (\<exists>pre. out = pre @ [ready_line]) \<or> res = InitExit 1"
    using init_loop_outcome [of 10 avail 3000 w] by auto
  show ?thesis
    using i(4)
  proof
    assume "res = InitReady \<and> users (pg w1) \<noteq> None \<and> (\<exists>pre. out = pre @ [ready_line])"
    then obtain pre where r: "res = InitReady" "users (pg w1) \<noteq> None" "out = pre @ [ready_line]" by blast
    have "auth_start avail w = Some (Listening 4001, w1\<lparr>console := console w1 @ [auth_running_line]\<rparr>)"
      using i(1) r(1) by (simp add: auth_start_def init_db_def app_listen_def auth_running_line_def)
    then show ?thesis using r i(2,3) by auto
  next
    assume "res = InitExit 1"
    then have "auth_start avail w = Some (Exited 1, w1)" using i(1) by (simp add: auth_start_def init_db_def)
    then show ?thesis using i(2,3) by auto
  qed
qed

theorem auth_listens_after_db_ready_witness:
  "\<exists>st w' out. auth_start (\<lambda>t. 6000 \<le> t) world_init = Some (st, w') \<and> console w' = console world_init @ out \<and>
     (st = Listening 4001 \<and> users (pg w') \<noteq> None
        \<and> (\<exists>pre. out = pre @ [ready_line, auth_running_line] \<and> auth_running_line \<notin> set pre)
      \<or> st = Exited 1 \<and> auth_running_line \<notin> set out)"
  using auth_listens_after_db_ready [of "\<lambda>t. 6000 \<le> t" world_init] .

subsection \<open>Every route is reachable through the gateway\<close>

lemmas route_eval = gateway_forward_def gateway_routes_def mount_match_def ascii_lower_id forwarded_path_def
  url_port_def is_digit_def digits_val_def digit_val_def method_match_def route_match_def app_listen_def

text \<open>
  C35: for every route a service registers, a client request to the gateway with the
  route's method and path is proxied to a target whose port is the one that service
  listens on; with http-proxy-middleware 2.x the service receives the same path and
  its router dispatches it to the route's handler, while with 3.x the mount is
  stripped from the path and no route of the service matches (Express answers 404).
\<close>

theorem gateway_reaches_every_route:
  assumes "(m, r, h) \<in> set (service_routes s)"
  shows "(\<exists>opts. gateway_forward KeepMountPath r = Some (opts, r) \<and> url_port (target opts) = service_port s
            \<and> app_dispatch (service_routes s) m r = Some h)
       \<and> (\<exists>opts r'. gateway_forward StripMountPath r = Some (opts, r') \<and> app_dispatch (service_routes s) m r' = None)"
proof (cases s)
  case AuthSvc
  have port: "service_port AuthSvc = Some 4001"
    by (simp add: auth_start_def init_db_def init_loop_up world_init_def app_listen_def)
  from assms AuthSvc have "(m, r, h) = (''POST'', ''/auth/register'', Register) \<or> (m, r, h) = (''POST'', ''/auth/login'', Login)"
    by (simp add: auth_routes_def)
  then show ?thesis using AuthSvc port by (elim disjE) (simp_all add: auth_routes_def route_eval)
next
  case RestaurantSvc
  from assms RestaurantSvc have "(m, r, h) = (''POST'', ''/restaurants'', CreateRestaurant) \<or> (m, r, h) = (''GET'', ''/restaurants'', ListRestaurants)"
    by (simp add: restaurant_routes_def)
  then show ?thesis using RestaurantSvc by (elim disjE) (simp_all add: restaurant_routes_def restaurant_start_def route_eval)
next
  case OrderSvc
  from assms OrderSvc have "(m, r, h) = (''POST'', ''/orders'', PlaceOrder)" by (simp add: order_routes_def)
  then show ?thesis using OrderSvc by (simp add: order_routes_def order_start_def route_eval)
next
  case PaymentSvc
  from assms PaymentSvc have "(m, r, h) = (''POST'', ''/payments'', Pay)" by (simp add: payment_routes_def)
  then show ?thesis using PaymentSvc by (simp add: payment_routes_def payment_start_def route_eval)
qed

theorem gateway_reaches_every_route_witness:
  "(\<exists>opts. gateway_forward KeepMountPath ''/orders'' = Some (opts, ''/orders'')
      \<and> url_port (target opts) = service_port OrderSvc
      \<and> app_dispatch (service_routes OrderSvc) ''POST'' ''/orders'' = Some PlaceOrder)
   \<and> (\<exists>opts r'. gateway_forward StripMountPath ''/orders'' = Some (opts, r')
      \<and> app_dispatch (service_routes OrderSvc) ''POST'' r' = None)"
  using gateway_reaches_every_route [of "''POST''" "''/orders''" PlaceOrder OrderSvc] by (simp add: order_routes_def)

end
