(* ===== verification/Request_Log.thy ===== *)
theory Request_Log
  imports Store
begin

text \<open>
  The request logger every service installs (\<open>app.use(morgan(format))\<close>) and the
  payment service's only handler. The format function builds the array
  \<open>[`[SERVICE]`, method, url, status, "-", response-time, "ms"]\<close> and joins it with
  single spaces. morgan's \<open>status\<close> token is \<open>undefined\<close> when no header was sent and
  its \<open>response-time\<close> token is \<open>undefined\<close> before the response started; \<open>join\<close>
  prints \<open>undefined\<close> as the empty string.
\<close>

text \<open>\<open>Array.prototype.join(sep)\<close> on strings.\<close>

fun js_join :: "string \<Rightarrow> string list \<Rightarrow> string" where
  "js_join sep [] = []"
| "js_join sep [x] = x"
| "js_join sep (x # y # xs) = x @ sep @ js_join sep (y # xs)"

text \<open>The array the format function returns, \<open>None\<close> standing for \<open>undefined\<close>.\<close>

definition morgan_fields :: "string \<Rightarrow> string \<Rightarrow> string \<Rightarrow> nat option \<Rightarrow> string option \<Rightarrow> string list" where
  "morgan_fields svc m u st rt =
     [CHR ''['' # svc @ '']'', m, u, (case st of Some n \<Rightarrow> nat_str n | None \<Rightarrow> []), ''-'',
      (case rt of Some r \<Rightarrow> r | None \<Rightarrow> []), ''ms'']"

definition morgan_line :: "string \<Rightarrow> string \<Rightarrow> string \<Rightarrow> nat option \<Rightarrow> string option \<Rightarrow> string" where
  "morgan_line svc m u st rt = js_join '' '' (morgan_fields svc m u st rt)"

text \<open>The four services' formats, each with its \<open>SERVICE_NAME\<close>.\<close>

definition restaurant_log_format :: "string \<Rightarrow> string \<Rightarrow> nat option \<Rightarrow> string option \<Rightarrow> string" where
  "restaurant_log_format = morgan_line ''RESTAURANT-SERVICE''"

definition order_log_format :: "string \<Rightarrow> string \<Rightarrow> nat option \<Rightarrow> string option \<Rightarrow> string" where
  "order_log_format = morgan_line ''ORDER-SERVICE''"

definition auth_log_format :: "string \<Rightarrow> string \<Rightarrow> nat option \<Rightarrow> string option \<Rightarrow> string" where
  "auth_log_format = morgan_line ''AUTH-SERVICE''"

definition payment_log_format :: "string \<Rightarrow> string \<Rightarrow> nat option \<Rightarrow> string option \<Rightarrow> string" where
  "payment_log_format = morgan_line ''PAYMENT-SERVICE''"

text \<open>
  payment-service lines 17--19: \<open>app.post("/payments", (req, res) => { res.json({ status:
  "PAYMENT_SUCCESS" }); });\<close>. The handler reads neither the body nor any state.
\<close>

definition post_payments :: "json option \<Rightarrow> world \<Rightarrow> outcome \<times> world" where
  "post_payments b w = (Respond 200 (JObj [(''status'', JStr ''PAYMENT_SUCCESS'')]), w)"

text \<open>Splitting a log line at its spaces, as a log reader does.\<close>

fun split_space :: "string \<Rightarrow> string list" where
  "split_space [] = [[]]"
| "split_space (c # cs) =
     (if c = CHR '' '' then [] # split_space cs
      else (case split_space cs of w # ws \<Rightarrow> (c # w) # ws | [] \<Rightarrow> [[c]]))"

text \<open>
  A reader of the log: the seven space-separated fields, the service name between
  brackets, the status as a decimal number, empty fields as \<open>undefined\<close>.
\<close>

definition read_log_line :: "string \<Rightarrow> (string \<times> string \<times> string \<times> nat option \<times> string option) option" where
  "read_log_line l = (case split_space l of
     [b, m, u, s, d, r, z] \<Rightarrow>
       if b \<noteq> [] \<and> hd b = CHR ''['' \<and> last b = CHR '']'' \<and> d = ''-'' \<and> z = ''ms'' \<and> (\<forall>c\<in>set s. is_digit c)
       then Some (butlast (tl b), m, u, (if s = [] then None else Some (digits_val s)), (if r = [] then None else Some r))
       else None
   | _ \<Rightarrow> None)"

subsection \<open>Splitting joined fields\<close>

lemma split_space_nospace: "CHR '' '' \<notin> set x \<Longrightarrow> split_space x = [x]"
  by (induction x) auto

lemma split_space_append:
  "CHR '' '' \<notin> set x \<Longrightarrow> split_space (x @ CHR '' '' # y) = x # split_space y"
  by (induction x) auto

lemma split_space_join:
  "\<forall>f\<in>set xs. CHR '' '' \<notin> set f \<Longrightarrow> xs \<noteq> [] \<Longrightarrow> split_space (js_join '' '' xs) = xs"
  by (induction "'' ''" xs rule: js_join.induct) (simp_all add: split_space_nospace split_space_append)

lemma nat_str_no_space: "CHR '' '' \<notin> set (nat_str n)"
  using nat_str_digits [of n] by (auto simp: is_digit_def)

subsection \<open>Log lines read back\<close>

text \<open>
  C37: a request log line of any service reads back as what was logged: the service
  name, the method, the URL, the status (none when morgan's token is \<open>undefined\<close>)
  and the response time, as long as the service name, method, URL and response time
  contain no space and a response time, when there is one, is not empty: the seven
  fields are in the order the reader expects, with \<open>-\<close> and \<open>ms\<close> in place.
\<close>

theorem morgan_line_read_back:
  assumes "CHR '' '' \<notin> set svc" "CHR '' '' \<notin> set m" "CHR '' '' \<notin> set u"
    and "\<forall>r. rt = Some r \<longrightarrow> r \<noteq> [] \<and> CHR '' '' \<notin> set r"
  shows "read_log_line (morgan_line svc m u st rt) = Some (svc, m, u, st, rt)"
proof -
  have "\<forall>f\<in>set (morgan_fields svc m u st rt). CHR '' '' \<notin> set f"
    using assms nat_str_no_space by (auto simp: morgan_fields_def split: option.split)
  then have sp: "split_space (morgan_line svc m u st rt) = morgan_fields svc m u st rt"
    unfolding morgan_line_def by (rule split_space_join) (simp add: morgan_fields_def)
  have st: "(\<forall>c\<in>set (case st of Some n \<Rightarrow> nat_str n | None \<Rightarrow> []). is_digit c)
      \<and> (if (case st of Some n \<Rightarrow> nat_str n | None \<Rightarrow> []) = [] then None
          else Some (digits_val (case st of Some n \<Rightarrow> nat_str n | None \<Rightarrow> []))) = st"
    using nat_str_digits by (cases st) auto
  have rt: "(if (case rt of Some r \<Rightarrow> r | None \<Rightarrow> []) = [] then None else Some (case rt of Some r \<Rightarrow> r | None \<Rightarrow> [])) = rt"
    using assms(4) by (cases rt) auto
  show ?thesis using st rt by (simp add: read_log_line_def sp morgan_fields_def)
qed

theorem morgan_line_read_back_witness:
  "read_log_line (payment_log_format ''POST'' ''/payments'' (Some 200) (Some ''1.234''))
     = Some (''PAYMENT-SERVICE'', ''POST'', ''/payments'', Some 200, Some ''1.234'')"
  using morgan_line_read_back [of "''PAYMENT-SERVICE''" "''POST''" "''/payments''" "Some ''1.234''" "Some 200"]
  by (simp add: payment_log_format_def)

end
