(* ===== verification/Spec2Isabelle.thy ===== *)
theory Spec2Isabelle
  imports Restaurant_Server Order_System Deployment Request_Log
begin

text \<open>
  \<^bold>\<open>A verification library for food-order-backend-microservices.\<close>

  \<^emph>\<open>The program.\<close> Five Node.js processes and two servers. The API gateway
  (\<open>src/services/api-gateway/index.js\<close>) parses JSON bodies and proxies the path
  prefixes \<open>/auth\<close>, \<open>/restaurants\<close>, \<open>/orders\<close>, \<open>/payments\<close> to four Express
  services: auth (\<open>src/unnamed/part_001\<close>: a DB-connect retry loop, register,
  login), restaurant (\<open>src/services/restaurant-service/index.js\<close>: insert, and a
  cache-aside list read through Redis with a 60 s expiry), order
  (\<open>src/services/order-service/index.js\<close>: insert an order and publish an
  \<open>order.created\<close> job on the BullMQ queue \<open>order-events\<close>), payment (a constant
  answer); a notification worker (\<open>src/unnamed/part_000\<close>) consumes the queue and
  logs each job. All services share one Postgres and one Redis.

  \<^emph>\<open>The library.\<close>
  \<^item> \<open>Prelude\<close>: shared types (millisecond clock, uuids), character classes, the
    decimal printer, list lemmas.
  \<^item> \<open>Json\<close>: JSON values and the runtime functions \<open>JSON.stringify\<close> and
    \<open>JSON.parse\<close> (ECMAScript semantics for integer numbers, strings with all
    escapes, arrays, objects with JavaScript key order), and the round trip
    \<open>json_parse (json_stringify v) = Some v\<close> for well-formed values. The parser runs
    on fuel \<open>2 * length + 1\<close>; \<open>jfuel_le_length\<close> shows every printed value needs
    less.
  \<^item> \<open>Store\<close>: the servers the code awaits on, as far as it depends on them:
    Postgres tables (\<open>None\<close> before \<open>CREATE TABLE IF NOT EXISTS\<close>, append-only
    rows, a log of the statements executed), the Redis keyspace (\<open>GET\<close>,
    \<open>SETEX\<close>, expiry when \<open>now > expiry\<close>), BullMQ queues, availability flags; the
    handler outcome (\<open>res.json\<close>, \<open>res.sendStatus\<close>, or a rejected promise
    nothing catches); JavaScript property access on a body and node-postgres
    parameter conversion; the shared \<open>world\<close> record.
  \<^item> \<open>Restaurant\<close>: the two handlers of restaurant-service, each cut at its
    \<open>await\<close>s into steps (\<open>get_cache_step\<close>, \<open>get_select_step\<close>,
    \<open>get_setex_step\<close>, \<open>post_create_step\<close>, \<open>post_insert_step\<close>), the sequential
    handlers \<open>get_restaurants\<close> and \<open>post_restaurants\<close>, and \<open>rstep\<close>, one step
    of one suspended request. Lemmas: hit and miss behaviour, the 60 s window with
    its boundary, the error paths and the stale read after a POST.
  \<^item> \<open>Restaurant_Server\<close>: the service under concurrency. \<open>rs_step\<close> lets
    requests arrive, runs any suspended request one step, lets time pass and takes
    Postgres or Redis down and up. The invariant \<open>cache_consistent\<close> (the cached
    text and every row list read but not yet written back are a prefix of the
    table) holds in every state reachable from one where it holds; from it, every
    200 answer of a GET lists a prefix of the table. Schedules (\<open>run_sched\<close>) are explicit interleavings, reachable by
    \<open>run_sched_reach\<close>; one of them shows two GETs on a cold cache both reading
    the table, where the spec's single-flight store would read it once.

  \<^item> \<open>Orders\<close>: \<open>POST /orders\<close> of order-service cut at its three awaits
    (\<open>order_create_step\<close>, \<open>order_insert_step\<close>, \<open>order_publish_step\<close>), the
    sequential handler \<open>post_orders\<close>, and \<open>ostep\<close>/\<open>oreq\<close>, one step of a
    suspended order request. Lemmas: the success path, the two outage paths (Redis
    down at the publish leaves an order without its event).
  \<^item> \<open>Notification\<close>: the BullMQ worker of notification-service as the events
    \<open>Fetch\<close>, \<open>Process\<close> (the \<open>console.log\<close>), \<open>Complete\<close> and \<open>Stall\<close> (lost lock,
    \<open>maxStalledCount = 1\<close>) on the queue \<open>order-events\<close>; the queue shape
    \<open>queue_ok\<close> and its preservation; \<open>drain\<close>, the uninterrupted worker, which
    empties the queue in order; a stall after processing logs a job twice, two stalls
    before processing lose it.
  \<^item> \<open>Order_System\<close>: order requests in flight, worker steps, any restaurant
    request step, outages and time, interleaved on one world (\<open>sys_step\<close>). The
    invariant \<open>sys_inv\<close> (queue shape, unique order ids, every job an
    \<open>order.created\<close> for an existing row, one job per order, each request in flight
    consistent with its position, every acknowledged order with its row and its job)
    holds in every reachable state by rule induction; end to end, a placed order is
    logged once the worker drains the queue.
  \<^item> \<open>Auth\<close>: auth-service. \<open>initDB\<close> is \<open>init_loop\<close>, a \<open>partial_function
    (option)\<close> over a schedule \<open>avail\<close> of Postgres availability: it terminates for
    non-negative retry counts, gives up after exactly the retry count of attempts,
    returns ready at the first available attempt, and never ends for a negative count
    with no database. Register and login take bcrypt and jsonwebtoken as parameters;
    the lemmas assume only their contract (a hash is accepted for its own password and
    no other). Lemmas: register then login, the client-chosen role, the duplicate
    email, wrong password, unknown email, unset secret, missing password, and unique
    emails.
  \<^item> \<open>Body_Parser\<close>: the library functions \<open>express.json()\<close> relies on:
    \<open>contentType.parse\<close> (media type and parameters, the charset), and acceptance by
    \<open>JSON.parse\<close> as a pushdown recogniser of the JSON grammar; iconv-lite decoding
    is a parameter.
  \<^item> \<open>Gateway\<close>: api-gateway. \<open>gateway_routes\<close> is the proxy table, \<open>mount_match\<close>
    Express's \<open>app.use\<close> path matching (segment-wise, ASCII case-insensitive),
    \<open>route_first\<close> the router trying mounts in order, \<open>express_json\<close> body-parser's
    decisions (415 for a charset that is not \<open>utf-*\<close> or unknown, 413 over 100 kB,
    400 for text strict mode or \<open>JSON.parse\<close> refuses), \<open>gateway\<close> the whole app
    with \<open>express.json()\<close> ahead of the proxies. Lemmas: each mount routes its
    subtree, the first-match table refines the spec's longest-prefix rule,
    case-insensitivity, segment boundaries, a JSON body is never forwarded (it is
    refused or consumed), and the per-mount timeouts.
  \<^item> \<open>Deployment\<close>: how the processes start and how a request crosses the
    gateway. \<open>restaurant_start\<close>, \<open>order_start\<close>, \<open>payment_start\<close>,
    \<open>gateway_start\<close> are the \<open>app.listen\<close> calls, \<open>worker_start\<close> the worker's
    start-up line, \<open>auth_start\<close> auth-service's \<open>initDB().then(() => app.listen(...))\<close>;
    \<open>auth_routes\<close>, \<open>restaurant_routes\<close>, \<open>order_routes\<close>,
    \<open>payment_routes\<close> are the routes each service registers, dispatched by
    \<open>app_dispatch\<close> (Express's route matching); \<open>gateway_forward\<close> is the proxy
    choice with the path sent upstream under either http-proxy-middleware convention
    (\<open>KeepMountPath\<close> for 2.x, \<open>StripMountPath\<close> for 3.x). Lemmas: auth-service
    always settles and listens only after its table exists; every route of every
    service is reached through the gateway at the port the service listens on with
    2.x and none with 3.x; the cache client and the queue share one Redis server.
  \<^item> \<open>Request_Log\<close>: the morgan format of the four services and the payment handler;
    a reader of seven space-separated fields recovers the service, method, URL,
    status and response time from every log line.
  The contract between order-service and the worker is a FIFO channel
  (\<open>fifo_view\<close>, \<open>fifo_enqueue\<close>, \<open>fifo_deliver\<close> in \<open>Order_System\<close>): publishing
  refines enqueue and a worker round refines delivery.

  \<^emph>\<open>Bounds and fuel.\<close> Times are unbounded \<open>nat\<close> milliseconds: the code does
  no arithmetic that can overflow (Redis computes \<open>now + 60 * 1000\<close> in 64 bits).
  The JSON parser's fuel is shown sufficient for printed values. \<open>initDB\<close> needs no
  fuel: it is a partial function whose termination is a theorem for the counts that
  terminate. \<open>drain\<close> takes as many rounds as there are waiting jobs, which is shown
  to be enough.

  \<^emph>\<open>Plan.\<close> Next: auth requests at await granularity in the composed system
  and the worker's interleaving with Redis outages.

  \<^emph>\<open>Not modelled.\<close> The spec's upstream registry, health prober, circuit breaker,
  multi-candidate router and single-flight cache have no code in the repository;
  the theorems about the real cache show where it differs from that design. Docker
  and Kubernetes configuration (the host names of the targets resolve through
  docker-compose, so the model matches targets to services by port), \<open>console.log\<close>
  text formatting (a log line is its argument list) and bcrypt/JWT internals are
  outside the model; UUID v4 values are assumed fresh. The HTTP exchange of
  http-proxy-middleware and morgan's timing are libraries: the model keeps only the
  choice of upstream, the path and body forwarded, and the optional status and time.
  The services' own \<open>express.json()\<close> (restaurant line 22, order line 7, auth line
  26, payment line 3) is not modelled: what a handler sees for a request without a
  JSON body (\<open>{}\<close> or \<open>undefined\<close>) depends on the Express major version, which
  the repository does not pin, and the handlers take the parsed body as an argument.
  The failure of \<open>client.connect()\<close> when Redis is down at start-up is left out
  for the same reason (node-redis version).
\<close>

end
